(* ===== verification/Limiter.thy ===== *)
theory Limiter
  imports Prelude
begin

text \<open>
  The brute-force limiter of \<open>internal/security/security.go\<close>: one \<open>attemptRecord\<close> per
  key, locked for \<open>lockout\<close> once \<open>max\<close> failures fall into one \<open>window\<close>. Every method
  holds the limiter's mutex from its first to its last access and reads the clock inside,
  so each is one atomic step; the clock readings are arguments of the step. The goroutine
  \<open>gc\<close> is the step \<open>gc_tick\<close>, one per tick of its ticker.
\<close>

section \<open>State\<close>

record attemptRecord =
  ar_count :: int
  ar_first :: time
  ar_lockedUntil :: time

record limiter =
  l_max :: int
  l_window :: duration
  l_lockout :: duration
  l_entries :: "string \<rightharpoonup> attemptRecord"

definition NewLimiter :: "int \<Rightarrow> duration \<Rightarrow> duration \<Rightarrow> limiter" where
  "NewLimiter mx window lockout =
     \<lparr>l_max = (if mx \<le> 0 then 5 else mx),
      l_window = (if window \<le> 0 then 15 * Minute else window),
      l_lockout = (if lockout \<le> 0 then 15 * Minute else lockout),
      l_entries = Map.empty\<rparr>"

section \<open>Operations\<close>

text \<open>
  The sweep of \<open>gc\<close> reads the clock twice for every entry, once for
  \<open>time.Now().After\<close> and once for \<open>time.Since\<close>: \<open>clock k\<close> gives both readings.
\<close>

definition gc_tick :: "(string \<Rightarrow> time \<times> time) \<Rightarrow> limiter \<Rightarrow> limiter" where
  "gc_tick clock l =
     l\<lparr>l_entries := map_keep
         (\<lambda>k e. \<not> (fst (clock k) > ar_lockedUntil e \<and>
                   time_sub (snd (clock k)) (ar_first e) > l_window l))
         (l_entries l)\<rparr>"

definition Allowed :: "time \<Rightarrow> string \<Rightarrow> limiter \<Rightarrow> (bool \<times> time) \<times> limiter" where
  "Allowed now key l =
     (case l_entries l key of
        None \<Rightarrow> ((True, zero_time), l)
      | Some e \<Rightarrow>
          if now < ar_lockedUntil e then ((False, ar_lockedUntil e), l)
          else if time_sub now (ar_first e) > l_window l
            then ((True, zero_time), l\<lparr>l_entries := (l_entries l)(key := None)\<rparr>)
          else ((True, zero_time), l))"

text \<open>\<open>now.Add(l.lockout)\<close> is the addition of instants, which does not saturate.\<close>

definition Fail :: "time \<Rightarrow> string \<Rightarrow> limiter \<Rightarrow> bool \<times> limiter" where
  "Fail now key l =
     (let e = (case l_entries l key of
                 None \<Rightarrow> \<lparr>ar_count = 0, ar_first = now, ar_lockedUntil = zero_time\<rparr>
               | Some e \<Rightarrow>
                   if time_sub now (ar_first e) > l_window l
                   then \<lparr>ar_count = 0, ar_first = now, ar_lockedUntil = zero_time\<rparr>
                   else e);
          e' = e\<lparr>ar_count := ar_count e + 1\<rparr>
      in if ar_count e' \<ge> l_max l
         then (True, l\<lparr>l_entries :=
                 (l_entries l)(key \<mapsto> e'\<lparr>ar_lockedUntil := now + l_lockout l\<rparr>)\<rparr>)
         else (False, l\<lparr>l_entries := (l_entries l)(key \<mapsto> e')\<rparr>))"

definition Reset :: "string \<Rightarrow> limiter \<Rightarrow> limiter" where
  "Reset key l = l\<lparr>l_entries := (l_entries l)(key := None)\<rparr>"

text \<open>One clock reading per entry.\<close>

definition ActiveLocks :: "(string \<Rightarrow> time) \<Rightarrow> limiter \<Rightarrow> nat" where
  "ActiveLocks clock l =
     card (dom (map_keep (\<lambda>k e. clock k < ar_lockedUntil e) (l_entries l)))"

section \<open>Snapshots\<close>

record LockEntry =
  Count :: int
  First :: time
  LockedUntil :: time

record LimiterState =
  ls_Max :: int
  ls_Window :: duration
  ls_Lockout :: duration
  ls_Entries :: "string \<rightharpoonup> LockEntry"

definition entry_out :: "attemptRecord \<Rightarrow> LockEntry" where
  "entry_out e = \<lparr>Count = ar_count e, First = ar_first e, LockedUntil = ar_lockedUntil e\<rparr>"

definition entry_in :: "LockEntry \<Rightarrow> attemptRecord" where
  "entry_in e = \<lparr>ar_count = Count e, ar_first = First e, ar_lockedUntil = LockedUntil e\<rparr>"

definition Snapshot :: "time \<Rightarrow> limiter \<Rightarrow> LimiterState" where
  "Snapshot now l =
     \<lparr>ls_Max = l_max l, ls_Window = l_window l, ls_Lockout = l_lockout l,
      ls_Entries = map_option entry_out \<circ>
        map_keep (\<lambda>k e. \<not> ar_count e \<le> 0 \<and>
                    \<not> (now > ar_lockedUntil e \<and> time_sub now (ar_first e) > l_window l))
          (l_entries l)\<rparr>"

text \<open>
  \<open>Restore\<close> of a nil state (\<open>None\<close>) or of one without entries does nothing. An entry of
  the state is taken only where the limiter has none.
\<close>

definition Restore :: "time \<Rightarrow> LimiterState option \<Rightarrow> limiter \<Rightarrow> limiter" where
  "Restore now st l =
     (case st of
        None \<Rightarrow> l
      | Some s \<Rightarrow>
          l\<lparr>l_entries := (\<lambda>k.
             case map_keep (\<lambda>k e. \<not> (Count e \<le> 0 \<or> k = []) \<and>
                    \<not> (now > LockedUntil e \<and> time_sub now (First e) > l_window l))
                  (ls_Entries s) k of
               None \<Rightarrow> l_entries l k
             | Some e \<Rightarrow> (case l_entries l k of
                            None \<Rightarrow> Some (entry_in e)
                          | Some old \<Rightarrow> Some old))\<rparr>)"

lemmas limiter_defs [step_defs] =
  gc_tick_def Allowed_def Fail_def Reset_def Snapshot_def Restore_def

section \<open>Expiry: what the limiter still knows at an instant\<close>

text \<open>
  An entry is spent once it is neither locked nor inside its window. No operation tells a
  spent entry from a missing one, so \<open>purge now l\<close>, the limiter without its spent entries,
  is all that matters from \<open>now\<close> on.
\<close>

definition spent :: "duration \<Rightarrow> time \<Rightarrow> attemptRecord \<Rightarrow> bool" where
  "spent window now e \<longleftrightarrow> \<not> now < ar_lockedUntil e \<and> time_sub now (ar_first e) > window"

definition purge :: "time \<Rightarrow> limiter \<Rightarrow> limiter" where
  "purge now l = l\<lparr>l_entries := map_keep (\<lambda>k e. \<not> spent (l_window l) now e) (l_entries l)\<rparr>"

definition lim_wf :: "limiter \<Rightarrow> bool" where
  "lim_wf l \<longleftrightarrow> 0 < l_max l \<and> 0 < l_window l \<and> 0 < l_lockout l \<and>
     (\<forall>k e. l_entries l k = Some e \<longrightarrow> k \<noteq> [] \<and> 0 < ar_count e)"

lemma spent_mono: "spent w t e \<Longrightarrow> t \<le> t' \<Longrightarrow> spent w t' e"
  using time_sub_mono [of t t' "ar_first e"] by (auto simp: spent_def)

lemma purge_sel [simp]:
  "l_max (purge t l) = l_max l" "l_window (purge t l) = l_window l"
  "l_lockout (purge t l) = l_lockout l"
  by (simp_all add: purge_def)

lemma purge_eqI:
  assumes "l_max l = l_max l'" "l_window l = l_window l'" "l_lockout l = l_lockout l'"
    and "\<And>k. map_keep (\<lambda>k e. \<not> spent (l_window l) t e) (l_entries l) k =
              map_keep (\<lambda>k e. \<not> spent (l_window l) t e) (l_entries l') k"
  shows "purge t l = purge t l'"
  using assms by (cases l; cases l') (simp add: purge_def fun_eq_iff)

lemma purge_eqD:
  assumes "purge t l = purge t l'"
  shows "l_max l = l_max l'" "l_window l = l_window l'" "l_lockout l = l_lockout l'"
    and "map_keep (\<lambda>k e. \<not> spent (l_window l) t e) (l_entries l) k =
         map_keep (\<lambda>k e. \<not> spent (l_window l) t e) (l_entries l') k"
proof -
  show "l_max l = l_max l'" using assms by (metis purge_sel(1))
  show "l_lockout l = l_lockout l'" using assms by (metis purge_sel(3))
  show w: "l_window l = l_window l'" using assms by (metis purge_sel(2))
  have "l_entries (purge t l) k = l_entries (purge t l') k" using assms by simp
  then show "map_keep (\<lambda>k e. \<not> spent (l_window l) t e) (l_entries l) k =
         map_keep (\<lambda>k e. \<not> spent (l_window l) t e) (l_entries l') k"
    by (simp add: purge_def w)
qed

lemma purge_entries_cases:
  assumes "purge t l = purge t l'"
  obtains "l_entries l k = l_entries l' k"
  | e where "l_entries l k = Some e" "spent (l_window l) t e" "l_entries l' k = None"
  | e' where "l_entries l k = None" "l_entries l' k = Some e'" "spent (l_window l) t e'"
  | e e' where "l_entries l k = Some e" "spent (l_window l) t e"
      "l_entries l' k = Some e'" "spent (l_window l) t e'"
  using purge_eqD(4) [OF assms, of k]
  by (auto simp: map_keep_def split: option.splits if_splits)

lemma purge_eq_mono:
  assumes "purge t l = purge t l'" "t \<le> t'"
  shows "purge t' l = purge t' l'"
proof (rule purge_eqI)
  fix k
  show "map_keep (\<lambda>k e. \<not> spent (l_window l) t' e) (l_entries l) k =
        map_keep (\<lambda>k e. \<not> spent (l_window l) t' e) (l_entries l') k"
    by (rule purge_entries_cases [OF assms(1), of k])
      (auto simp: map_keep_def intro: spent_mono [OF _ assms(2)])
qed (use purge_eqD [OF assms(1)] in auto)

text \<open>Every operation depends on the unspent entries only, and keeps that relation.\<close>

lemma Allowed_purge_cong:
  assumes "purge t l = purge t l'"
  shows "fst (Allowed t k l) = fst (Allowed t k l')"
    and "purge t (snd (Allowed t k l)) = purge t (snd (Allowed t k l'))"
proof -
  note p = purge_eqD [OF assms]
  show "fst (Allowed t k l) = fst (Allowed t k l')"
    using p(2) by (rule_tac purge_entries_cases [OF assms, of k])
      (auto simp: Allowed_def spent_def split: option.splits)
  have drop: "purge t (snd (Allowed t k m)) = purge t m" for m
    by (rule purge_eqI)
      (auto simp: Allowed_def spent_def map_keep_def split: option.splits)
  show "purge t (snd (Allowed t k l)) = purge t (snd (Allowed t k l'))"
    by (simp add: drop assms)
qed

lemma Fail_purge_cong:
  assumes "purge t l = purge t l'"
  shows "fst (Fail t k l) = fst (Fail t k l')"
    and "purge t (snd (Fail t k l)) = purge t (snd (Fail t k l'))"
proof -
  note p = purge_eqD [OF assms]
  have fresh: "(case l_entries l k of
                 None \<Rightarrow> \<lparr>ar_count = 0, ar_first = t, ar_lockedUntil = zero_time\<rparr>
               | Some e \<Rightarrow> if time_sub t (ar_first e) > l_window l
                   then \<lparr>ar_count = 0, ar_first = t, ar_lockedUntil = zero_time\<rparr> else e) =
               (case l_entries l' k of
                 None \<Rightarrow> \<lparr>ar_count = 0, ar_first = t, ar_lockedUntil = zero_time\<rparr>
               | Some e \<Rightarrow> if time_sub t (ar_first e) > l_window l'
                   then \<lparr>ar_count = 0, ar_first = t, ar_lockedUntil = zero_time\<rparr> else e)"
    using p(2) by (rule_tac purge_entries_cases [OF assms, of k])
      (auto simp: spent_def split: option.splits)
  show "fst (Fail t k l) = fst (Fail t k l')"
    unfolding Fail_def fresh using p by (simp add: Let_def)
  show "purge t (snd (Fail t k l)) = purge t (snd (Fail t k l'))"
    unfolding Fail_def fresh
    using p by (intro purge_eqI) (auto simp: Let_def map_keep_upd)
qed

lemma Reset_purge_cong:
  "purge t l = purge t l' \<Longrightarrow> purge t (Reset k l) = purge t (Reset k l')"
  by (rule purge_eqI) (use purge_eqD [of t l l'] in \<open>auto simp: Reset_def map_keep_def\<close>)

text \<open>An entry counted as active is locked, so it is not spent.\<close>

lemma ActiveLocks_purge_cong:
  assumes "purge t l = purge t l'" and "\<And>k. t \<le> clock k"
  shows "ActiveLocks clock l = ActiveLocks clock l'"
proof -
  have "map_keep (\<lambda>k e. clock k < ar_lockedUntil e) (l_entries l) k =
        map_keep (\<lambda>k e. clock k < ar_lockedUntil e) (l_entries l') k" for k
    using assms(2) [of k]
    by (rule_tac purge_entries_cases [OF assms(1), of k]) (auto simp: map_keep_def spent_def)
  then have "map_keep (\<lambda>k e. clock k < ar_lockedUntil e) (l_entries l) =
        map_keep (\<lambda>k e. clock k < ar_lockedUntil e) (l_entries l')"
    by (rule ext)
  then show ?thesis by (simp add: ActiveLocks_def)
qed

lemma purge_gc_tick:
  assumes "\<And>k. fst (clock k) \<le> t \<and> snd (clock k) \<le> t"
  shows "purge t (gc_tick clock l) = purge t l"
proof (rule purge_eqI)
  fix k
  have later: "w < time_sub t a" if "w < time_sub (snd (clock k)) a" for w a
    using assms [of k] time_sub_mono [of "snd (clock k)" t a] that by simp
  show "map_keep (\<lambda>k e. \<not> spent (l_window (gc_tick clock l)) t e) (l_entries (gc_tick clock l)) k =
        map_keep (\<lambda>k e. \<not> spent (l_window (gc_tick clock l)) t e) (l_entries l) k"
    using assms [of k]
    by (auto simp: gc_tick_def map_keep_def spent_def split: option.splits dest: later)
qed (simp_all add: gc_tick_def)

section \<open>Runs\<close>

datatype lim_event =
    EAllowed time string
  | EFail time string
  | EReset time string
  | EActive time "string \<Rightarrow> time"
  | EGc time "string \<Rightarrow> time \<times> time"

datatype lim_output = OAllowed bool time | OFail bool | OReset | OActive nat

fun lim_step :: "limiter \<Rightarrow> lim_event \<Rightarrow> lim_output list \<times> limiter" where
  "lim_step l (EAllowed t k) =
     (case Allowed t k l of ((ok, u), l') \<Rightarrow> ([OAllowed ok u], l'))"
| "lim_step l (EFail t k) = (case Fail t k l of (locked, l') \<Rightarrow> ([OFail locked], l'))"
| "lim_step l (EReset t k) = ([OReset], Reset k l)"
| "lim_step l (EActive t clock) = ([OActive (ActiveLocks clock l)], l)"
| "lim_step l (EGc t clock) = ([], gc_tick clock l)"

fun lim_run :: "limiter \<Rightarrow> lim_event list \<Rightarrow> lim_output list" where
  "lim_run l [] = []"
| "lim_run l (e # es) = fst (lim_step l e) @ lim_run (snd (lim_step l e)) es"

fun is_gc :: "lim_event \<Rightarrow> bool" where
  "is_gc (EGc t clock) = True"
| "is_gc e = False"

text \<open>
  The clock never runs backwards: from \<open>t\<close> on, each event reads it no earlier than the
  event before. A sweep and a count of the locks take a while: they end at the event's time.
\<close>

fun timed :: "time \<Rightarrow> lim_event list \<Rightarrow> bool" where
  "timed t [] = True"
| "timed t (EAllowed t' k # es) = (t \<le> t' \<and> timed t' es)"
| "timed t (EFail t' k # es) = (t \<le> t' \<and> timed t' es)"
| "timed t (EReset t' k # es) = (t \<le> t' \<and> timed t' es)"
| "timed t (EActive t' clock # es) =
     ((\<forall>k. t \<le> clock k \<and> clock k \<le> t') \<and> timed t' es)"
| "timed t (EGc t' clock # es) =
     ((\<forall>k. t \<le> fst (clock k) \<and> fst (clock k) \<le> t' \<and>
           t \<le> snd (clock k) \<and> snd (clock k) \<le> t') \<and> timed t' es)"

text \<open>Limiters that agree on their unspent entries answer every later call alike.\<close>

lemma lim_run_purge_cong:
  assumes "purge t l = purge t l'" and "timed t es"
  shows "lim_run l es = lim_run l' (filter (\<lambda>e. \<not> is_gc e) es)"
  using assms
proof (induction t es arbitrary: l l' rule: timed.induct)
  case (2 t t' k es)
  then have "purge t' l = purge t' l'" by (auto intro: purge_eq_mono)
  note c = Allowed_purge_cong [OF this, of k]
  from 2 have "lim_run (snd (Allowed t' k l)) es =
      lim_run (snd (Allowed t' k l')) (filter (\<lambda>e. \<not> is_gc e) es)"
    by (intro "2.IH" c(2)) auto
  with c(1) show ?case by (cases "Allowed t' k l"; cases "Allowed t' k l'") auto
next
  case (3 t t' k es)
  then have "purge t' l = purge t' l'" by (auto intro: purge_eq_mono)
  note c = Fail_purge_cong [OF this, of k]
  from 3 have "lim_run (snd (Fail t' k l)) es =
      lim_run (snd (Fail t' k l')) (filter (\<lambda>e. \<not> is_gc e) es)"
    by (intro "3.IH" c(2)) auto
  with c(1) show ?case by (cases "Fail t' k l"; cases "Fail t' k l'") auto
next
  case (4 t t' k es)
  then have "purge t' l = purge t' l'" by (auto intro: purge_eq_mono)
  from Reset_purge_cong [OF this, of k] 4 show ?case by (simp add: "4.IH")
next
  case (5 t t' clock es)
  then have le: "t \<le> t'" and "\<And>k. t \<le> clock k" by (auto dest: order.trans)
  from ActiveLocks_purge_cong [OF 5(2) this(2)] purge_eq_mono [OF 5(2) le] 5 show ?case by simp
next
  case (6 t t' clock es)
  then have le: "t \<le> t'" by (auto dest: order.trans)
  have "purge t' (gc_tick clock l) = purge t' l" using 6(3) by (intro purge_gc_tick) auto
  with purge_eq_mono [OF 6(2) le] have "purge t' (gc_tick clock l) = purge t' l'" by simp
  with 6 show ?case by simp
qed simp

section \<open>Properties\<close>

fun event_key_ok :: "lim_event \<Rightarrow> bool" where
  "event_key_ok (EFail t k) = (k \<noteq> [])"
| "event_key_ok e = True"

lemma lim_wf_entry:
  "lim_wf l \<Longrightarrow> l_entries l k = Some e \<Longrightarrow> k \<noteq> [] \<and> 0 < ar_count e"
  by (simp add: lim_wf_def)

lemma lim_wf_New: "lim_wf (NewLimiter mx window lockout)"
  by (simp add: lim_wf_def NewLimiter_def Minute_def Second_def)

lemma lim_wf_Restore: "lim_wf l \<Longrightarrow> lim_wf (Restore now st l)"
  by (auto simp: lim_wf_def Restore_def map_keep_def entry_in_def
        split: option.splits if_splits)

lemma lim_wf_step: "lim_wf l \<Longrightarrow> event_key_ok ev \<Longrightarrow> lim_wf (snd (lim_step l ev))"
  by (cases ev)
    (auto simp: lim_wf_def Allowed_def Fail_def Reset_def gc_tick_def map_keep_def Let_def
       split: option.splits if_splits intro: less_imp_le)

text \<open>
  Every limiter the program can build is well formed. \<open>NewLimiter\<close> gives positive
  limits and no entry; \<open>Allowed\<close>, \<open>Fail\<close>, \<open>Reset\<close>, \<open>ActiveLocks\<close> and the collector keep
  every entry's count positive, and so does \<open>Restore\<close> of any state at all, even a corrupt one.
\<close>

theorem limiter_well_formed:
  assumes "lim_wf l" "event_key_ok ev"
  shows "lim_wf (NewLimiter mx window lockout) \<and> lim_wf (snd (lim_step l ev)) \<and>
     lim_wf (Restore now st l)"
  using assms by (simp add: lim_wf_step lim_wf_Restore lim_wf_New)

theorem limiter_well_formed_witness:
  "lim_wf (snd (lim_step (NewLimiter 5 0 0) (EFail 3 ''ip|1'')))"
  using limiter_well_formed [OF lim_wf_New [of 5 0 0], of "EFail 3 ''ip|1''"] by simp

fun fail_run :: "time list \<Rightarrow> string \<Rightarrow> limiter \<Rightarrow> limiter" where
  "fail_run [] k l = l"
| "fail_run (t # ts) k l = fail_run ts k (snd (Fail t k l))"

lemma fail_run_append: "fail_run (ts @ us) k l = fail_run us k (fail_run ts k l)"
  by (induction ts arbitrary: l) auto

lemma Fail_sel [simp]:
  "l_max (snd (Fail t k l)) = l_max l" "l_window (snd (Fail t k l)) = l_window l"
  "l_lockout (snd (Fail t k l)) = l_lockout l"
  by (simp_all add: Fail_def Let_def)

lemma fail_run_sel [simp]:
  "l_max (fail_run ts k l) = l_max l" "l_window (fail_run ts k l) = l_window l"
  "l_lockout (fail_run ts k l) = l_lockout l"
  by (induction ts arbitrary: l) auto

lemma time_sub_le: "u \<le> t \<Longrightarrow> t - u \<le> w \<Longrightarrow> time_sub t u \<le> w"
  by (auto simp: time_sub_def min_int64_def)

text \<open>The entry after a run of failures inside one window.\<close>

lemma fail_run_entry:
  assumes "\<forall>e. l_entries l k = Some e \<longrightarrow> spent (l_window l) (hd ts) e"
    and "ts \<noteq> []" "sorted ts" "last ts - hd ts \<le> l_window l"
  shows "l_entries (fail_run ts k l) k = Some
     \<lparr>ar_count = int (length ts), ar_first = hd ts,
      ar_lockedUntil = (if int (length ts) < l_max l then zero_time else last ts + l_lockout l)\<rparr>"
  using assms(2-4,1)
proof (induction ts rule: rev_nonempty_induct)
  case (single t)
  then show ?case by (auto simp: Fail_def Let_def spent_def split: option.splits)
next
  case (snoc t ts)
  have "hd ts \<le> last ts" "last ts \<le> t"
    using snoc.prems(1) snoc.hyps by (auto simp: sorted_append sorted_hd_le_last)
  then have "time_sub t (hd ts) \<le> l_window l" "last ts - hd ts \<le> l_window l"
    using snoc.prems(2) snoc.hyps by (auto intro: time_sub_le)
  with snoc show ?case
    by (auto simp: fail_run_append Fail_def Let_def sorted_append)
qed

lemma after_failures:
  assumes "\<forall>e. l_entries l k = Some e \<longrightarrow> spent (l_window l) (hd ts) e"
    and "ts \<noteq> []" "sorted ts" "last ts - hd ts \<le> l_window l"
    and "zero_time \<le> hd ts" "last ts \<le> now"
  shows "fst (fst (Allowed now k (fail_run ts k l))) \<longleftrightarrow>
     int (length ts) < l_max l \<or> last ts + l_lockout l \<le> now"
proof -
  have "hd ts \<le> last ts" using assms(2,3) by (rule sorted_hd_le_last)
  with assms(5,6) have "zero_time \<le> now" by simp
  then show ?thesis
    using fail_run_entry [OF assms(1-4)] by (auto simp: Allowed_def)
qed

text \<open>
  C4: Brute-force protection is exact. From a state with no live entry for a key, any number of
  failures inside one window leaves the key allowed iff there were fewer than \<open>max\<close> of them or
  \<open>lockout\<close> has passed since the last: never one attempt more, never one fewer.
\<close>

theorem lockout_exact:
  assumes "\<forall>e. l_entries l k = Some e \<longrightarrow> spent (l_window l) (hd ts) e"
    and "ts \<noteq> []" "sorted ts" "last ts - hd ts \<le> l_window l"
    and "zero_time \<le> hd ts" "last ts \<le> now"
  shows "fst (fst (Allowed now k (fail_run ts k l))) \<longleftrightarrow>
     int (length ts) < l_max l \<or> last ts + l_lockout l \<le> now"
  by (rule after_failures [OF assms])

theorem lockout_exact_witness:
  "\<not> fst (fst (Allowed 40 ''ip|1'' (fail_run [10, 20, 30] ''ip|1'' (NewLimiter 3 100 50))))"
proof -
  let ?l = "NewLimiter 3 100 50"
  have "fst (fst (Allowed 40 ''ip|1'' (fail_run [10, 20, 30] ''ip|1'' ?l))) \<longleftrightarrow>
      int (length [10, 20, 30 :: time]) < l_max ?l \<or> last [10, 20, 30] + l_lockout ?l \<le> 40"
    by (rule lockout_exact) (simp_all add: NewLimiter_def zero_time_def Second_def)
  then show ?thesis by (simp add: NewLimiter_def)
qed



lemma purge_Restore_Snapshot:
  assumes "lim_wf l" "t1 \<le> t2"
  shows "purge t2 (Restore t2 (Some (Snapshot t1 l))
           (NewLimiter (l_max l) (l_window l) (l_lockout l))) = purge t2 l"
proof (rule purge_eqI)
  let ?r = "Restore t2 (Some (Snapshot t1 l)) (NewLimiter (l_max l) (l_window l) (l_lockout l))"
  show par: "l_max ?r = l_max l" "l_window ?r = l_window l" "l_lockout ?r = l_lockout l"
    using assms(1) by (simp_all add: Restore_def NewLimiter_def lim_wf_def)
  fix k
  have later: "w < time_sub t2 a" if "w < time_sub t1 a" for w a
    using time_sub_mono [OF assms(2), of a] that by simp
  show "map_keep (\<lambda>k e. \<not> spent (l_window ?r) t2 e) (l_entries ?r) k =
        map_keep (\<lambda>k e. \<not> spent (l_window ?r) t2 e) (l_entries l) k"
  proof (cases "l_entries l k")
    case None
    then show ?thesis
      by (simp add: Restore_def Snapshot_def NewLimiter_def map_keep_def)
  next
    case (Some a)
    then have "k \<noteq> []" "\<not> ar_count a \<le> 0"
      using lim_wf_entry [OF assms(1) Some] by auto
    moreover have "0 < l_window l" using assms(1) by (simp add: lim_wf_def)
    ultimately show ?thesis
      using Some assms(2) unfolding par(2)
      by (auto simp: Restore_def Snapshot_def NewLimiter_def map_keep_def entry_in_def entry_out_def
           spent_def dest: later)
  qed
qed

text \<open>
  Lockouts survive a restart. A limiter rebuilt with the same limits from the snapshot of
  another answers every later call exactly as the original would have.
\<close>

theorem restart_preserves_answers:
  assumes "lim_wf l" "t1 \<le> t2" "timed t2 es"
  shows "lim_run (Restore t2 (Some (Snapshot t1 l))
            (NewLimiter (l_max l) (l_window l) (l_lockout l))) es = lim_run l es"
  by (metis lim_run_purge_cong [OF purge_Restore_Snapshot [OF assms(1,2)] assms(3)]
        lim_run_purge_cong [OF refl assms(3)])

theorem restart_preserves_answers_witness:
  "lim_run (Restore 7 (Some (Snapshot 6 (snd (Fail 5 ''u'' (NewLimiter 1 10 50)))))
       (NewLimiter 1 10 50)) [EAllowed 8 ''u''] = [OAllowed False 55]"
proof -
  let ?l = "snd (Fail 5 ''u'' (NewLimiter 1 10 50))"
  have "lim_wf ?l"
    by (simp add: lim_wf_def Fail_def NewLimiter_def Let_def)
  then have "lim_run (Restore 7 (Some (Snapshot 6 ?l))
       (NewLimiter (l_max ?l) (l_window ?l) (l_lockout ?l))) [EAllowed 8 ''u''] =
     lim_run ?l [EAllowed 8 ''u'']"
    by (rule restart_preserves_answers) simp_all
  then show ?thesis by (simp add: NewLimiter_def Fail_def Allowed_def Let_def)
qed

end
