(* ===== verification/ConfigData.thy ===== *)
theory ConfigData
  imports Prelude
begin

text \<open>
  The configuration of \<open>internal/config/config.go\<close>, one record per struct, with the field
  names of the source behind a short prefix. A Go \<open>int\<close> is an \<^typ>\<open>int\<close>; a nil slice is the
  empty list. The map of the TOTP secrets is an association list without repeated keys; it is
  the only field whose nil value the code tells from an empty one (\<open>normalize\<close> replaces it):
  \<open>None\<close> is the nil map.
\<close>

record StorageConfig =
  sc_Backend :: string
  sc_DSN :: string
  sc_BackupIntervalMinutes :: int
  sc_BackupKeep :: int

record LocalAdminConfig =
  la_Enabled :: bool
  la_Username :: string
  la_PasswordHash :: string

record AzureConfig =
  az_TenantID :: string
  az_ClientID :: string
  az_ClientSecret :: string
  az_RedirectURL :: string
  az_AllowedEmails :: "string list"
  az_AllowedGroups :: "string list"

record LDAPConfig =
  ld_Enabled :: bool
  ld_URL :: string
  ld_InsecureTLS :: bool
  ld_BaseDN :: string
  ld_BindUPNSuffix :: string
  ld_UserFilter :: string
  ld_AllowedEmails :: "string list"
  ld_AllowedGroups :: "string list"

record BackendTarget =
  bt_URL :: string
  bt_Weight :: int

record Rule =
  r_Host :: string
  r_Target :: string
  r_Targets :: "BackendTarget list"
  r_LoadBalancing :: string
  r_RequireAuth :: bool
  r_InsecureTLS :: bool
  r_Enabled :: bool

record StreamRule =
  sr_Listen :: string
  sr_Target :: string
  sr_TLS :: bool
  sr_SNIHost :: string
  sr_TimeoutSec :: int
  sr_Enabled :: bool

record TOTPSecret =
  ts_Secret :: string
  ts_Confirmed :: bool

record TOTPConfig =
  to_Enabled :: bool
  to_RequireFor :: "string list"
  to_Secrets :: "(string \<times> TOTPSecret) list option"

record ACMEConfig =
  ac_Enabled :: bool
  ac_Domains :: "string list"
  ac_CacheDir :: string
  ac_RedirectHTTP :: bool

record HealthCheckConfig =
  hk_Enabled :: bool
  hk_IntervalSec :: int
  hk_TimeoutSec :: int
  hk_Failures :: int

record Config =
  cf_AdminPort :: int
  cf_ProxyHTTPPort :: int
  cf_ProxyHTTPSPort :: int
  cf_TLSCertFile :: string
  cf_TLSKeyFile :: string
  cf_PanelTLSCertFile :: string
  cf_PanelTLSKeyFile :: string
  cf_SessionHours :: int
  cf_SessionSecret :: string
  cf_SessionEpoch :: int
  cf_SecureCookies :: bool
  cf_PanelPublicURL :: string
  cf_InsecureUpstream :: bool
  cf_AdminAllowedCIDRs :: "string list"
  cf_PanelAdmins :: "string list"
  cf_LoginMaxFails :: int
  cf_LockoutMinutes :: int
  cf_ACME :: ACMEConfig
  cf_Azure :: AzureConfig
  cf_LDAP :: LDAPConfig
  cf_LocalAdmin :: LocalAdminConfig
  cf_TOTP :: TOTPConfig
  cf_HealthCheck :: HealthCheckConfig
  cf_Rules :: "Rule list"
  cf_StreamRules :: "StreamRule list"
  cf_Storage :: StorageConfig

text \<open>Reading a map that may be nil.\<close>

definition nil_map :: "('k \<times> 'v) list option \<Rightarrow> ('k \<times> 'v) list" where
  "nil_map m = (case m of None \<Rightarrow> [] | Some kvs \<Rightarrow> kvs)"

definition totp_secret :: "Config \<Rightarrow> string \<rightharpoonup> TOTPSecret" where
  "totp_secret c = map_of (nil_map (to_Secrets (cf_TOTP c)))"

lemma nil_map_simps [simp]: "nil_map None = []" "nil_map (Some kvs) = kvs"
  by (simp_all add: nil_map_def)

text \<open>
  A parsed URL as far as the code reads it: \<open>Scheme\<close>, \<open>Host\<close> (with its port), and what
  \<open>Hostname()\<close>, \<open>RequestURI()\<close> and \<open>String()\<close> give. The parser \<open>net/url.Parse\<close> itself is
  an argument of the functions that call it, \<open>None\<close> being an error.
\<close>

record gourl =
  u_Scheme :: string
  u_Host :: string
  u_Hostname :: string
  u_RequestURI :: string
  u_String :: string

type_synonym url_parser = "string \<Rightarrow> gourl option"

text \<open>The zero values, which \<open>&Config{}\<close> and a missing JSON object start from.\<close>

definition no_rule :: Rule where
  "no_rule =
     \<lparr>r_Host = [], r_Target = [], r_Targets = [], r_LoadBalancing = [], r_RequireAuth = False,
      r_InsecureTLS = False, r_Enabled = False\<rparr>"

definition no_stream :: StreamRule where
  "no_stream =
     \<lparr>sr_Listen = [], sr_Target = [], sr_TLS = False, sr_SNIHost = [], sr_TimeoutSec = 0,
      sr_Enabled = False\<rparr>"

definition no_config :: Config where
  "no_config =
     \<lparr>cf_AdminPort = 0, cf_ProxyHTTPPort = 0, cf_ProxyHTTPSPort = 0, cf_TLSCertFile = [],
      cf_TLSKeyFile = [], cf_PanelTLSCertFile = [], cf_PanelTLSKeyFile = [], cf_SessionHours = 0,
      cf_SessionSecret = [], cf_SessionEpoch = 0, cf_SecureCookies = False,
      cf_PanelPublicURL = [], cf_InsecureUpstream = False, cf_AdminAllowedCIDRs = [],
      cf_PanelAdmins = [], cf_LoginMaxFails = 0, cf_LockoutMinutes = 0,
      cf_ACME = \<lparr>ac_Enabled = False, ac_Domains = [], ac_CacheDir = [], ac_RedirectHTTP = False\<rparr>,
      cf_Azure = \<lparr>az_TenantID = [], az_ClientID = [], az_ClientSecret = [], az_RedirectURL = [],
        az_AllowedEmails = [], az_AllowedGroups = []\<rparr>,
      cf_LDAP = \<lparr>ld_Enabled = False, ld_URL = [], ld_InsecureTLS = False, ld_BaseDN = [],
        ld_BindUPNSuffix = [], ld_UserFilter = [], ld_AllowedEmails = [], ld_AllowedGroups = []\<rparr>,
      cf_LocalAdmin = \<lparr>la_Enabled = False, la_Username = [], la_PasswordHash = []\<rparr>,
      cf_TOTP = \<lparr>to_Enabled = False, to_RequireFor = [], to_Secrets = None\<rparr>,
      cf_HealthCheck = \<lparr>hk_Enabled = False, hk_IntervalSec = 0, hk_TimeoutSec = 0, hk_Failures = 0\<rparr>,
      cf_Rules = [], cf_StreamRules = [],
      cf_Storage = \<lparr>sc_Backend = [], sc_DSN = [], sc_BackupIntervalMinutes = 0, sc_BackupKeep = 0\<rparr>\<rparr>"

lemma no_config_sel [simp]:
  "cf_SessionHours no_config = 0" "cf_SessionSecret no_config = []" "cf_SessionEpoch no_config = 0"
  "cf_TOTP no_config = \<lparr>to_Enabled = False, to_RequireFor = [], to_Secrets = None\<rparr>"
  by (simp_all add: no_config_def)

end
