(* ===== verification/Balancer.thy ===== *)
theory Balancer
  imports ConfigData "HOL-Library.Word" "HOL-Library.Multiset"
begin

text \<open>
  The load balancer of \<open>internal/rules/engine.go\<close>: \<open>backend\<close>, \<open>loadBalancer\<close> and the three
  strategies behind \<open>next\<close>. The counter \<open>rr\<close> is kept at its 64 bits. The fairness lemmas
  describe the slots of one cycle (\<open>slots\<close>) and the choices of consecutive calls (\<open>picks\<close>).

  Go shares backends by pointer: a request in flight keeps the backend it was given while
  \<open>Rebuild\<close> installs new ones. Every backend therefore carries an identity \<open>be_id\<close>. The slice
  \<open>lb.backends\<close> is always the slice \<open>rt.backends\<close> of the route that owns the balancer, so the
  balancer's record holds only its strategy and its counter.
\<close>

section \<open>State\<close>

record backend =
  be_id :: nat
  be_target :: gourl
  be_weight :: int
  be_insecureTLS :: bool
  be_activeConns :: int

record loadBalancer =
  lb_strategy :: string
  lb_rr :: "64 word"

section \<open>Load balancing\<close>

text \<open>
  The backend a balancer chooses, by its index; \<open>NilBackend\<close> is the nil pointer and
  \<open>IndexPanic\<close> the run-time panic of an index out of range.
\<close>

datatype choice = NilBackend | Backend nat | IndexPanic

text \<open>Go's \<open>%\<close> takes the sign of its left operand.\<close>

definition go_rem :: "int \<Rightarrow> int \<Rightarrow> int" where
  "go_rem a b = sgn a * (\<bar>a\<bar> mod \<bar>b\<bar>)"

definition index_into :: "nat \<Rightarrow> int \<Rightarrow> choice" where
  "index_into n i = (if 0 \<le> i \<and> i < int n then Backend (nat i) else IndexPanic)"

text \<open>
  \<open>n := atomic.AddUint64(&lb.rr, 1)\<close> wraps at \<open>2 ^ 64\<close>; \<open>int(n-1)\<close> reads the 64 bits as a
  signed number.
\<close>

definition roundRobin :: "backend list \<Rightarrow> loadBalancer \<Rightarrow> choice \<times> loadBalancer" where
  "roundRobin bs lb =
     (let n = lb_rr lb + 1
      in (index_into (length bs) (go_rem (sint (n - 1)) (int (length bs))), lb\<lparr>lb_rr := n\<rparr>))"

definition total_weight :: "backend list \<Rightarrow> int" where
  "total_weight bs = foldl (\<lambda>a b. wrap64 (a + be_weight b)) 0 bs"

fun weighted_scan :: "int \<Rightarrow> int \<Rightarrow> nat \<Rightarrow> backend list \<Rightarrow> choice" where
  "weighted_scan pos cumulative i [] = Backend 0"
| "weighted_scan pos cumulative i (b # bs) =
     (let c = wrap64 (cumulative + be_weight b)
      in if pos < c then Backend i else weighted_scan pos c (Suc i) bs)"

definition weighted :: "backend list \<Rightarrow> loadBalancer \<Rightarrow> choice \<times> loadBalancer" where
  "weighted bs lb =
     (if total_weight bs = 0 then (Backend 0, lb)
      else (let n = lb_rr lb + 1;
                pos = go_rem (sint (n - 1)) (total_weight bs)
            in (weighted_scan pos 0 0 bs, lb\<lparr>lb_rr := n\<rparr>)))"

fun least_loop :: "nat \<Rightarrow> backend list \<Rightarrow> (nat \<times> int) option \<Rightarrow> (nat \<times> int) option" where
  "least_loop i [] best = best"
| "least_loop i (b # bs) best =
     (case best of
        None \<Rightarrow> least_loop (Suc i) bs (Some (i, be_activeConns b))
      | Some (j, c) \<Rightarrow>
          if be_activeConns b < c then least_loop (Suc i) bs (Some (i, be_activeConns b))
          else least_loop (Suc i) bs (Some (j, c)))"

definition leastConns :: "backend list \<Rightarrow> choice" where
  "leastConns bs = (case least_loop 0 bs None of None \<Rightarrow> NilBackend | Some (i, c) \<Rightarrow> Backend i)"

definition next_backend :: "backend list \<Rightarrow> loadBalancer \<Rightarrow> choice \<times> loadBalancer" where
  "next_backend bs lb =
     (if bs = [] then (NilBackend, lb)
      else if lb_strategy lb = ''weighted'' then weighted bs lb
      else if lb_strategy lb = ''least-connections'' then (leastConns bs, lb)
      else roundRobin bs lb)"

section \<open>The counter\<close>

lemma go_rem_nonneg: "0 \<le> a \<Longrightarrow> 0 < b \<Longrightarrow> go_rem a b = a mod b"
  by (cases "a = 0") (auto simp: go_rem_def sgn_if)

lemma go_rem_neg: "a < 0 \<Longrightarrow> 0 < b \<Longrightarrow> go_rem a b = - ((- a) mod b)"
  by (auto simp: go_rem_def sgn_if)

lemma sint_small: "uint (w :: 64 word) < 2 ^ 63 \<Longrightarrow> sint w = uint w"
  by (simp add: sint_uint signed_take_bit_int_eq_self order_trans [OF _ uint_ge_0])

lemma sint_large:
  assumes "2 ^ 63 \<le> uint (w :: 64 word)"
  shows "sint w = uint w - 2 ^ 64"
proof -
  have "uint w < 2 ^ 64" using uint_lt2p [of w] by simp
  then have "(uint w + 2 ^ 63) mod 2 ^ 64 = uint w + 2 ^ 63 - 2 ^ 64"
    using assms by (simp add: mod_pos_geq)
  then show ?thesis
    by (simp add: sint_uint signed_take_bit_eq_take_bit_shift take_bit_eq_mod)
qed

lemma uint_add_1: "uint (w :: 64 word) < 2 ^ 63 \<Longrightarrow> uint (w + 1) = uint w + 1"
  by (simp add: uint_word_ariths)

section \<open>Cycles\<close>

text \<open>
  The choices of consecutive calls, and the cycle of a list of weights: every index as many
  times as its weight.
\<close>

fun calls :: "(loadBalancer \<Rightarrow> choice \<times> loadBalancer) \<Rightarrow> nat \<Rightarrow> loadBalancer \<Rightarrow> choice list" where
  "calls pick 0 lb = []"
| "calls pick (Suc k) lb = (case pick lb of (c, lb') \<Rightarrow> c # calls pick k lb')"

fun slots :: "backend list \<Rightarrow> nat list" where
  "slots [] = []"
| "slots (b # bs) = replicate (nat (be_weight b)) 0 @ map Suc (slots bs)"

text \<open>
  A strategy that walks round a cycle of indices, driven by the counter: the contract that
  round robin and weighted share. Within a window of one cycle, every index is chosen as often
  as the cycle holds it, wherever the window starts.
\<close>

locale cyclic_strategy =
  fixes pick :: "backend list \<Rightarrow> loadBalancer \<Rightarrow> choice \<times> loadBalancer"
    and ok :: "backend list \<Rightarrow> bool"
    and cycle :: "backend list \<Rightarrow> nat list"
  assumes cycle_not_Nil: "ok bs \<Longrightarrow> cycle bs \<noteq> []"
    and pick_cycle: "ok bs \<Longrightarrow> uint (lb_rr lb) < 2 ^ 63 \<Longrightarrow>
      pick bs lb = (Backend (cycle bs ! (unat (lb_rr lb) mod length (cycle bs))),
        lb\<lparr>lb_rr := lb_rr lb + 1\<rparr>)"
begin

lemma calls_cycle:
  assumes "ok bs" "uint (lb_rr lb) + int k \<le> 2 ^ 63"
  shows "calls (pick bs) k lb =
     map (\<lambda>j. Backend (cycle bs ! ((unat (lb_rr lb) + j) mod length (cycle bs)))) [0..<k]"
  using assms(2)
proof (induction k arbitrary: lb)
  case 0
  then show ?case by simp
next
  case (Suc k)
  let ?r = "unat (lb_rr lb)"
  have small: "uint (lb_rr lb) < 2 ^ 63" using Suc.prems by simp
  have "unat (lb_rr lb + 1) = Suc ?r"
    using uint_add_1 [OF small] by (metis Suc_as_int nat_uint_eq uint_nat)
  moreover have "uint (lb_rr (lb\<lparr>lb_rr := lb_rr lb + 1\<rparr>)) + int k \<le> 2 ^ 63"
    using Suc.prems uint_add_1 [OF small] by simp
  moreover have "[0..<Suc k] = 0 # map Suc [0..<k]"
    by (simp add: map_Suc_upt upt_conv_Cons del: upt_Suc)
  ultimately show ?case
    using pick_cycle [OF assms(1) small] Suc.IH [of "lb\<lparr>lb_rr := lb_rr lb + 1\<rparr>"]
    by (simp del: upt_Suc)
qed

lemma one_cycle:
  assumes "ok bs" "uint (lb_rr lb) + int (length (cycle bs)) \<le> 2 ^ 63"
  shows "mset (calls (pick bs) (length (cycle bs)) lb) = mset (map Backend (cycle bs))"
proof -
  let ?c = "cycle bs" and ?r = "unat (lb_rr lb)"
  have "rotate ?r ?c = map (\<lambda>j. ?c ! ((?r + j) mod length ?c)) [0..<length ?c]"
    by (rule nth_equalityI) (simp_all add: nth_rotate)
  then have "calls (pick bs) (length ?c) lb = map Backend (rotate ?r ?c)"
    using calls_cycle [OF assms] by (simp add: o_def)
  moreover have "mset (rotate n xs) = mset xs" for n and xs :: "nat list"
  proof -
    have "mset (rotate1 ys) = mset ys" for ys :: "nat list" by (cases ys) simp_all
    then show ?thesis by (induction n) simp_all
  qed
  ultimately show ?thesis by simp
qed

lemma window_share:
  assumes "ok bs" "uint (lb_rr lb) + int (length (cycle bs)) \<le> 2 ^ 63"
  shows "count_list (calls (pick bs) (length (cycle bs)) lb) (Backend i) =
     count_list (cycle bs) i"
proof -
  have "count_list (map Backend xs) (Backend i) = count_list xs i" for xs
    by (induction xs) auto
  with one_cycle [OF assms] show ?thesis by (metis count_mset)
qed

end

lemma roundRobin_small:
  assumes "uint (lb_rr lb) < 2 ^ 63" "bs \<noteq> []"
  shows "roundRobin bs lb =
     (Backend (unat (lb_rr lb) mod length bs), lb\<lparr>lb_rr := lb_rr lb + 1\<rparr>)"
  using assms
  by (simp add: roundRobin_def Let_def sint_small go_rem_nonneg index_into_def nat_mod_distrib)

lemma roundRobin_exact:
  assumes "bs \<noteq> []"
  shows "fst (roundRobin bs lb) =
     (if uint (lb_rr lb) < 2 ^ 63 then Backend (unat (lb_rr lb) mod length bs)
      else if int (length bs) dvd 2 ^ 64 - uint (lb_rr lb) then Backend 0 else IndexPanic)"
proof (cases "uint (lb_rr lb) < 2 ^ 63")
  case True
  then show ?thesis using roundRobin_small [OF _ assms] by simp
next
  case False
  have n: "0 < int (length bs)" using assms by simp
  have s: "sint (lb_rr lb) = uint (lb_rr lb) - 2 ^ 64" using False by (intro sint_large) simp
  have neg: "sint (lb_rr lb) < 0" using s uint_lt2p [of "lb_rr lb"] by simp
  have "go_rem (sint (lb_rr lb)) (int (length bs)) =
      - ((2 ^ 64 - uint (lb_rr lb)) mod int (length bs))"
    using go_rem_neg [OF neg n] s by simp
  moreover have "index_into (length bs) (- m) = (if m = 0 then Backend 0 else IndexPanic)"
    if "0 \<le> m" for m using that n by (auto simp: index_into_def)
  ultimately show ?thesis
    using False pos_mod_sign [OF n, of "2 ^ 64 - uint (lb_rr lb)"]
    by (simp add: roundRobin_def Let_def dvd_eq_mod_eq_0)
qed

interpretation rr: cyclic_strategy roundRobin "\<lambda>bs. bs \<noteq> []" "\<lambda>bs. [0..<length bs]"
  by unfold_locales (simp_all add: roundRobin_small)

section \<open>Weights\<close>

definition weights_ok :: "backend list \<Rightarrow> bool" where
  "weights_ok bs \<longleftrightarrow> bs \<noteq> [] \<and> (\<forall>b \<in> set bs. 0 < be_weight b) \<and>
     sum_list (map be_weight bs) \<le> max_int64"

lemma weights_nonneg:
  "\<forall>b \<in> set bs. 0 < be_weight b \<Longrightarrow> 0 \<le> sum_list (map be_weight bs)"
  by (induction bs) (auto intro: add_nonneg_nonneg)

lemma total_weight_exact:
  assumes "\<forall>b \<in> set bs. 0 < be_weight b" "0 \<le> a" "a + sum_list (map be_weight bs) \<le> max_int64"
  shows "foldl (\<lambda>a b. wrap64 (a + be_weight b)) a bs = a + sum_list (map be_weight bs)"
  using assms
proof (induction bs arbitrary: a)
  case Nil
  then show ?case by simp
next
  case (Cons b bs)
  have "wrap64 (a + be_weight b) = a + be_weight b"
    using Cons.prems weights_nonneg [of bs] by (intro wrap64_id) (auto simp: min_int64_def)
  then show ?case using Cons.IH [of "a + be_weight b"] Cons.prems by simp
qed

lemma length_slots:
  "\<forall>b \<in> set bs. 0 < be_weight b \<Longrightarrow> int (length (slots bs)) = sum_list (map be_weight bs)"
  by (induction bs) auto

lemma count_slots: "i < length bs \<Longrightarrow> count_list (slots bs) i = nat (be_weight (bs ! i))"
proof (induction bs arbitrary: i)
  case Nil
  then show ?case by simp
next
  case (Cons b bs)
  have zero: "count_list (map Suc xs) 0 = 0" for xs by (induction xs) auto
  have suc: "count_list (map Suc xs) (Suc j) = count_list xs j" for xs j by (induction xs) auto
  have rep: "count_list (replicate n 0) j = (if j = 0 then n else 0)" for n and j :: nat
    by (induction n) auto
  show ?case using Cons by (cases i) (simp_all add: zero suc rep)
qed

lemma weighted_scan_slots:
  assumes "\<forall>b \<in> set bs. 0 < be_weight b" "0 \<le> a" "a + sum_list (map be_weight bs) \<le> max_int64"
    "a \<le> pos" "pos < a + sum_list (map be_weight bs)"
  shows "weighted_scan pos a i bs = Backend (i + slots bs ! nat (pos - a))"
  using assms
proof (induction bs arbitrary: a i)
  case Nil
  then show ?case by simp
next
  case (Cons b bs)
  have w: "wrap64 (a + be_weight b) = a + be_weight b"
    using Cons.prems weights_nonneg [of bs] by (intro wrap64_id) (auto simp: min_int64_def)
  show ?case
  proof (cases "pos < a + be_weight b")
    case True
    with w Cons.prems show ?thesis by (simp add: nth_append)
  next
    case False
    have "nat (pos - a) - nat (be_weight b) = nat (pos - (a + be_weight b))"
      using Cons.prems False by (subst nat_diff_distrib [symmetric]) (auto simp: algebra_simps)
    moreover have "nat (pos - (a + be_weight b)) < length (slots bs)"
      using Cons.prems False length_slots [of bs] by auto
    ultimately show ?thesis
      using Cons.IH [of "a + be_weight b" "Suc i"] Cons.prems False w by (simp add: nth_append)
  qed
qed

lemma weighted_small:
  assumes "weights_ok bs" "uint (lb_rr lb) < 2 ^ 63"
  shows "weighted bs lb =
     (Backend (slots bs ! (unat (lb_rr lb) mod length (slots bs))), lb\<lparr>lb_rr := lb_rr lb + 1\<rparr>)"
proof -
  let ?T = "sum_list (map be_weight bs)"
  from assms(1) have pos: "\<forall>b \<in> set bs. 0 < be_weight b" and le: "?T \<le> max_int64"
    and ne: "bs \<noteq> []" by (auto simp: weights_ok_def)
  have T: "total_weight bs = ?T" using total_weight_exact [OF pos, of 0] le
    by (simp add: total_weight_def)
  have len: "int (length (slots bs)) = ?T" using length_slots [OF pos] .
  have T0: "0 < ?T" using pos ne weights_nonneg [of "tl bs"]
    by (cases bs) (auto intro: add_pos_nonneg)
  have p: "go_rem (sint (lb_rr lb)) ?T = uint (lb_rr lb) mod ?T"
    using T0 assms(2) by (simp add: sint_small go_rem_nonneg)
  have "nat (uint (lb_rr lb) mod ?T) = unat (lb_rr lb) mod length (slots bs)"
    by (simp add: nat_mod_distrib flip: len)
  then show ?thesis
    using T T0 p weighted_scan_slots [OF pos, of 0 "uint (lb_rr lb) mod ?T" 0] le
    by (simp add: weighted_def Let_def)
qed

interpretation wt: cyclic_strategy weighted weights_ok slots
proof unfold_locales
  fix bs
  assume ok: "weights_ok bs"
  then have "int (length (slots bs)) = sum_list (map be_weight bs)"
    by (intro length_slots) (simp add: weights_ok_def)
  moreover have "0 < sum_list (map be_weight bs)"
    using ok weights_nonneg [of "tl bs"]
    by (cases bs) (auto simp: weights_ok_def intro: add_pos_nonneg)
  ultimately show "slots bs \<noteq> []" by auto
qed (simp add: weighted_small)

section \<open>Fewest connections\<close>

definition best_of :: "backend list \<Rightarrow> nat \<Rightarrow> (nat \<times> int) option \<Rightarrow> bool" where
  "best_of bs k best \<longleftrightarrow>
     (case best of
        None \<Rightarrow> k = 0
      | Some (j, c) \<Rightarrow> j < k \<and> c = be_activeConns (bs ! j) \<and>
          (\<forall>m < k. c \<le> be_activeConns (bs ! m)) \<and> (\<forall>m < j. c < be_activeConns (bs ! m)))"

lemma best_of_least_loop:
  "best_of all k best \<Longrightarrow> drop k all = bs \<Longrightarrow> k + length bs = length all \<Longrightarrow>
   best_of all (length all) (least_loop k bs best)"
proof (induction bs arbitrary: k best)
  case Nil
  then show ?case by simp
next
  case (Cons b bs)
  have b: "all ! k = b" and rest: "drop (Suc k) all = bs"
    using nth_via_drop [OF Cons.prems(2)] Cons.prems(2) by (simp, metis drop_Suc list.sel(3) tl_drop)
  show ?case
  proof (cases best)
    case None
    then have "best_of all (Suc k) (Some (k, be_activeConns b))"
      using Cons.prems(1) b by (simp add: best_of_def)
    then show ?thesis using Cons.IH [OF _ rest] Cons.prems(3) None by simp
  next
    case (Some p)
    obtain j c where p: "p = (j, c)" by (cases p)
    have *: "best_of all (Suc k)
        (if be_activeConns b < c then Some (k, be_activeConns b) else Some (j, c))"
      using Cons.prems(1) b Some p by (force simp: best_of_def less_Suc_eq)
    then show ?thesis using Cons.IH [OF * rest] Cons.prems(3) Some p
      by (cases "be_activeConns b < c") simp_all
  qed
qed

lemma leastConns_minimal:
  assumes "bs \<noteq> []"
  shows "\<exists>i < length bs. leastConns bs = Backend i \<and>
     (\<forall>j < length bs. be_activeConns (bs ! i) \<le> be_activeConns (bs ! j)) \<and>
     (\<forall>j < i. be_activeConns (bs ! i) < be_activeConns (bs ! j))"
proof -
  have "best_of bs (length bs) (least_loop 0 bs None)"
    by (rule best_of_least_loop) (simp_all add: best_of_def)
  then show ?thesis
    using assms by (auto simp: leastConns_def best_of_def split: option.splits)
qed

section \<open>Dispatch\<close>

lemma weighted_scan_range:
  "i + length bs = n \<Longrightarrow> 0 < n \<Longrightarrow> \<exists>j < n. weighted_scan pos a i bs = Backend j"
  by (induction bs arbitrary: a i) (auto simp: Let_def)

lemma weighted_range: "bs \<noteq> [] \<Longrightarrow> \<exists>j < length bs. fst (weighted bs lb) = Backend j"
  using weighted_scan_range [of 0 bs "length bs"] by (auto simp: weighted_def Let_def)

lemma snd_pick_strategy:
  "lb_strategy (snd (weighted bs lb)) = lb_strategy lb"
  "lb_strategy (snd (roundRobin bs lb)) = lb_strategy lb"
  by (simp_all add: weighted_def roundRobin_def Let_def)

lemma calls_weighted:
  assumes "lb_strategy lb = ''weighted''" "bs \<noteq> []"
  shows "calls (next_backend bs) k lb = calls (weighted bs) k lb"
  using assms(1)
proof (induction k arbitrary: lb)
  case (Suc k)
  then show ?case
    using snd_pick_strategy(1) [of bs lb] assms(2)
    by (cases "weighted bs lb") (simp add: next_backend_def)
qed simp

lemma calls_roundRobin:
  assumes "lb_strategy lb \<noteq> ''weighted''" "lb_strategy lb \<noteq> ''least-connections''" "bs \<noteq> []"
  shows "calls (next_backend bs) k lb = calls (roundRobin bs) k lb"
  using assms(1,2)
proof (induction k arbitrary: lb)
  case (Suc k)
  then show ?case
    using snd_pick_strategy(2) [of bs lb] assms(3)
    by (cases "roundRobin bs lb") (simp add: next_backend_def)
qed simp

section \<open>Properties\<close>

text \<open>Backends for the concrete instances below.\<close>

definition sample :: "nat \<Rightarrow> int \<Rightarrow> int \<Rightarrow> backend" where
  "sample i w n =
     \<lparr>be_id = i,
      be_target = \<lparr>u_Scheme = ''http'', u_Host = ''h'', u_Hostname = ''h'', u_RequestURI = ''/'',
        u_String = ''http://h''\<rparr>,
      be_weight = w, be_insecureTLS = False, be_activeConns = n\<rparr>"

lemma sample_backend_sel [simp]:
  "be_weight (sample i w n) = w" "be_activeConns (sample i w n) = n"
  by (simp_all add: sample_def)

text \<open>
  Round robin is fair: any window of as many consecutive calls as there are backends
  chooses every backend exactly once, while the counter stays within \<open>2 ^ 63\<close>.
\<close>

theorem round_robin_fair:
  assumes "lb_strategy lb \<noteq> ''weighted''" "lb_strategy lb \<noteq> ''least-connections''"
    "uint (lb_rr lb) + int (length bs) \<le> 2 ^ 63" "i < length bs"
  shows "count_list (calls (next_backend bs) (length bs) lb) (Backend i) = 1"
proof -
  have ne: "bs \<noteq> []" using assms(4) by auto
  have "count_list [0..<length bs] i = 1"
    using assms(4) count_notin [of i "[0..<length bs]"]
    by (simp add: distinct_count_atmost_1 flip: count_mset)
  then show ?thesis
    using rr.window_share [OF ne, of lb i] assms(3) calls_roundRobin [OF assms(1,2) ne] by simp
qed

theorem round_robin_fair_witness:
  "count_list (calls (next_backend [sample 0 1 0, sample 1 1 0, sample 2 1 0]) 3
     \<lparr>lb_strategy = ''round-robin'', lb_rr = 7\<rparr>) (Backend 1) = 1"
  using round_robin_fair [of "\<lparr>lb_strategy = ''round-robin'', lb_rr = 7\<rparr>"
      "[sample 0 1 0, sample 1 1 0, sample 2 1 0]" 1]
  by (simp add: numeral_3_eq_3)

text \<open>
  C6: Weighted balancing is exact: in any window of as many consecutive calls as the weights
  add up to, each backend is chosen exactly its weight's number of times.
\<close>

theorem weighted_fair:
  assumes "lb_strategy lb = ''weighted''" "weights_ok bs"
    "uint (lb_rr lb) + sum_list (map be_weight bs) \<le> 2 ^ 63" "i < length bs"
  shows "count_list (calls (next_backend bs) (nat (sum_list (map be_weight bs))) lb) (Backend i) =
     nat (be_weight (bs ! i))"
proof -
  have len: "int (length (slots bs)) = sum_list (map be_weight bs)"
    using assms(2) by (intro length_slots) (simp add: weights_ok_def)
  have ne: "bs \<noteq> []" using assms(4) by auto
  from len have n: "nat (sum_list (map be_weight bs)) = length (slots bs)" by linarith
  have "count_list (calls (weighted bs) (length (slots bs)) lb) (Backend i) =
      count_list (slots bs) i"
    using assms(3) unfolding len [symmetric] by (rule wt.window_share [OF assms(2)])
  then show ?thesis
    unfolding n calls_weighted [OF assms(1) ne] count_slots [OF assms(4)] .
qed

theorem weighted_fair_witness:
  "count_list (calls (next_backend [sample 0 1 0, sample 1 3 0]) 4
     \<lparr>lb_strategy = ''weighted'', lb_rr = 2\<rparr>) (Backend 1) = 3"
  using weighted_fair [of "\<lparr>lb_strategy = ''weighted'', lb_rr = 2\<rparr>"
      "[sample 0 1 0, sample 1 3 0]" 1]
  by (simp add: weights_ok_def max_int64_def)

definition is_roundRobin :: "string \<Rightarrow> bool" where
  "is_roundRobin s \<longleftrightarrow> s \<noteq> ''weighted'' \<and> s \<noteq> ''least-connections''"

lemma next_backend_cases:
  "bs \<noteq> [] \<Longrightarrow> fst (next_backend bs lb) =
     (if lb_strategy lb = ''weighted'' then fst (weighted bs lb)
      else if lb_strategy lb = ''least-connections'' then leastConns bs
      else fst (roundRobin bs lb))"
  by (simp add: next_backend_def)

lemma next_backend_index: "fst (next_backend bs lb) = Backend i \<Longrightarrow> i < length bs"
  using leastConns_minimal [of bs] weighted_range [of bs lb] roundRobin_exact [of bs lb]
  by (cases "bs = []") (auto simp: next_backend_def split: if_splits)

lemma next_backend_strategy [simp]: "lb_strategy (snd (next_backend bs lb)) = lb_strategy lb"
  by (simp add: next_backend_def snd_pick_strategy)

text \<open>
  C7: \<open>next\<close> answers nil exactly for an empty balancer and an index within range otherwise, with
  one exception, characterised: round robin, once \<open>2 ^ 63\<close> calls have been made, reads its
  counter as a negative number and panics unless the number of backends divides it.
\<close>

theorem next_in_range:
  "(case fst (next_backend bs lb) of NilBackend \<Rightarrow> bs = [] | Backend i \<Rightarrow> i < length bs
      | IndexPanic \<Rightarrow> bs \<noteq> []) \<and>
   (fst (next_backend bs lb) = IndexPanic) =
     (bs \<noteq> [] \<and> is_roundRobin (lb_strategy lb) \<and> 2 ^ 63 \<le> uint (lb_rr lb) \<and>
      \<not> int (length bs) dvd 2 ^ 64 - uint (lb_rr lb))"
proof (cases "bs = []")
  case True
  then show ?thesis by (simp add: next_backend_def)
next
  case False
  obtain i j where i: "leastConns bs = Backend i" "i < length bs"
    and j: "fst (weighted bs lb) = Backend j" "j < length bs"
    using leastConns_minimal [OF False] weighted_range [OF False, of lb] by blast
  show ?thesis
    unfolding next_backend_cases [OF False] roundRobin_exact [OF False]
    using i j False by (simp add: is_roundRobin_def not_less)
qed

text \<open>
  Under least-connections the choice is the first of the backends with the fewest active
  connections, and the balancer is unchanged.
\<close>

theorem least_connections_minimal:
  assumes "lb_strategy lb = ''least-connections''" "bs \<noteq> []"
  shows "\<exists>i < length bs. next_backend bs lb = (Backend i, lb) \<and>
     (\<forall>j < length bs. be_activeConns (bs ! i) \<le> be_activeConns (bs ! j)) \<and>
     (\<forall>j < i. be_activeConns (bs ! i) < be_activeConns (bs ! j))"
  using leastConns_minimal [OF assms(2)] assms by (auto simp: next_backend_def)

theorem least_connections_minimal_witness:
  "\<exists>i < 2. next_backend [sample 0 1 5, sample 1 1 2]
     \<lparr>lb_strategy = ''least-connections'', lb_rr = 0\<rparr> =
     (Backend i, \<lparr>lb_strategy = ''least-connections'', lb_rr = 0\<rparr>)"
  using least_connections_minimal [of "\<lparr>lb_strategy = ''least-connections'', lb_rr = 0\<rparr>"
      "[sample 0 1 5, sample 1 1 2]"]
  by auto

end
