(* ===== verification/Health.thy ===== *)
theory Health
  imports Prelude
begin

text \<open>
  The upstream health checker of \<open>internal/health/health.go\<close>: for every target of the
  routing table the outcome of its probes, and the circuit breaker that marks it down after
  \<open>failures\<close> failed probes in a row and up after one good one. \<open>SetTargets\<close>, \<open>record\<close> and
  \<open>MarkAllHealthy\<close> run under the checker's mutex and are atomic steps. The answer of the
  HTTP probe is an argument of \<open>checkOne\<close>; the callback \<open>onChange\<close> is the optional
  notification a step returns. Counters are unbounded (they count probes).
\<close>

section \<open>State\<close>

record Status =
  st_Target :: string
  st_Healthy :: bool
  st_ConsecFails :: int
  st_LastCheck :: time
  st_LastErr :: string
  st_CheckCount :: int
  st_FailCount :: int
  st_LastSuccessMs :: int

record Checker =
  c_targets :: "string \<rightharpoonup> Status"
  c_healthy :: "string \<rightharpoonup> bool"
  c_interval :: duration
  c_timeout :: duration
  c_failures :: int

definition New :: "duration \<Rightarrow> duration \<Rightarrow> int \<Rightarrow> Checker" where
  "New interval timeout failures =
     \<lparr>c_targets = Map.empty, c_healthy = Map.empty,
      c_interval = (if interval \<le> 0 then 30 * Second else interval),
      c_timeout = (if timeout \<le> 0 then 5 * Second else timeout),
      c_failures = (if failures \<le> 0 then 3 else failures)\<rparr>"

definition new_status :: "string \<Rightarrow> Status" where
  "new_status t =
     \<lparr>st_Target = t, st_Healthy = True, st_ConsecFails = 0, st_LastCheck = zero_time,
      st_LastErr = [], st_CheckCount = 0, st_FailCount = 0, st_LastSuccessMs = 0\<rparr>"

section \<open>Operations\<close>

text \<open>
  The loop of \<open>SetTargets\<close> over the new list, from the old maps into the new ones. A missing
  key of \<open>c.healthy\<close> reads as \<open>false\<close>, the zero value.
\<close>

fun set_targets_loop ::
  "Checker \<Rightarrow> string list \<Rightarrow> (string \<rightharpoonup> Status) \<times> (string \<rightharpoonup> bool) \<Rightarrow>
   (string \<rightharpoonup> Status) \<times> (string \<rightharpoonup> bool)" where
  "set_targets_loop c [] acc = acc"
| "set_targets_loop c (t # ts) (nxt, nxtHealthy) =
     (if t = [] then set_targets_loop c ts (nxt, nxtHealthy)
      else (case c_targets c t of
              Some old \<Rightarrow> set_targets_loop c ts
                (nxt(t \<mapsto> old), nxtHealthy(t \<mapsto> (c_healthy c t = Some True)))
            | None \<Rightarrow> set_targets_loop c ts
                (nxt(t \<mapsto> new_status t), nxtHealthy(t \<mapsto> True))))"

definition SetTargets :: "string list \<Rightarrow> Checker \<Rightarrow> Checker" where
  "SetTargets ts c =
     (case set_targets_loop c ts (Map.empty, Map.empty) of
        (nxt, nxtHealthy) \<Rightarrow> c\<lparr>c_targets := nxt, c_healthy := nxtHealthy\<rparr>)"

definition IsHealthy :: "Checker \<Rightarrow> string \<Rightarrow> bool" where
  "IsHealthy c target = (case c_healthy c target of None \<Rightarrow> True | Some h \<Rightarrow> h)"

text \<open>
  \<open>Snapshot\<close> lists one status per target, with the breaker's verdict as its \<open>Healthy\<close>; the
  order is that of Go's map iteration, so the model gives the map itself.
\<close>

definition Snapshot :: "Checker \<Rightarrow> string \<rightharpoonup> Status" where
  "Snapshot c = (\<lambda>t. map_option
     (\<lambda>s. s\<lparr>st_Healthy := (c_healthy c (st_Target s) = Some True)\<rparr>) (c_targets c t))"

text \<open>
  \<open>record\<close>: \<open>now1\<close> is the reading for \<open>LastCheck\<close>, \<open>now2\<close> the one for \<open>LastSuccessMs\<close>.
  The result carries the arguments of the \<open>onChange\<close> call, if it is made.
\<close>

definition record_probe ::
  "time \<Rightarrow> time \<Rightarrow> string \<Rightarrow> bool \<Rightarrow> string \<Rightarrow> Checker \<Rightarrow> Checker \<times> (string \<times> bool) option" where
  "record_probe now1 now2 target ok errMsg c =
     (case c_targets c target of
        None \<Rightarrow> (c, None)
      | Some s0 \<Rightarrow>
          (let prev = c_healthy c target;
               s1 = s0\<lparr>st_CheckCount := st_CheckCount s0 + 1, st_LastCheck := now1\<rparr>;
               s2 = (if ok
                     then s1\<lparr>st_ConsecFails := 0, st_LastErr := [],
                             st_LastSuccessMs := now2 div 1000000\<rparr>
                     else s1\<lparr>st_ConsecFails := st_ConsecFails s1 + 1,
                             st_FailCount := st_FailCount s1 + 1, st_LastErr := errMsg\<rparr>);
               h = (if ok then (c_healthy c)(target \<mapsto> True)
                    else if st_ConsecFails s2 \<ge> c_failures c then (c_healthy c)(target \<mapsto> False)
                    else c_healthy c);
               nowHealthy = (h target = Some True);
               stateChanged = (prev = None \<or> (prev = Some True) \<noteq> nowHealthy);
               c' = c\<lparr>c_targets := (c_targets c)(target \<mapsto> s2), c_healthy := h\<rparr>
           in (c', if stateChanged then Some (target, nowHealthy) else None)))"

text \<open>What the probe of a target can meet: a bad URL, a transport error, a response.\<close>

datatype probe_result = BadRequest string | TransportError string | Response int

text \<open>\<open>http.StatusText\<close> on the codes of server errors.\<close>

definition StatusText :: "int \<Rightarrow> string" where
  "StatusText code =
     (if code = 500 then ''Internal Server Error'' else
      if code = 501 then ''Not Implemented'' else
      if code = 502 then ''Bad Gateway'' else
      if code = 503 then ''Service Unavailable'' else
      if code = 504 then ''Gateway Timeout'' else
      if code = 505 then ''HTTP Version Not Supported'' else
      if code = 506 then ''Variant Also Negotiates'' else
      if code = 507 then ''Insufficient Storage'' else
      if code = 508 then ''Loop Detected'' else
      if code = 510 then ''Not Extended'' else
      if code = 511 then ''Network Authentication Required'' else [])"

definition checkOne ::
  "time \<Rightarrow> time \<Rightarrow> probe_result \<Rightarrow> string \<Rightarrow> Checker \<Rightarrow> Checker \<times> (string \<times> bool) option" where
  "checkOne now1 now2 res target c =
     (case res of
        BadRequest err \<Rightarrow> record_probe now1 now2 target False err c
      | TransportError err \<Rightarrow> record_probe now1 now2 target False err c
      | Response code \<Rightarrow>
          (let ok = code < 500;
               msg = (if \<not> ok then ''status '' @ StatusText code else [])
           in record_probe now1 now2 target ok msg c))"

text \<open>
  \<open>probe\<close> checks the targets it saw at its start, one after the other, in the order of Go's
  map iteration: \<open>ps\<close> lists them with their answers and clock readings.
\<close>

fun probe ::
  "(string \<times> time \<times> time \<times> probe_result) list \<Rightarrow> Checker \<Rightarrow> Checker \<times> (string \<times> bool) list" where
  "probe [] c = (c, [])"
| "probe ((t, n1, n2, r) # ps) c =
     (case checkOne n1 n2 r t c of (c', note) \<Rightarrow>
        (case probe ps c' of (c'', notes) \<Rightarrow>
           (c'', (case note of None \<Rightarrow> notes | Some x \<Rightarrow> x # notes))))"

definition MarkAllHealthy :: "Checker \<Rightarrow> Checker" where
  "MarkAllHealthy c =
     c\<lparr>c_healthy := (\<lambda>t. map_option (\<lambda>_. True) (c_healthy c t)),
       c_targets := (\<lambda>t. if c_healthy c t = None then c_targets c t
          else map_option (\<lambda>s. s\<lparr>st_ConsecFails := 0, st_LastErr := []\<rparr>) (c_targets c t))\<rparr>"

lemmas health_defs [step_defs] =
  SetTargets_def record_probe_def checkOne_def MarkAllHealthy_def

section \<open>Invariant\<close>

text \<open>What must hold of one target's record and verdict, and of all of them.\<close>

definition entry_ok :: "int \<Rightarrow> string \<Rightarrow> Status option \<Rightarrow> bool option \<Rightarrow> bool" where
  "entry_ok failures t st h =
     (case st of
        None \<Rightarrow> h = None
      | Some s \<Rightarrow> t \<noteq> [] \<and> st_Target s = t \<and> 0 \<le> st_ConsecFails s \<and>
          st_ConsecFails s \<le> st_FailCount s \<and> st_FailCount s \<le> st_CheckCount s \<and>
          h = Some (st_ConsecFails s < failures))"

definition hc_inv :: "Checker \<Rightarrow> bool" where
  "hc_inv c \<longleftrightarrow> 0 < c_failures c \<and>
     (\<forall>t. entry_ok (c_failures c) t (c_targets c t) (c_healthy c t))"

lemma hc_inv_entry: "hc_inv c \<Longrightarrow> entry_ok (c_failures c) t (c_targets c t) (c_healthy c t)"
  by (simp add: hc_inv_def)

lemma hc_inv_tracked:
  assumes "hc_inv c" "c_targets c t = Some s"
  shows "t \<noteq> []" "st_Target s = t" "0 \<le> st_ConsecFails s"
    "c_healthy c t = Some (st_ConsecFails s < c_failures c)"
  using hc_inv_entry [OF assms(1), of t] assms(2) by (auto simp: entry_ok_def)

lemma hc_inv_untracked: "hc_inv c \<Longrightarrow> c_targets c t = None \<Longrightarrow> c_healthy c t = None"
  using hc_inv_entry [of c t] by (simp add: entry_ok_def)

lemma hc_inv_failures: "hc_inv c \<Longrightarrow> 0 < c_failures c"
  by (simp add: hc_inv_def)

lemma hc_inv_New: "hc_inv (New interval timeout failures)"
  by (simp add: hc_inv_def New_def entry_ok_def)

text \<open>What the loop of \<open>SetTargets\<close> computes.\<close>

definition next_target :: "Checker \<Rightarrow> string \<Rightarrow> Status" where
  "next_target c t = (case c_targets c t of Some old \<Rightarrow> old | None \<Rightarrow> new_status t)"

definition next_healthy :: "Checker \<Rightarrow> string \<Rightarrow> bool" where
  "next_healthy c t = (case c_targets c t of Some old \<Rightarrow> c_healthy c t = Some True | None \<Rightarrow> True)"

lemma set_targets_loop_eq:
  "set_targets_loop c ts (n, h) =
     ((\<lambda>t. if t \<in> set ts \<and> t \<noteq> [] then Some (next_target c t) else n t),
      (\<lambda>t. if t \<in> set ts \<and> t \<noteq> [] then Some (next_healthy c t) else h t))"
proof (induction ts arbitrary: n h)
  case (Cons t ts)
  show ?case
    by (cases "t = []"; cases "c_targets c t")
      (auto simp: Cons.IH fun_eq_iff next_target_def next_healthy_def)
qed simp

lemma SetTargets_sel:
  "c_targets (SetTargets ts c) t =
     (if t \<in> set ts \<and> t \<noteq> [] then Some (next_target c t) else None)"
  "c_healthy (SetTargets ts c) t =
     (if t \<in> set ts \<and> t \<noteq> [] then Some (next_healthy c t) else None)"
  "c_failures (SetTargets ts c) = c_failures c"
  by (simp_all add: SetTargets_def set_targets_loop_eq)

lemma hc_inv_SetTargets:
  assumes "hc_inv c"
  shows "hc_inv (SetTargets ts c)"
proof -
  have "entry_ok (c_failures c) t (c_targets (SetTargets ts c) t) (c_healthy (SetTargets ts c) t)"
    for t
    using hc_inv_entry [OF assms, of t] hc_inv_failures [OF assms]
    by (cases "c_targets c t")
      (auto simp: entry_ok_def SetTargets_sel next_target_def next_healthy_def new_status_def)
  with assms show ?thesis by (simp add: hc_inv_def SetTargets_sel)
qed

lemma hc_inv_record_probe:
  assumes "hc_inv c"
  shows "hc_inv (fst (record_probe n1 n2 t ok msg c))"
proof (cases "c_targets c t")
  case None
  with assms show ?thesis by (simp add: record_probe_def)
next
  case (Some s)
  let ?c = "fst (record_probe n1 n2 t ok msg c)"
  have "entry_ok (c_failures c) u (c_targets ?c u) (c_healthy ?c u)" for u
    using hc_inv_entry [OF assms, of u] hc_inv_failures [OF assms] Some
    by (auto simp: entry_ok_def record_probe_def Let_def split: option.splits)
  moreover have "c_failures ?c = c_failures c"
    using Some by (simp add: record_probe_def Let_def)
  ultimately show ?thesis using assms by (simp add: hc_inv_def)
qed

lemma hc_inv_MarkAllHealthy:
  assumes "hc_inv c"
  shows "hc_inv (MarkAllHealthy c)"
proof -
  have "entry_ok (c_failures c) u (c_targets (MarkAllHealthy c) u) (c_healthy (MarkAllHealthy c) u)"
    for u
    using hc_inv_entry [OF assms, of u] hc_inv_failures [OF assms]
    by (auto simp: entry_ok_def MarkAllHealthy_def split: option.splits)
  with assms show ?thesis by (simp add: hc_inv_def MarkAllHealthy_def)
qed

section \<open>The interface the router relies on\<close>

text \<open>
  What a source of health verdicts promises to its client: it tracks exactly the targets it was
  given last, a target it did not know starts healthy, one it knew keeps its verdict, and one
  it does not track counts as healthy.
\<close>

locale health_source =
  fixes inv :: "'h \<Rightarrow> bool"
    and set_targets :: "string list \<Rightarrow> 'h \<Rightarrow> 'h"
    and healthy :: "'h \<Rightarrow> string \<Rightarrow> bool"
    and tracked :: "'h \<Rightarrow> string set"
  assumes inv_set: "inv h \<Longrightarrow> inv (set_targets ts h)"
    and tracked_set: "inv h \<Longrightarrow> tracked (set_targets ts h) = set ts - {[]}"
    and fresh_healthy: "inv h \<Longrightarrow> t \<notin> tracked h \<Longrightarrow> healthy (set_targets ts h) t"
    and known_kept: "inv h \<Longrightarrow> t \<in> tracked h \<Longrightarrow> t \<in> set ts \<Longrightarrow>
          healthy (set_targets ts h) t = healthy h t"
    and untracked_healthy: "inv h \<Longrightarrow> t \<notin> tracked h \<Longrightarrow> healthy h t"
begin

lemma dropped_healthy: "inv h \<Longrightarrow> t \<notin> set ts \<Longrightarrow> healthy (set_targets ts h) t"
  by (metis DiffD1 inv_set tracked_set untracked_healthy)

lemma set_targets_again:
  assumes "inv h"
  shows "healthy (set_targets ts (set_targets ts h)) t = healthy (set_targets ts h) t"
proof (cases "t \<in> set ts - {[]}")
  case True
  with assms show ?thesis by (simp add: known_kept inv_set tracked_set)
next
  case False
  with assms show ?thesis by (metis fresh_healthy inv_set tracked_set untracked_healthy)
qed

lemma verdict_after:
  "inv h \<Longrightarrow> healthy (set_targets ts h) t = (t \<in> tracked h \<inter> set ts \<longrightarrow> healthy h t)"
  using known_kept fresh_healthy dropped_healthy by blast

text \<open>A target that was removed and comes back starts with a clean record.\<close>

lemma removed_then_added:
  assumes "inv h" "t \<notin> set ts"
  shows "healthy (set_targets us (set_targets ts h)) t"
  using assms by (metis DiffD1 fresh_healthy inv_set tracked_set)

end

interpretation hc: health_source hc_inv SetTargets IsHealthy "\<lambda>c. dom (c_targets c)"
proof (unfold_locales, goal_cases)
  case (1 h ts)
  then show ?case by (rule hc_inv_SetTargets)
next
  case (2 h ts)
  then show ?case by (auto simp: dom_def SetTargets_sel)
next
  case (3 h t ts)
  then show ?case by (auto simp: IsHealthy_def SetTargets_sel next_healthy_def)
next
  case (4 h t ts)
  then obtain s where "c_targets h t = Some s" by blast
  with hc_inv_tracked [OF 4(1) this] 4(3) show ?case
    by (simp add: IsHealthy_def SetTargets_sel next_healthy_def)
next
  case (5 h t)
  then have "c_healthy h t = None" by (intro hc_inv_untracked) auto
  then show ?case by (simp add: IsHealthy_def)
qed

section \<open>Specification: counting failures in a row\<close>

text \<open>
  Abstractly the checker is a map from the tracked targets to the number of probes failed since
  the last good one; a target is down once that number reaches the limit.
\<close>

type_synonym streaks = "string \<rightharpoonup> nat"

datatype hc_event =
    HSet "string list"
  | HRecord time time string bool string
  | HMarkAll

fun hc_step :: "hc_event \<Rightarrow> Checker \<Rightarrow> Checker" where
  "hc_step (HSet ts) c = SetTargets ts c"
| "hc_step (HRecord n1 n2 t ok msg) c = fst (record_probe n1 n2 t ok msg c)"
| "hc_step HMarkAll c = MarkAllHealthy c"

fun streak_step :: "hc_event \<Rightarrow> streaks \<Rightarrow> streaks" where
  "streak_step (HSet ts) a =
     (\<lambda>t. if t \<in> set ts \<and> t \<noteq> []
          then Some (case a t of None \<Rightarrow> 0 | Some n \<Rightarrow> n) else None)"
| "streak_step (HRecord n1 n2 t ok msg) a =
     (case a t of None \<Rightarrow> a | Some n \<Rightarrow> a(t \<mapsto> (if ok then 0 else Suc n)))"
| "streak_step HMarkAll a = (\<lambda>t. map_option (\<lambda>_. 0) (a t))"

definition streaks_of :: "Checker \<Rightarrow> streaks" where
  "streaks_of c = (\<lambda>t. map_option (\<lambda>s. nat (st_ConsecFails s)) (c_targets c t))"

definition streak_up :: "int \<Rightarrow> streaks \<Rightarrow> string \<Rightarrow> bool" where
  "streak_up failures a t = (case a t of None \<Rightarrow> True | Some n \<Rightarrow> int n < failures)"

lemma hc_inv_step: "hc_inv c \<Longrightarrow> hc_inv (hc_step e c)"
  by (cases e) (simp_all add: hc_inv_SetTargets hc_inv_record_probe hc_inv_MarkAllHealthy)

lemma hc_step_failures [simp]: "c_failures (hc_step e c) = c_failures c"
  by (cases e)
    (auto simp: SetTargets_sel record_probe_def MarkAllHealthy_def Let_def split: option.splits)

lemma IsHealthy_up:
  assumes "hc_inv c"
  shows "IsHealthy c t = streak_up (c_failures c) (streaks_of c) t"
proof (cases "c_targets c t")
  case None
  with hc_inv_untracked [OF assms] show ?thesis by (simp add: IsHealthy_def streak_up_def streaks_of_def)
next
  case (Some s)
  with hc_inv_tracked [OF assms this] show ?thesis
    by (simp add: IsHealthy_def streak_up_def streaks_of_def)
qed

lemma streaks_of_step:
  assumes "hc_inv c"
  shows "streaks_of (hc_step e c) = streak_step e (streaks_of c)"
proof (cases e)
  case (HSet ts)
  then show ?thesis
    by (auto simp: streaks_of_def SetTargets_sel next_target_def new_status_def fun_eq_iff
          split: option.splits)
next
  case (HRecord n1 n2 t ok msg)
  then show ?thesis
    using hc_inv_tracked(3) [OF assms, of t]
    by (cases "c_targets c t")
      (auto simp: streaks_of_def record_probe_def Let_def fun_eq_iff nat_add_distrib)
next
  case HMarkAll
  have "c_healthy c t = None \<Longrightarrow> c_targets c t = None" for t
    using hc_inv_entry [OF assms, of t] by (auto simp: entry_ok_def split: option.splits)
  with HMarkAll show ?thesis
    by (auto simp: streaks_of_def MarkAllHealthy_def fun_eq_iff option.map_comp o_def)
qed

lemma hc_run_refines:
  assumes "hc_inv c"
  shows "hc_inv (fold hc_step es c) \<and>
     streaks_of (fold hc_step es c) = fold streak_step es (streaks_of c) \<and>
     c_failures (fold hc_step es c) = c_failures c"
  using assms
  by (induction es arbitrary: c) (auto simp: hc_inv_step streaks_of_step)

section \<open>Properties\<close>

text \<open>
  C5: The circuit breaker refines its specification. After any sequence of probe results,
  changes of the target list and resets, starting from a fresh checker, the verdict on a target
  is exactly that fewer than \<open>failures\<close> probes of it failed since its last success, its last
  reset or its (re)appearance in the target list; an unknown target is healthy.
\<close>

theorem breaker_refines_streaks:
  "IsHealthy (fold hc_step es (New interval timeout failures)) t =
     streak_up (if failures \<le> 0 then 3 else failures) (fold streak_step es Map.empty) t"
proof -
  let ?c = "New interval timeout failures"
  have "streaks_of ?c = Map.empty" by (simp add: streaks_of_def New_def)
  moreover have "c_failures ?c = (if failures \<le> 0 then 3 else failures)" by (simp add: New_def)
  ultimately show ?thesis
    using hc_run_refines [OF hc_inv_New, of es interval timeout failures]
    by (simp add: IsHealthy_up)
qed

lemma record_probe_note:
  assumes "hc_inv c"
  shows "snd (record_probe n1 n2 t ok msg c) =
     (let c' = fst (record_probe n1 n2 t ok msg c)
      in if IsHealthy c' t \<noteq> IsHealthy c t then Some (t, IsHealthy c' t) else None)"
proof (cases "c_targets c t")
  case None
  then show ?thesis by (simp add: record_probe_def)
next
  case (Some s)
  with hc_inv_tracked [OF assms this] show ?thesis
    by (auto simp: record_probe_def Let_def IsHealthy_def)
qed

text \<open>
  \<open>onChange\<close> is called for exactly the probes that flip a verdict, with the new verdict, and
  a probe of one target never changes the verdict on another.
\<close>

theorem onChange_exact:
  assumes "hc_inv c" and "record_probe n1 n2 t ok msg c = (c', note)"
  shows "note = (if IsHealthy c' t \<noteq> IsHealthy c t then Some (t, IsHealthy c' t) else None) \<and>
     (u \<noteq> t \<longrightarrow> IsHealthy c' u = IsHealthy c u)"
proof
  show "note = (if IsHealthy c' t \<noteq> IsHealthy c t then Some (t, IsHealthy c' t) else None)"
    using record_probe_note [OF assms(1), of n1 n2 t ok msg] assms(2) by (simp add: Let_def)
  show "u \<noteq> t \<longrightarrow> IsHealthy c' u = IsHealthy c u"
    using assms(2)
    by (auto simp: record_probe_def Let_def IsHealthy_def split: option.splits if_splits)
qed

theorem onChange_exact_witness:
  "snd (record_probe 1 2 ''http://a'' False ''x'' (SetTargets [''http://a''] (New 0 0 1))) =
     Some (''http://a'', False)"
proof -
  let ?c = "SetTargets [''http://a''] (New 0 0 1)"
  have "hc_inv ?c" by (intro hc_inv_SetTargets hc_inv_New)
  from onChange_exact [OF this surjective_pairing] show ?thesis
    by (simp add: record_probe_def IsHealthy_def SetTargets_sel New_def Let_def
          next_target_def next_healthy_def new_status_def)
qed

text \<open>
  A target that is taken out of the routing table and later put back starts with a clean
  record, and installing the same target list twice changes no verdict.
\<close>

theorem retargeting_verdicts:
  assumes "hc_inv c" "t \<notin> set ts" "u \<in> set ts" "c_targets c u \<noteq> None"
  shows "IsHealthy (SetTargets us (SetTargets ts c)) t \<and>
     IsHealthy (SetTargets ts c) u = IsHealthy c u \<and>
     IsHealthy (SetTargets ts (SetTargets ts c)) v = IsHealthy (SetTargets ts c) v"
  using assms hc.known_kept [OF assms(1), of u ts]
  by (auto simp: hc.removed_then_added hc.set_targets_again)

theorem retargeting_verdicts_witness:
  "IsHealthy (SetTargets [''a'', ''b''] (SetTargets [''b'']
     (fst (record_probe 1 2 ''a'' False ''x'' (SetTargets [''a'', ''b''] (New 0 0 1)))))) ''a''"
proof -
  let ?c = "fst (record_probe 1 2 ''a'' False ''x'' (SetTargets [''a'', ''b''] (New 0 0 1)))"
  have "hc_inv ?c" by (intro hc_inv_record_probe hc_inv_SetTargets hc_inv_New)
  moreover have "c_targets ?c ''b'' \<noteq> None"
    by (simp add: record_probe_def SetTargets_sel Let_def)
  ultimately show ?thesis using retargeting_verdicts [of ?c "''a''" "[''b'']" "''b''"] by simp
qed

end
