(* ===== verification/Engine.thy ===== *)
theory Engine
  imports Balancer Health "HOL-Library.AList"
begin

text \<open>
  The routing engine of \<open>internal/rules/engine.go\<close>: the route table that \<open>Rebuild\<close> makes
  from the rules, host lookup with wildcards and the request handler.

  Go shares backends and routes by pointer: a request in flight keeps the backend it was given
  while \<open>Rebuild\<close> installs new ones. Every backend therefore carries an identity \<open>be_id\<close>,
  drawn from the engine's allocation counter \<open>e_next\<close>.
  The route map is an association list without repeated keys, in some iteration order; Go's
  order is unspecified, and \<open>lookup_order_irrelevant\<close> shows that no answer depends on it.
\<close>

section \<open>State\<close>

record route =
  rt_rule :: Rule
  rt_backends :: "backend list"
  rt_lb :: "loadBalancer option"
  rt_disabled :: bool

record Engine =
  e_routes :: "(string \<times> route) list"
  e_targets :: "string list"
  e_health :: "Checker option"
  e_insecureDefault :: bool
  e_next :: nat

section \<open>Building the route table\<close>

definition NormalizeHost :: "string \<Rightarrow> string" where
  "NormalizeHost h =
     (let h = ToLower (TrimSpace h)
      in case IndexByte h (CHR '':'') of None \<Rightarrow> h | Some i \<Rightarrow> take i h)"

text \<open>
  \<open>parseTarget\<close> returns a nil URL without an error for an empty text and for a URL without
  an HTTP scheme or host; its callers treat a nil URL like an error, so both are \<open>None\<close>.
\<close>

definition parseTarget :: "url_parser \<Rightarrow> string \<Rightarrow> gourl option" where
  "parseTarget up raw =
     (let raw = TrimSpace raw
      in if raw = [] then None
         else case up raw of
           None \<Rightarrow> None
         | Some u \<Rightarrow>
             if (u_Scheme u \<noteq> ''http'' \<and> u_Scheme u \<noteq> ''https'') \<or> u_Host u = [] then None
             else Some u)"

definition newBackend :: "nat \<Rightarrow> gourl \<Rightarrow> int \<Rightarrow> bool \<Rightarrow> backend" where
  "newBackend i tgt weight insecure =
     \<lparr>be_id = i, be_target = tgt, be_weight = weight, be_insecureTLS = insecure,
      be_activeConns = 0\<rparr>"

definition newLoadBalancer :: "string \<Rightarrow> loadBalancer" where
  "newLoadBalancer strategy = \<lparr>lb_strategy = strategy, lb_rr = 0\<rparr>"

text \<open>The builders take and return the allocation counter.\<close>

definition buildSingleBackend ::
  "url_parser \<Rightarrow> bool \<Rightarrow> Rule \<Rightarrow> nat \<Rightarrow> backend list \<times> loadBalancer option \<times> nat" where
  "buildSingleBackend up lax rl i =
     (case parseTarget up (r_Target rl) of
        None \<Rightarrow> ([], None, i)
      | Some tgt \<Rightarrow>
          ([newBackend i tgt 1 (r_InsecureTLS rl \<or> lax)],
           Some (newLoadBalancer ''round-robin''), Suc i))"

fun multi_loop ::
  "url_parser \<Rightarrow> bool \<Rightarrow> Rule \<Rightarrow> BackendTarget list \<Rightarrow> nat \<Rightarrow> backend list \<times> nat" where
  "multi_loop up lax rl [] i = ([], i)"
| "multi_loop up lax rl (t # ts) i =
     (case parseTarget up (bt_URL t) of
        None \<Rightarrow> multi_loop up lax rl ts i
      | Some tgt \<Rightarrow>
          (let weight = (if bt_Weight t \<le> 0 then 1 else bt_Weight t);
               b = newBackend i tgt weight (r_InsecureTLS rl \<or> lax)
           in case multi_loop up lax rl ts (Suc i) of (bs, j) \<Rightarrow> (b # bs, j)))"

definition buildMultiBackends ::
  "url_parser \<Rightarrow> bool \<Rightarrow> Rule \<Rightarrow> nat \<Rightarrow> backend list \<times> loadBalancer option \<times> nat" where
  "buildMultiBackends up lax rl i =
     (let strategy = (if r_LoadBalancing rl = [] then ''round-robin'' else r_LoadBalancing rl)
      in case multi_loop up lax rl (r_Targets rl) i of (bs, j) \<Rightarrow>
           if bs = [] then ([], None, j) else (bs, Some (newLoadBalancer strategy), j))"

definition buildBackends ::
  "url_parser \<Rightarrow> bool \<Rightarrow> Rule \<Rightarrow> nat \<Rightarrow> backend list \<times> loadBalancer option \<times> nat" where
  "buildBackends up lax rl i =
     (if length (r_Targets rl) > 0 then buildMultiBackends up lax rl i
      else buildSingleBackend up lax rl i)"

fun rebuild_loop ::
  "url_parser \<Rightarrow> bool \<Rightarrow> Rule list \<Rightarrow> (string \<times> route) list \<times> string list \<times> nat \<Rightarrow>
   (string \<times> route) list \<times> string list \<times> nat" where
  "rebuild_loop up lax [] acc = acc"
| "rebuild_loop up lax (rl # rls) (nxt, targets, i) =
     (let host = NormalizeHost (r_Host rl)
      in if host = [] then rebuild_loop up lax rls (nxt, targets, i)
         else if \<not> r_Enabled rl then
           rebuild_loop up lax rls
             (AList.update host
                \<lparr>rt_rule = rl, rt_backends = [], rt_lb = None, rt_disabled = True\<rparr> nxt,
              targets, i)
         else (case buildBackends up lax rl i of (bs, lb, j) \<Rightarrow>
           rebuild_loop up lax rls
             (AList.update host
                \<lparr>rt_rule = rl, rt_backends = bs, rt_lb = lb, rt_disabled = False\<rparr> nxt,
              targets @ map (\<lambda>b. u_String (be_target b)) bs, j)))"

definition Rebuild :: "url_parser \<Rightarrow> Rule list \<Rightarrow> Engine \<Rightarrow> Engine" where
  "Rebuild up rls e =
     (case rebuild_loop up (e_insecureDefault e) rls ([], [], e_next e) of (nxt, targets, i) \<Rightarrow>
        e\<lparr>e_routes := nxt, e_targets := targets, e_next := i,
          e_health := map_option (SetTargets targets) (e_health e)\<rparr>)"

definition NewEngine :: Engine where
  "NewEngine =
     \<lparr>e_routes = [], e_targets = [], e_health = None, e_insecureDefault = False, e_next = 0\<rparr>"

definition SetTLSLax :: "bool \<Rightarrow> Engine \<Rightarrow> Engine" where
  "SetTLSLax lax e = e\<lparr>e_insecureDefault := lax\<rparr>"

definition SetHealthChecker :: "Checker \<Rightarrow> Engine \<Rightarrow> Engine" where
  "SetHealthChecker hc e = e\<lparr>e_health := Some hc\<rparr>"

section \<open>Lookup\<close>

fun best_wildcard ::
  "string \<Rightarrow> (string \<times> route) list \<Rightarrow> (string \<times> route) option \<times> nat \<Rightarrow>
   (string \<times> route) option \<times> nat" where
  "best_wildcard key [] acc = acc"
| "best_wildcard key ((k, rt) # rs) (best, bestLen) =
     (if \<not> HasPrefix k ''*.'' then best_wildcard key rs (best, bestLen)
      else if HasSuffix key (drop 1 k) \<and> length k > bestLen
        then best_wildcard key rs (Some (k, rt), length k)
      else best_wildcard key rs (best, bestLen))"

text \<open>The route found, with its key in the table.\<close>

definition lookup_in :: "(string \<times> route) list \<Rightarrow> string \<Rightarrow> (string \<times> route) option" where
  "lookup_in rs host =
     (let key = NormalizeHost host
      in case map_of rs key of
           Some rt \<Rightarrow> Some (key, rt)
         | None \<Rightarrow> fst (best_wildcard key rs (None, 0)))"

definition lookup :: "Engine \<Rightarrow> string \<Rightarrow> (string \<times> route) option" where
  "lookup e host = lookup_in (e_routes e) host"

section \<open>The request handler\<close>

text \<open>
  What the handler does with a request. \<open>Proxied b\<close> hands it to the reverse proxy of backend
  \<open>b\<close>; \<open>NoAnswer\<close> is the path that writes nothing, which \<open>net/http\<close> turns into an empty
  200 response; \<open>Panicked\<close> is a run-time panic.
\<close>

datatype answer =
    NotFound404
  | Blocked503
  | NoBackend503
  | Unhealthy503
  | Unauthorized
  | Proxied nat
  | NoAnswer
  | Panicked

definition is_healthy :: "Engine \<Rightarrow> backend \<Rightarrow> bool" where
  "is_healthy e b =
     (case e_health e of None \<Rightarrow> True | Some hc \<Rightarrow> IsHealthy hc (u_String (be_target b)))"

definition inc_conns :: "nat \<Rightarrow> backend list \<Rightarrow> backend list" where
  "inc_conns i bs = bs[i := (bs ! i)\<lparr>be_activeConns := be_activeConns (bs ! i) + 1\<rparr>]"

definition set_route :: "string \<Rightarrow> route \<Rightarrow> Engine \<Rightarrow> Engine" where
  "set_route k rt e = e\<lparr>e_routes := AList.update k rt (e_routes e)\<rparr>"

definition handle :: "bool \<Rightarrow> string \<Rightarrow> Engine \<Rightarrow> answer \<times> Engine" where
  "handle authCheck host e =
     (case lookup e host of
        None \<Rightarrow> (NotFound404, e)
      | Some (k, rt) \<Rightarrow>
          if rt_disabled rt then (Blocked503, e)
          else if rt_lb rt \<noteq> None \<and> length (rt_backends rt) > 1 then
            (case next_backend (rt_backends rt) (the (rt_lb rt)) of (c, lb') \<Rightarrow>
               (let e' = set_route k (rt\<lparr>rt_lb := Some lb'\<rparr>) e
                in case c of
                     NilBackend \<Rightarrow> (NoBackend503, e')
                   | IndexPanic \<Rightarrow> (Panicked, e')
                   | Backend i \<Rightarrow>
                       (let b = rt_backends rt ! i
                        in if \<not> is_healthy e b then (Unhealthy503, e')
                           else if r_RequireAuth (rt_rule rt) \<and> \<not> authCheck
                             then (Unauthorized, e')
                           else (Proxied (be_id b),
                                 set_route k (rt\<lparr>rt_lb := Some lb',
                                   rt_backends := inc_conns i (rt_backends rt)\<rparr>) e))))
          else if rt_backends rt \<noteq> [] \<and> \<not> is_healthy e (rt_backends rt ! 0)
            then (Unhealthy503, e)
          else if r_RequireAuth (rt_rule rt) \<and> \<not> authCheck then (Unauthorized, e)
          else if rt_backends rt \<noteq> [] then
            (Proxied (be_id (rt_backends rt ! 0)),
             set_route k (rt\<lparr>rt_backends := inc_conns 0 (rt_backends rt)\<rparr>) e)
          else (NoAnswer, e))"

text \<open>
  \<open>decConns\<close>, called by \<open>ModifyResponse\<close> or by \<open>ErrorHandler\<close> on the backend that served
  the request. A backend that \<open>Rebuild\<close> has dropped is no longer in the table.
\<close>

definition dec_backend :: "nat \<Rightarrow> backend \<Rightarrow> backend" where
  "dec_backend i b = (if be_id b = i then b\<lparr>be_activeConns := be_activeConns b - 1\<rparr> else b)"

definition request_done :: "nat \<Rightarrow> Engine \<Rightarrow> Engine" where
  "request_done i e =
     e\<lparr>e_routes := map (\<lambda>(k, rt). (k, rt\<lparr>rt_backends := map (dec_backend i) (rt_backends rt)\<rparr>))
        (e_routes e)\<rparr>"

definition Count :: "Engine \<Rightarrow> nat" where
  "Count e = length (e_routes e)"

record BackendLBInfo =
  bi_Host :: string
  bi_Strategy :: string
  bi_Backends :: nat
  bi_Healthy :: nat
  bi_TotalConns :: int

fun LoadBalancingInfo_loop :: "Engine \<Rightarrow> (string \<times> route) list \<Rightarrow> BackendLBInfo list" where
  "LoadBalancingInfo_loop e [] = []"
| "LoadBalancingInfo_loop e ((host, rt) # rs) =
     (if rt_lb rt = None \<or> length (rt_backends rt) \<le> 1 then LoadBalancingInfo_loop e rs
      else \<lparr>bi_Host = host,
            bi_Strategy = lb_strategy (the (rt_lb rt)),
            bi_Backends = length (rt_backends rt),
            bi_Healthy = length (filter (is_healthy e) (rt_backends rt)),
            bi_TotalConns = sum_list (map be_activeConns (rt_backends rt))\<rparr>
           # LoadBalancingInfo_loop e rs)"

definition LoadBalancingInfo :: "Engine \<Rightarrow> BackendLBInfo list" where
  "LoadBalancingInfo e = LoadBalancingInfo_loop e (e_routes e)"

lemmas engine_defs [step_defs] = Rebuild_def handle_def request_done_def

section \<open>Lookup: the longest wildcard wins\<close>

definition wild_match :: "string \<Rightarrow> string \<Rightarrow> bool" where
  "wild_match key k \<longleftrightarrow> HasPrefix k ''*.'' \<and> HasSuffix key (drop 1 k)"

lemma wild_match_length: "wild_match key k \<Longrightarrow> 1 < length k"
  by (auto simp: wild_match_def HasPrefix_iff)

lemma wild_match_unique:
  assumes "wild_match key k" "wild_match key k'" "length k = length k'"
  shows "k = k'"
proof -
  obtain s s' where s: "k = CHR ''*'' # s" "k' = CHR ''*'' # s'"
    using assms by (auto simp: wild_match_def HasPrefix_iff)
  with assms show ?thesis by (auto simp: wild_match_def HasSuffix_iff)
qed

definition best_match :: "string \<Rightarrow> (string \<times> route) list \<Rightarrow> string \<times> route \<Rightarrow> bool" where
  "best_match key rs p \<longleftrightarrow> p \<in> set rs \<and> wild_match key (fst p) \<and>
     (\<forall>q \<in> set rs. wild_match key (fst q) \<longrightarrow> length (fst q) \<le> length (fst p))"

definition scan_ok ::
  "string \<Rightarrow> (string \<times> route) list \<Rightarrow> (string \<times> route) option \<times> nat \<Rightarrow> bool" where
  "scan_ok key seen acc \<longleftrightarrow>
     (case fst acc of
        None \<Rightarrow> snd acc = 0 \<and> (\<forall>q \<in> set seen. \<not> wild_match key (fst q))
      | Some p \<Rightarrow> snd acc = length (fst p) \<and> best_match key seen p)"

lemma best_wildcard_Cons:
  "best_wildcard key (p # rs) acc =
     best_wildcard key rs
       (if wild_match key (fst p) \<and> snd acc < length (fst p) then (Some p, length (fst p)) else acc)"
  by (cases p; cases acc) (simp add: wild_match_def)

lemma scan_ok_step:
  assumes "scan_ok key seen acc"
  shows "scan_ok key (seen @ [p])
     (if wild_match key (fst p) \<and> snd acc < length (fst p) then (Some p, length (fst p)) else acc)"
proof (cases "fst acc")
  case None
  then show ?thesis
    using assms wild_match_length [of key "fst p"] by (auto simp: scan_ok_def best_match_def)
next
  case (Some q)
  have "\<forall>r \<in> set seen. wild_match key (fst r) \<longrightarrow> length (fst r) \<le> length (fst p)"
    if "length (fst q) < length (fst p)"
    using assms Some that by (force simp: scan_ok_def best_match_def)
  then show ?thesis
    using assms Some by (simp add: scan_ok_def best_match_def not_less)
qed

lemma best_wildcard_spec:
  "scan_ok key seen acc \<Longrightarrow> scan_ok key (seen @ rs) (best_wildcard key rs acc)"
proof (induction rs arbitrary: seen acc)
  case (Cons p rs)
  from Cons.IH [OF scan_ok_step [OF Cons.prems, of p]] show ?case
    by (simp only: best_wildcard_Cons append_assoc append_Cons append_Nil)
qed simp

lemma best_match_unique:
  assumes "distinct (map fst rs)" "best_match key rs p" "best_match key rs q"
  shows "p = q"
proof -
  have "fst p = fst q"
    using assms(2,3) by (intro wild_match_unique) (auto simp: best_match_def intro: order_antisym)
  with assms show ?thesis
    by (metis best_match_def eq_key_imp_eq_value prod.collapse)
qed

lemma lookup_in_cases:
  assumes "distinct (map fst rs)"
  shows "lookup_in rs host = Some (k, rt) \<longleftrightarrow>
     (k = NormalizeHost host \<and> map_of rs k = Some rt) \<or>
     (map_of rs (NormalizeHost host) = None \<and> best_match (NormalizeHost host) rs (k, rt))"
proof (cases "map_of rs (NormalizeHost host)")
  case None
  let ?key = "NormalizeHost host"
  have ok: "scan_ok ?key rs (best_wildcard ?key rs (None, 0))"
    using best_wildcard_spec [of ?key "[]" "(None, 0)" rs] by (simp add: scan_ok_def)
  show ?thesis
  proof (cases "fst (best_wildcard ?key rs (None, 0))")
    case n: None
    with ok None show ?thesis by (auto simp: scan_ok_def lookup_in_def Let_def best_match_def)
  next
    case (Some q)
    with ok have "best_match ?key rs q" by (simp add: scan_ok_def)
    then show ?thesis
      using None Some best_match_unique [OF assms, of ?key q "(k, rt)"]
      by (auto simp: lookup_in_def Let_def)
  qed
qed (auto simp: lookup_in_def Let_def)

section \<open>The table of a rule list\<close>

text \<open>
  What \<open>Rebuild\<close> is to install, as a function of the rules: for every host the last rule that
  names it, with one backend for each of its valid targets (none for a disabled rule).
\<close>

type_synonym backend_view = "gourl \<times> int \<times> bool"

definition be_view :: "backend \<Rightarrow> backend_view" where
  "be_view b = (be_target b, be_weight b, be_insecureTLS b)"

definition rt_view :: "route \<Rightarrow> Rule \<times> bool \<times> backend_view list \<times> string option" where
  "rt_view rt = (rt_rule rt, rt_disabled rt, map be_view (rt_backends rt),
     map_option lb_strategy (rt_lb rt))"

definition wanted_backends :: "url_parser \<Rightarrow> bool \<Rightarrow> Rule \<Rightarrow> backend_view list" where
  "wanted_backends up lax rl =
     (let tls = r_InsecureTLS rl \<or> lax
      in if r_Targets rl \<noteq> []
         then List.map_filter (\<lambda>t. map_option
                (\<lambda>u. (u, if bt_Weight t \<le> 0 then 1 else bt_Weight t, tls))
                (parseTarget up (bt_URL t))) (r_Targets rl)
         else (case parseTarget up (r_Target rl) of None \<Rightarrow> [] | Some u \<Rightarrow> [(u, 1, tls)]))"

definition wanted_strategy :: "Rule \<Rightarrow> string" where
  "wanted_strategy rl =
     (if r_Targets rl \<noteq> [] \<and> r_LoadBalancing rl \<noteq> [] then r_LoadBalancing rl
      else ''round-robin'')"

definition wanted ::
  "url_parser \<Rightarrow> bool \<Rightarrow> Rule \<Rightarrow> Rule \<times> bool \<times> backend_view list \<times> string option" where
  "wanted up lax rl =
     (let bs = (if r_Enabled rl then wanted_backends up lax rl else [])
      in (rl, \<not> r_Enabled rl, bs, if bs = [] then None else Some (wanted_strategy rl)))"

definition rule_for :: "Rule list \<Rightarrow> string \<Rightarrow> Rule option" where
  "rule_for rls h =
     (if h = [] then None else find (\<lambda>rl. NormalizeHost (r_Host rl) = h) (rev rls))"

lemma rule_for_Nil [simp]: "rule_for [] h = None"
  by (simp add: rule_for_def)

lemma rule_for_Cons:
  "rule_for (rl # rls) h =
     (case rule_for rls h of
        Some r \<Rightarrow> Some r
      | None \<Rightarrow> if h \<noteq> [] \<and> NormalizeHost (r_Host rl) = h then Some rl else None)"
  by (simp add: rule_for_def find_append split: option.split)

lemma rule_for_Some:
  "rule_for rls h = Some rl \<Longrightarrow> rl \<in> set rls \<and> h \<noteq> [] \<and> NormalizeHost (r_Host rl) = h"
  by (induction rls) (auto simp: rule_for_Cons split: option.splits if_splits)

lemma multi_loop_view:
  "multi_loop up lax rl ts i = (bs, j) \<Longrightarrow>
   map be_view bs = List.map_filter (\<lambda>t. map_option
     (\<lambda>u. (u, if bt_Weight t \<le> 0 then 1 else bt_Weight t, r_InsecureTLS rl \<or> lax))
     (parseTarget up (bt_URL t))) ts \<and>
   map be_id bs = [i..<j] \<and> i \<le> j \<and> (\<forall>b \<in> set bs. be_activeConns b = 0)"
proof (induction ts arbitrary: i bs j)
  case Nil
  then show ?case by (simp add: map_filter_simps)
next
  case (Cons t ts)
  show ?case
  proof (cases "parseTarget up (bt_URL t)")
    case None
    then show ?thesis using Cons by (simp add: map_filter_simps)
  next
    case (Some u)
    obtain bs' j' where m: "multi_loop up lax rl ts (Suc i) = (bs', j')"
      by (cases "multi_loop up lax rl ts (Suc i)")
    then show ?thesis
      using Cons.IH [OF m] Cons.prems Some
      by (auto simp: map_filter_simps Let_def newBackend_def be_view_def upt_conv_Cons)
  qed
qed

lemma buildBackends_view:
  assumes "buildBackends up lax rl i = (bs, lb, j)"
  shows "map be_view bs = wanted_backends up lax rl"
    and "map_option lb_strategy lb = (if bs = [] then None else Some (wanted_strategy rl))"
    and "map be_id bs = [i..<j]" and "i \<le> j" and "\<forall>b \<in> set bs. be_activeConns b = 0"
proof -
  have *: "map be_view bs = wanted_backends up lax rl \<and>
      map_option lb_strategy lb = (if bs = [] then None else Some (wanted_strategy rl)) \<and>
      map be_id bs = [i..<j] \<and> i \<le> j \<and> (\<forall>b \<in> set bs. be_activeConns b = 0)"
  proof (cases "r_Targets rl = []")
    case True
    then show ?thesis
      using assms
      by (auto simp: buildBackends_def buildSingleBackend_def newBackend_def newLoadBalancer_def
          wanted_backends_def wanted_strategy_def be_view_def split: option.splits)
  next
    case False
    obtain bs' j' where m: "multi_loop up lax rl (r_Targets rl) i = (bs', j')"
      by (cases "multi_loop up lax rl (r_Targets rl) i")
    then show ?thesis
      using multi_loop_view [OF m] assms False
      by (auto simp: buildBackends_def buildMultiBackends_def newLoadBalancer_def
          wanted_backends_def wanted_strategy_def Let_def split: if_splits)
  qed
  then show "map be_view bs = wanted_backends up lax rl"
    and "map_option lb_strategy lb = (if bs = [] then None else Some (wanted_strategy rl))"
    and "map be_id bs = [i..<j]" and "i \<le> j" and "\<forall>b \<in> set bs. be_activeConns b = 0"
    by auto
qed

definition ids :: "route \<Rightarrow> nat set" where
  "ids rt = be_id ` set (rt_backends rt)"

definition table_ok :: "(string \<times> route) list \<Rightarrow> nat \<Rightarrow> nat \<Rightarrow> bool" where
  "table_ok rs lo hi \<longleftrightarrow> distinct (map fst rs) \<and>
     (\<forall>k rt. map_of rs k = Some rt \<longrightarrow>
        ids rt \<subseteq> {lo..<hi} \<and> distinct (map be_id (rt_backends rt)) \<and>
        (\<forall>k' rt'. map_of rs k' = Some rt' \<longrightarrow> k' \<noteq> k \<longrightarrow> ids rt \<inter> ids rt' = {}))"

lemma table_okI:
  assumes "distinct (map fst rs)"
    and "\<And>k rt. map_of rs k = Some rt \<Longrightarrow> ids rt \<subseteq> {lo..<hi}"
    and "\<And>k rt. map_of rs k = Some rt \<Longrightarrow> distinct (map be_id (rt_backends rt))"
    and "\<And>k rt k' rt'. map_of rs k = Some rt \<Longrightarrow> map_of rs k' = Some rt' \<Longrightarrow> k' \<noteq> k \<Longrightarrow>
      ids rt \<inter> ids rt' = {}"
  shows "table_ok rs lo hi"
  using assms unfolding table_ok_def by blast

lemma table_okD:
  assumes "table_ok rs lo hi"
  shows "distinct (map fst rs)"
    and "map_of rs k = Some rt \<Longrightarrow> ids rt \<subseteq> {lo..<hi}"
    and "map_of rs k = Some rt \<Longrightarrow> distinct (map be_id (rt_backends rt))"
    and "map_of rs k = Some rt \<Longrightarrow> map_of rs k' = Some rt' \<Longrightarrow> k' \<noteq> k \<Longrightarrow> ids rt \<inter> ids rt' = {}"
  using assms unfolding table_ok_def by blast+

lemma table_ok_update:
  assumes "table_ok rs lo hi" "map be_id (rt_backends rt) = [hi..<j]" "hi \<le> j" "lo \<le> hi"
  shows "table_ok (AList.update h rt rs) lo j"
proof (rule table_okI)
  have new: "ids rt = {hi..<j}"
    using arg_cong [OF assms(2), of set] by (simp add: ids_def)
  note D = table_okD [OF assms(1)]
  show "distinct (map fst (AList.update h rt rs))" using D(1) by (rule distinct_update)
  fix k r
  assume k: "map_of (AList.update h rt rs) k = Some r"
  show "ids r \<subseteq> {lo..<j}"
    using k new D(2) [of k r] assms(3,4) by (auto simp: update_conv' split: if_splits)
  show "distinct (map be_id (rt_backends r))"
    using k D(3) [of k r] assms(2) by (auto simp: update_conv' split: if_splits)
  fix k' r'
  assume k': "map_of (AList.update h rt rs) k' = Some r'" "k' \<noteq> k"
  have disj: "ids rt \<inter> ids q = {}" if "map_of rs l = Some q" for l q
    using D(2) [OF that] new by auto
  show "ids r \<inter> ids r' = {}"
    using k k' D(4) [of k r k' r'] disj [of k r] disj [of k' r']
    by (auto simp: update_conv' split: if_splits)
qed

definition rule_targets :: "url_parser \<Rightarrow> bool \<Rightarrow> Rule \<Rightarrow> string list" where
  "rule_targets up lax rl =
     (if NormalizeHost (r_Host rl) \<noteq> [] \<and> r_Enabled rl
      then map (\<lambda>v. u_String (fst v)) (wanted_backends up lax rl) else [])"

text \<open>One turn of the loop.\<close>

lemma rebuild_loop_step:
  assumes "table_ok nxt lo i" "lo \<le> i"
    "\<forall>k rt. map_of nxt k = Some rt \<longrightarrow> (\<forall>b \<in> set (rt_backends rt). be_activeConns b = 0)"
  obtains nxt' i' where
    "\<And>rls. rebuild_loop up lax (rl # rls) (nxt, ts, i) =
       rebuild_loop up lax rls (nxt', ts @ rule_targets up lax rl, i')"
    "table_ok nxt' lo i'" "i \<le> i'"
    "\<forall>k rt. map_of nxt' k = Some rt \<longrightarrow> (\<forall>b \<in> set (rt_backends rt). be_activeConns b = 0)"
    "\<And>h. map_option rt_view (map_of nxt' h) =
       (if h \<noteq> [] \<and> NormalizeHost (r_Host rl) = h then Some (wanted up lax rl)
        else map_option rt_view (map_of nxt h))"
proof (cases "NormalizeHost (r_Host rl) = []")
  case True
  show ?thesis
    by (rule that [of nxt i]) (use True assms in \<open>auto simp: rule_targets_def Let_def\<close>)
next
  case host: False
  show ?thesis
  proof (cases "r_Enabled rl")
    case False
    let ?rt = "\<lparr>rt_rule = rl, rt_backends = [], rt_lb = None, rt_disabled = True\<rparr>"
    show ?thesis
      by (rule that [of "AList.update (NormalizeHost (r_Host rl)) ?rt nxt" i])
        (use host False assms table_ok_update [OF assms(1), of ?rt i] in
          \<open>auto simp: rule_targets_def Let_def update_conv' rt_view_def wanted_def\<close>)
  next
    case True
    obtain bs lb j where b: "buildBackends up lax rl i = (bs, lb, j)"
      by (cases "buildBackends up lax rl i")
    let ?rt = "\<lparr>rt_rule = rl, rt_backends = bs, rt_lb = lb, rt_disabled = False\<rparr>"
    note B = buildBackends_view [OF b]
    have tg: "map (\<lambda>b. u_String (be_target b)) bs = rule_targets up lax rl"
      using host True by (simp add: rule_targets_def be_view_def o_def flip: B(1))
    have v: "rt_view ?rt = wanted up lax rl"
      using True B(2) by (auto simp: rt_view_def wanted_def B(1) Let_def simp flip: B(1))
    show ?thesis
      by (rule that [of "AList.update (NormalizeHost (r_Host rl)) ?rt nxt" j])
        (use host True b tg v B assms table_ok_update [OF assms(1), of ?rt j] in
          \<open>auto simp: Let_def update_conv'\<close>)
  qed
qed

lemma rebuild_loop_spec:
  assumes "rebuild_loop up lax rls (nxt, ts, i) = (nxt', ts', j)"
    "table_ok nxt lo i" "lo \<le> i"
    "\<forall>k rt. map_of nxt k = Some rt \<longrightarrow> (\<forall>b \<in> set (rt_backends rt). be_activeConns b = 0)"
  shows "table_ok nxt' lo j \<and> i \<le> j \<and>
    (\<forall>k rt. map_of nxt' k = Some rt \<longrightarrow> (\<forall>b \<in> set (rt_backends rt). be_activeConns b = 0)) \<and>
    ts' = ts @ concat (map (rule_targets up lax) rls) \<and>
    (\<forall>h. map_option rt_view (map_of nxt' h) =
       (case rule_for rls h of Some rl \<Rightarrow> Some (wanted up lax rl)
        | None \<Rightarrow> map_option rt_view (map_of nxt h)))"
  using assms
proof (induction rls arbitrary: nxt ts i)
  case Nil
  then show ?case by simp
next
  case (Cons rl rls)
  obtain n1 i1 where s: "\<And>rls. rebuild_loop up lax (rl # rls) (nxt, ts, i) =
       rebuild_loop up lax rls (n1, ts @ rule_targets up lax rl, i1)"
    "table_ok n1 lo i1" "i \<le> i1"
    "\<forall>k rt. map_of n1 k = Some rt \<longrightarrow> (\<forall>b \<in> set (rt_backends rt). be_activeConns b = 0)"
    "\<And>h. map_option rt_view (map_of n1 h) =
       (if h \<noteq> [] \<and> NormalizeHost (r_Host rl) = h then Some (wanted up lax rl)
        else map_option rt_view (map_of nxt h))"
    using rebuild_loop_step [OF Cons.prems(2-4), of up lax rl ts] by metis
  have "lo \<le> i1" using s(3) Cons.prems(3) by simp
  from Cons.IH [OF Cons.prems(1) [unfolded s(1)] s(2) this s(4)] s(3,5) show ?case
    by (auto simp: rule_for_Cons split: option.split)
qed

section \<open>Requests\<close>

lemma lookup_routes:
  "distinct (map fst (e_routes e)) \<Longrightarrow> lookup e host = Some (k, rt) \<Longrightarrow>
   map_of (e_routes e) k = Some rt"
  by (auto simp: lookup_def lookup_in_cases best_match_def intro: map_of_is_SomeI)

definition same_shape :: "route \<Rightarrow> route \<Rightarrow> bool" where
  "same_shape rt rt' \<longleftrightarrow> rt_view rt' = rt_view rt \<and>
     map be_id (rt_backends rt') = map be_id (rt_backends rt)"

lemma map_inc_conns:
  "(\<And>b n. f (b\<lparr>be_activeConns := n\<rparr>) = f b) \<Longrightarrow> i < length bs \<Longrightarrow> map f (inc_conns i bs) = map f bs"
  by (simp add: inc_conns_def map_update list_update_same_conv)

lemma handle_refused:
  assumes "handle auth host e = (a, e')" "\<nexists>b. a = Proxied b"
  shows "e' = e \<or> (\<exists>k rt rt'. lookup e host = Some (k, rt) \<and> same_shape rt rt' \<and>
     rt_backends rt' = rt_backends rt \<and> e' = set_route k rt' e)"
proof (cases "e' = e")
  case False
  then obtain k rt where l: "lookup e host = Some (k, rt)" "rt_lb rt \<noteq> None"
    and e': "e' = set_route k (rt\<lparr>rt_lb :=
        Some (snd (next_backend (rt_backends rt) (the (rt_lb rt))))\<rparr>) e"
    using assms
    by (auto simp: handle_def Let_def split: option.splits prod.splits choice.splits if_splits)
  have "same_shape rt (rt\<lparr>rt_lb :=
      Some (snd (next_backend (rt_backends rt) (the (rt_lb rt))))\<rparr>)"
    using l(2) by (auto simp: same_shape_def rt_view_def)
  with l(1) e' show ?thesis by (intro disjI2 exI conjI) auto
qed simp

lemma handle_proxied:
  assumes "handle auth host e = (Proxied b, e')"
  obtains k rt lb i where "lookup e host = Some (k, rt)" "\<not> rt_disabled rt"
    "r_RequireAuth (rt_rule rt) \<longrightarrow> auth" "i < length (rt_backends rt)"
    "be_id (rt_backends rt ! i) = b" "is_healthy e (rt_backends rt ! i)"
    "map_option lb_strategy lb = map_option lb_strategy (rt_lb rt)"
    "e' = set_route k (rt\<lparr>rt_lb := lb, rt_backends := inc_conns i (rt_backends rt)\<rparr>) e"
proof -
  obtain k rt where l: "lookup e host = Some (k, rt)" and d: "\<not> rt_disabled rt"
    using assms by (auto simp: handle_def split: option.splits if_splits)
  show ?thesis
  proof (cases "rt_lb rt \<noteq> None \<and> length (rt_backends rt) > 1")
    case True
    then obtain lb where lb: "rt_lb rt = Some lb" by auto
    obtain c lb' where n: "next_backend (rt_backends rt) lb = (c, lb')"
      by (cases "next_backend (rt_backends rt) lb")
    with assms l d True lb obtain i where i: "c = Backend i"
      by (auto simp: handle_def Let_def split: choice.splits)
    have "i < length (rt_backends rt)" using next_backend_index [of _ lb i] n i by simp
    moreover have "lb_strategy lb' = lb_strategy lb"
      using next_backend_strategy [of "rt_backends rt" lb] n by simp
    ultimately show ?thesis
      using assms l d True lb n i
      by (intro that [of k rt i "Some lb'"])
        (auto simp: handle_def Let_def split: if_splits)
  next
    case False
    then show ?thesis
      using assms l d
      by (intro that [of k rt 0 "rt_lb rt"]) (auto simp: handle_def split: if_splits)
  qed
qed

section \<open>The engine at work\<close>

text \<open>
  The engine with the requests it has handed to backends (each by the identity of its backend)
  and the rules last installed. One step is a call of \<open>Rebuild\<close>, a request, the end of a
  request that is in flight, or any event of the health checker between them.
\<close>

record world =
  w_engine :: Engine
  w_inflight :: "nat multiset"
  w_rules :: "Rule list"
  w_lax :: bool

definition start :: world where
  "start = \<lparr>w_engine = NewEngine, w_inflight = {#}, w_rules = [], w_lax = False\<rparr>"

inductive world_step :: "url_parser \<Rightarrow> world \<Rightarrow> world \<Rightarrow> bool" for up where
  rebuild: "world_step up w (w\<lparr>w_engine := Rebuild up rls (w_engine w), w_rules := rls,
     w_lax := e_insecureDefault (w_engine w)\<rparr>)"
| lax: "world_step up w (w\<lparr>w_engine := SetTLSLax b (w_engine w)\<rparr>)"
| checker: "hc_inv c \<Longrightarrow> world_step up w (w\<lparr>w_engine := SetHealthChecker c (w_engine w)\<rparr>)"
| health: "world_step up w (w\<lparr>w_engine := (w_engine w)
     \<lparr>e_health := map_option (hc_step ev) (e_health (w_engine w))\<rparr>\<rparr>)"
| refused: "handle auth host (w_engine w) = (a, e') \<Longrightarrow> \<nexists>b. a = Proxied b \<Longrightarrow>
     world_step up w (w\<lparr>w_engine := e'\<rparr>)"
| proxied: "handle auth host (w_engine w) = (Proxied b, e') \<Longrightarrow>
     world_step up w (w\<lparr>w_engine := e', w_inflight := add_mset b (w_inflight w)\<rparr>)"
| finished: "b \<in># w_inflight w \<Longrightarrow>
     world_step up w (w\<lparr>w_engine := request_done b (w_engine w),
       w_inflight := w_inflight w - {#b#}\<rparr>)"

inductive_cases world_stepE: "world_step up w w'"

definition reachable :: "url_parser \<Rightarrow> world \<Rightarrow> bool" where
  "reachable up w \<longleftrightarrow> (world_step up)\<^sup>*\<^sup>* start w"

definition world_inv :: "url_parser \<Rightarrow> world \<Rightarrow> bool" where
  "world_inv up w \<longleftrightarrow>
     table_ok (e_routes (w_engine w)) 0 (e_next (w_engine w)) \<and>
     (\<forall>b \<in># w_inflight w. b < e_next (w_engine w)) \<and>
     (\<forall>k rt b. map_of (e_routes (w_engine w)) k = Some rt \<longrightarrow> b \<in> set (rt_backends rt) \<longrightarrow>
        be_activeConns b = int (count (w_inflight w) (be_id b))) \<and>
     (\<forall>h. map_option rt_view (map_of (e_routes (w_engine w)) h) =
        map_option (wanted up (w_lax w)) (rule_for (w_rules w) h)) \<and>
     (\<forall>c. e_health (w_engine w) = Some c \<longrightarrow> hc_inv c)"

lemma world_invD:
  assumes "world_inv up w"
  shows "table_ok (e_routes (w_engine w)) 0 (e_next (w_engine w))"
    and "b \<in># w_inflight w \<Longrightarrow> b < e_next (w_engine w)"
    and "map_of (e_routes (w_engine w)) k = Some rt \<Longrightarrow> c \<in> set (rt_backends rt) \<Longrightarrow>
      be_activeConns c = int (count (w_inflight w) (be_id c))"
    and "map_option rt_view (map_of (e_routes (w_engine w)) h) =
      map_option (wanted up (w_lax w)) (rule_for (w_rules w) h)"
    and "e_health (w_engine w) = Some hc \<Longrightarrow> hc_inv hc"
  using assms unfolding world_inv_def by blast+

lemma world_inv_start: "world_inv up start"
  by (simp add: world_inv_def start_def NewEngine_def table_ok_def)

lemma table_ok_mono: "table_ok rs lo hi \<Longrightarrow> lo' \<le> lo \<Longrightarrow> table_ok rs lo' hi"
  unfolding table_ok_def by (meson atLeastLessThan_iff order_trans subset_iff)

lemma Rebuild_spec:
  assumes "e' = Rebuild up rls e"
  shows "table_ok (e_routes e') (e_next e) (e_next e')" "e_next e \<le> e_next e'"
    "map_of (e_routes e') k = Some rt \<Longrightarrow> b \<in> set (rt_backends rt) \<Longrightarrow> be_activeConns b = 0"
    "map_option rt_view (map_of (e_routes e') h) =
       map_option (wanted up (e_insecureDefault e)) (rule_for rls h)"
    "e_targets e' = concat (map (rule_targets up (e_insecureDefault e)) rls)"
    "e_health e' = map_option (SetTargets (e_targets e')) (e_health e)"
    "e_insecureDefault e' = e_insecureDefault e"
proof -
  obtain nxt ts j where l: "rebuild_loop up (e_insecureDefault e) rls ([], [], e_next e) =
      (nxt, ts, j)" by (cases "rebuild_loop up (e_insecureDefault e) rls ([], [], e_next e)")
  have e': "e' = e\<lparr>e_routes := nxt, e_targets := ts, e_next := j,
      e_health := map_option (SetTargets ts) (e_health e)\<rparr>"
    using assms l by (simp add: Rebuild_def)
  have *: "table_ok [] (e_next e) (e_next e)" by (simp add: table_ok_def)
  note S = rebuild_loop_spec [OF l * order_refl, simplified]
  show "table_ok (e_routes e') (e_next e) (e_next e')" "e_next e \<le> e_next e'"
    "map_of (e_routes e') k = Some rt \<Longrightarrow> b \<in> set (rt_backends rt) \<Longrightarrow> be_activeConns b = 0"
    "map_option rt_view (map_of (e_routes e') h) =
       map_option (wanted up (e_insecureDefault e)) (rule_for rls h)"
    "e_targets e' = concat (map (rule_targets up (e_insecureDefault e)) rls)"
    "e_health e' = map_option (SetTargets (e_targets e')) (e_health e)"
    "e_insecureDefault e' = e_insecureDefault e"
    using S by (auto simp: e' split: option.splits)
qed

lemma ids_cong: "map be_id (rt_backends rt') = map be_id (rt_backends rt) \<Longrightarrow> ids rt' = ids rt"
  by (metis ids_def list.set_map)

lemma table_ok_transfer:
  assumes "table_ok rs lo hi" "distinct (map fst rs')"
    "\<And>k r'. map_of rs' k = Some r' \<Longrightarrow>
       \<exists>r. map_of rs k = Some r \<and> map be_id (rt_backends r') = map be_id (rt_backends r)"
  shows "table_ok rs' lo hi"
proof (rule table_okI)
  note D = table_okD [OF assms(1)]
  show "distinct (map fst rs')" by (rule assms(2))
  fix k r'
  assume "map_of rs' k = Some r'"
  then obtain r where r: "map_of rs k = Some r"
    "map be_id (rt_backends r') = map be_id (rt_backends r)" using assms(3) by blast
  show "ids r' \<subseteq> {lo..<hi}" using D(2) [OF r(1)] ids_cong [OF r(2)] by simp
  show "distinct (map be_id (rt_backends r'))" using D(3) [OF r(1)] r(2) by simp
  fix l s'
  assume "map_of rs' l = Some s'" "l \<noteq> k"
  then obtain s where s: "map_of rs l = Some s"
    "map be_id (rt_backends s') = map be_id (rt_backends s)" using assms(3) by blast
  show "ids r' \<inter> ids s' = {}"
    using D(4) [OF r(1) s(1) \<open>l \<noteq> k\<close>] ids_cong [OF r(2)] ids_cong [OF s(2)] by simp
qed

lemma table_ok_same_ids:
  assumes "table_ok rs lo hi" "map_of rs k = Some rt"
    "map be_id (rt_backends rt') = map be_id (rt_backends rt)"
  shows "table_ok (AList.update k rt' rs) lo hi"
  using assms(1)
  by (rule table_ok_transfer)
    (use assms table_okD(1) [OF assms(1)] in
      \<open>auto simp: update_conv' distinct_update split: if_splits\<close>)

lemma inc_conns_mem:
  assumes "b \<in> set (inc_conns i bs)" "i < length bs" "distinct (map be_id bs)"
  shows "\<exists>c \<in> set bs. be_id b = be_id c \<and>
     be_activeConns b = be_activeConns c + (if be_id c = be_id (bs ! i) then 1 else 0)"
proof -
  obtain j where j: "j < length bs" "b = inc_conns i bs ! j"
    using assms(1) by (auto simp: in_set_conv_nth inc_conns_def)
  have "be_id (bs ! j) = be_id (bs ! i) \<longleftrightarrow> j = i"
    using assms(2,3) j(1) by (metis length_map nth_eq_iff_index_eq nth_map)
  then show ?thesis
    using j assms(2) by (intro bexI [of _ "bs ! j"]) (cases "j = i"; simp add: inc_conns_def)+
qed

lemma world_inv_proxied:
  assumes "world_inv up w" "handle auth host (w_engine w) = (Proxied b, e')"
  shows "world_inv up (w\<lparr>w_engine := e', w_inflight := add_mset b (w_inflight w)\<rparr>)"
proof -
  let ?e = "w_engine w"
  note I = world_invD [OF assms(1)]
  obtain k rt lb i where l: "lookup ?e host = Some (k, rt)"
    and i: "i < length (rt_backends rt)" "be_id (rt_backends rt ! i) = b"
    and lb: "map_option lb_strategy lb = map_option lb_strategy (rt_lb rt)"
    and e': "e' = set_route k (rt\<lparr>rt_lb := lb, rt_backends := inc_conns i (rt_backends rt)\<rparr>) ?e"
    using handle_proxied [OF assms(2)] by metis
  let ?rt = "rt\<lparr>rt_lb := lb, rt_backends := inc_conns i (rt_backends rt)\<rparr>"
  have m: "map_of (e_routes ?e) k = Some rt" by (rule lookup_routes [OF table_okD(1) [OF I(1)] l])
  have ids: "map be_id (rt_backends ?rt) = map be_id (rt_backends rt)"
    using i(1) by (simp add: map_inc_conns)
  have view: "rt_view ?rt = rt_view rt"
    using i(1) lb by (simp add: rt_view_def map_inc_conns be_view_def)
  have b: "b \<in> ids rt" using i by (auto simp: ids_def)
  have conns: "be_activeConns c = int (count (add_mset b (w_inflight w)) (be_id c))"
    if q: "((map_of (e_routes ?e))(k \<mapsto> ?rt)) l = Some r" "c \<in> set (rt_backends r)"
    for l r c
  proof (cases "l = k")
    case True
    then obtain d where "d \<in> set (rt_backends rt)" "be_id c = be_id d"
      "be_activeConns c = be_activeConns d + (if be_id d = b then 1 else 0)"
      using q inc_conns_mem [OF _ i(1) table_okD(3) [OF I(1) m], of c] i(2) by auto
    then show ?thesis using I(3) [OF m] by simp
  next
    case False
    with q have r: "map_of (e_routes ?e) l = Some r" by simp
    have "be_id c \<noteq> b"
      using table_okD(4) [OF I(1) m r False] b q(2) by (auto simp: ids_def)
    then show ?thesis using I(3) [OF r q(2)] by simp
  qed
  have "map_option rt_view (((map_of (e_routes ?e))(k \<mapsto> ?rt)) h) =
      map_option (wanted up (w_lax w)) (rule_for (w_rules w) h)" for h
    using I(4) [of h] m view by (cases "h = k") auto
  moreover have "b < e_next ?e" using table_okD(2) [OF I(1) m] b by auto
  ultimately show ?thesis
    unfolding world_inv_def
    using table_ok_same_ids [OF I(1) m ids] conns I(2,5)
    by (auto simp: e' set_route_def update_conv')
qed


lemma world_inv_refused:
  assumes "world_inv up w" "handle auth host (w_engine w) = (a, e')" "\<nexists>b. a = Proxied b"
  shows "world_inv up (w\<lparr>w_engine := e'\<rparr>)"
proof (cases "e' = w_engine w")
  case True
  with assms(1) show ?thesis by simp
next
  case False
  let ?e = "w_engine w"
  note I = world_invD [OF assms(1)]
  obtain k rt rt' where l: "lookup ?e host = Some (k, rt)" and s: "same_shape rt rt'"
    "rt_backends rt' = rt_backends rt" and e': "e' = set_route k rt' ?e"
    using handle_refused [OF assms(2,3)] False by auto
  have m: "map_of (e_routes ?e) k = Some rt" by (rule lookup_routes [OF table_okD(1) [OF I(1)] l])
  have "map_option rt_view (((map_of (e_routes ?e))(k \<mapsto> rt')) h) =
      map_option (wanted up (w_lax w)) (rule_for (w_rules w) h)" for h
    using I(4) [of h] m s(1) by (cases "h = k") (auto simp: same_shape_def)
  then show ?thesis
    unfolding world_inv_def
    using table_ok_same_ids [OF I(1) m, of rt'] s(2) I(2,3,5) m
    by (auto simp: e' set_route_def update_conv')
qed

lemma world_inv_finished:
  assumes "world_inv up w" "b \<in># w_inflight w"
  shows "world_inv up (w\<lparr>w_engine := request_done b (w_engine w),
     w_inflight := w_inflight w - {#b#}\<rparr>)"
proof -
  let ?e = "w_engine w"
  let ?f = "\<lambda>rt. rt\<lparr>rt_backends := map (dec_backend b) (rt_backends rt)\<rparr>"
  note I = world_invD [OF assms(1)]
  have m: "map_of (e_routes (request_done b ?e)) k = map_option ?f (map_of (e_routes ?e) k)" for k
    by (simp add: request_done_def map_of_map)
  have i: "map be_id (rt_backends (?f rt)) = map be_id (rt_backends rt)" for rt
    by (simp add: dec_backend_def)
  have v: "rt_view (?f rt) = rt_view rt" for rt
    by (simp add: rt_view_def be_view_def dec_backend_def)
  have "distinct (map fst (e_routes (request_done b ?e)))"
    using table_okD(1) [OF I(1)] by (simp add: request_done_def comp_def case_prod_beta)
  then have "table_ok (e_routes (request_done b ?e)) 0 (e_next ?e)"
    using table_ok_transfer [OF I(1)] m i by fastforce
  moreover have "be_activeConns c = int (count (w_inflight w - {#b#}) (be_id c))"
    if q: "map_of (e_routes (request_done b ?e)) k = Some r" "c \<in> set (rt_backends r)" for k r c
  proof -
    from q m obtain rt d where r: "map_of (e_routes ?e) k = Some rt" "d \<in> set (rt_backends rt)"
      and c: "c = dec_backend b d" by auto
    have "0 < count (w_inflight w) b" using assms(2) by simp
    with I(3) [OF r] show ?thesis by (auto simp: c dec_backend_def of_nat_diff)
  qed
  moreover have "e_next (request_done b ?e) = e_next ?e" "e_health (request_done b ?e) = e_health ?e"
    by (simp_all add: request_done_def)
  ultimately show ?thesis
    unfolding world_inv_def
    using I(2,4,5) m v by (auto simp: option.map_comp comp_def dest: in_diffD)
qed

lemma world_inv_step: "world_step up w w' \<Longrightarrow> world_inv up w \<Longrightarrow> world_inv up w'"
proof (induction rule: world_step.induct)
  case (rebuild w rls)
  note I = world_invD [OF rebuild]
  note R = Rebuild_spec [OF refl, where up = up and rls = rls and e = "w_engine w"]
  have zero: "count (w_inflight w) i = 0" if "e_next (w_engine w) \<le> i" for i
    using I(2) that by (meson count_eq_zero_iff leD)
  have new: "e_next (w_engine w) \<le> be_id b"
    if "map_of (e_routes (Rebuild up rls (w_engine w))) k = Some rt" "b \<in> set (rt_backends rt)"
    for k rt b
    using table_okD(2) [OF R(1) that(1)] that(2) by (auto simp: ids_def)
  show ?case
    unfolding world_inv_def
    using table_ok_mono [OF R(1)] R(2,3,4,6) I(2,5) zero new hc_inv_SetTargets
    by (fastforce intro: less_le_trans)
next
  case (lax w b)
  then show ?case by (simp add: world_inv_def SetTLSLax_def)
next
  case (checker c w)
  then show ?case by (simp add: world_inv_def SetHealthChecker_def)
next
  case (health w ev)
  then show ?case by (auto simp: world_inv_def hc_inv_step)
qed (simp_all add: world_inv_refused world_inv_proxied world_inv_finished)

lemma reachable_inv: "reachable up w \<Longrightarrow> world_inv up w"
  unfolding reachable_def
  by (induction rule: rtranclp_induct) (auto simp: world_inv_start intro: world_inv_step)

section \<open>Routing by the rules\<close>

definition has_rule :: "Rule list \<Rightarrow> string \<Rightarrow> bool" where
  "has_rule rls k \<longleftrightarrow> rule_for rls k \<noteq> None"

text \<open>The keys that a request for \<open>key\<close> is served under: the exact one, else the longest wildcard.\<close>

definition routes_to :: "Rule list \<Rightarrow> string \<Rightarrow> string \<Rightarrow> bool" where
  "routes_to rls key k \<longleftrightarrow> has_rule rls k \<and>
     (if has_rule rls key then k = key
      else wild_match key k \<and>
        (\<forall>k'. has_rule rls k' \<and> wild_match key k' \<longrightarrow> length k' \<le> length k))"

text \<open>An engine whose table is the one the rules ask for.\<close>

definition follows_rules :: "url_parser \<Rightarrow> bool \<Rightarrow> Rule list \<Rightarrow> Engine \<Rightarrow> bool" where
  "follows_rules up lax rls e \<longleftrightarrow> distinct (map fst (e_routes e)) \<and>
     (\<forall>h. map_option rt_view (map_of (e_routes e) h) = map_option (wanted up lax) (rule_for rls h))"

lemma world_follows: "world_inv up w \<Longrightarrow> follows_rules up (w_lax w) (w_rules w) (w_engine w)"
  using world_invD(1,4) [of up w] table_okD(1) by (auto simp: follows_rules_def)

lemma in_table_iff_rule:
  "follows_rules up lax rls e \<Longrightarrow> (map_of (e_routes e) k \<noteq> None) = has_rule rls k"
  unfolding follows_rules_def has_rule_def by (metis map_option_is_None)

lemma lookup_rule:
  assumes "follows_rules up lax rls e" "lookup e host = Some (k, rt)"
  shows "routes_to rls (NormalizeHost host) k"
    and "map_of (e_routes e) k = Some rt"
    and "rule_for rls k = Some (rt_rule rt)"
    and "rt_view rt = wanted up lax (rt_rule rt)"
proof -
  let ?rs = "e_routes e" and ?key = "NormalizeHost host"
  have d: "distinct (map fst ?rs)"
    and table: "map_option rt_view (map_of ?rs k) = map_option (wanted up lax) (rule_for rls k)"
    using assms(1) by (simp_all add: follows_rules_def)
  show m: "map_of ?rs k = Some rt" by (rule lookup_routes [OF d assms(2)])
  then have "has_rule rls k" using in_table_iff_rule [OF assms(1), of k] by simp
  then obtain rl where rl: "rule_for rls k = Some rl" by (auto simp: has_rule_def)
  with m table have v: "rt_view rt = wanted up lax rl" by simp
  then have "rt_rule rt = rl" by (simp add: rt_view_def wanted_def Let_def)
  with rl v show "rule_for rls k = Some (rt_rule rt)" "rt_view rt = wanted up lax (rt_rule rt)" by simp_all
  have mem: "\<exists>r. (k', r) \<in> set ?rs" if "has_rule rls k'" for k'
    using in_table_iff_rule [OF assms(1), of k'] that by (auto dest: map_of_SomeD)
  show "routes_to rls ?key k"
    using assms(2) \<open>has_rule rls k\<close> in_table_iff_rule [OF assms(1), of ?key] mem
    unfolding lookup_def lookup_in_cases [OF d] routes_to_def best_match_def by fastforce
qed

text \<open>The route under the key \<open>k\<close> has the backend \<open>b\<close>, with the address, weight and TLS mode of \<open>v\<close>.\<close>

definition backend_at :: "Engine \<Rightarrow> string \<Rightarrow> nat \<Rightarrow> backend_view \<Rightarrow> bool" where
  "backend_at e k b v \<longleftrightarrow>
     (case map_of (e_routes e) k of
        None \<Rightarrow> False
      | Some rt \<Rightarrow> \<exists>be \<in> set (rt_backends rt). be_id be = b \<and> be_view be = v)"

text \<open>What may be handed to the backend \<open>b\<close> under the rules.\<close>

definition allowed_by ::
  "url_parser \<Rightarrow> bool \<Rightarrow> Rule list \<Rightarrow> bool \<Rightarrow> string \<Rightarrow> Engine \<Rightarrow> nat \<Rightarrow> Rule \<Rightarrow> bool" where
  "allowed_by up lax rls auth host e b rl \<longleftrightarrow>
     r_Enabled rl \<and> (\<not> r_RequireAuth rl \<or> auth) \<and>
     (\<exists>k v. routes_to rls (NormalizeHost host) k \<and> rule_for rls k = Some rl \<and> backend_at e k b v \<and>
        v \<in> set (wanted_backends up lax rl) \<and>
        (case e_health e of None \<Rightarrow> True | Some c \<Rightarrow> IsHealthy c (u_String (fst v))))"

lemma proxied_by_rule:
  assumes "follows_rules up lax rls e" "handle auth host e = (Proxied b, e')"
  shows "\<exists>rl. allowed_by up lax rls auth host e b rl"
proof -
  obtain k rt i where l: "lookup e host = Some (k, rt)" and d: "\<not> rt_disabled rt"
    and a: "r_RequireAuth (rt_rule rt) \<longrightarrow> auth" and i: "i < length (rt_backends rt)" "be_id (rt_backends rt ! i) = b"
    and h: "is_healthy e (rt_backends rt ! i)"
    using handle_proxied [OF assms(2)] by metis
  note L = lookup_rule [OF assms(1) l]
  have v: "map be_view (rt_backends rt) = wanted_backends up lax (rt_rule rt)"
    and en: "r_Enabled (rt_rule rt)"
    using L(4) d by (auto simp: rt_view_def wanted_def Let_def)
  have "be_view (rt_backends rt ! i) \<in> set (wanted_backends up lax (rt_rule rt))"
    using i by (auto simp flip: v)
  moreover have "fst (be_view (rt_backends rt ! i)) = be_target (rt_backends rt ! i)"
    by (simp add: be_view_def)
  moreover have "backend_at e k b (be_view (rt_backends rt ! i))"
    using L(2) i by (auto simp: backend_at_def)
  ultimately show ?thesis
    using L(1,3) en a h unfolding is_healthy_def allowed_by_def
    by (intro exI [of _ "rt_rule rt"] conjI exI [of _ k] exI [of _ "be_view (rt_backends rt ! i)"])
      (auto split: option.splits)
qed

lemma lookup_None_rule:
  assumes "follows_rules up lax rls e" "lookup e host = None"
  shows "\<not> routes_to rls (NormalizeHost host) k"
proof -
  let ?rs = "e_routes e" and ?key = "NormalizeHost host"
  have m: "map_of ?rs ?key = None" and b: "fst (best_wildcard ?key ?rs (None, 0)) = None"
    using assms(2) by (auto simp: lookup_def lookup_in_def Let_def split: option.splits)
  have "scan_ok ?key ?rs (best_wildcard ?key ?rs (None, 0))"
    using best_wildcard_spec [of ?key "[]" "(None, 0)" ?rs] by (simp add: scan_ok_def)
  with b have none: "\<forall>q \<in> set ?rs. \<not> wild_match ?key (fst q)" by (simp add: scan_ok_def)
  have "\<not> has_rule rls ?key" using in_table_iff_rule [OF assms(1), of ?key] m by simp
  moreover have "\<not> (has_rule rls k \<and> wild_match ?key k)"
    using in_table_iff_rule [OF assms(1), of k] none by (auto dest!: map_of_SomeD)
  ultimately show ?thesis by (auto simp: routes_to_def)
qed

section \<open>Properties\<close>

text \<open>
  \<open>Rebuild\<close> installs exactly what the rules ask for: for every host, the last rule naming it,
  disabled or with one backend for each of its valid targets, with their weights (at least 1)
  and TLS mode, and the strategy asked for; the health checker is given the targets of all
  enabled rules.
\<close>

theorem rebuild_installs_rules:
  "map_option rt_view (map_of (e_routes (Rebuild up rls e)) h) =
     map_option (wanted up (e_insecureDefault e)) (rule_for rls h) \<and>
   distinct (map fst (e_routes (Rebuild up rls e))) \<and>
   e_targets (Rebuild up rls e) =
     concat (map (rule_targets up (e_insecureDefault e)) rls) \<and>
   e_health (Rebuild up rls e) =
     map_option (SetTargets (concat (map (rule_targets up (e_insecureDefault e)) rls))) (e_health e)"
  using Rebuild_spec(4,5,6) [OF refl, where up = up and rls = rls and e = e]
    table_okD(1) [OF Rebuild_spec(1) [OF refl, where up = up and rls = rls and e = e]]
  by simp

text \<open>
  C3: Whatever happened before, a host is served by the rule that names it, else by the rule
  with the longest matching wildcard, and by no rule only if neither exists.
\<close>

theorem lookup_follows_rules:
  assumes "reachable up w"
  shows "case lookup (w_engine w) host of
      Some (k, rt) \<Rightarrow> routes_to (w_rules w) (NormalizeHost host) k \<and>
        rule_for (w_rules w) k = Some (rt_rule rt)
    | None \<Rightarrow> \<forall>k. \<not> routes_to (w_rules w) (NormalizeHost host) k"
  using lookup_rule(1,3) [OF world_follows [OF reachable_inv [OF assms]]]
    lookup_None_rule [OF world_follows [OF reachable_inv [OF assms]]]
  by (auto split: option.split)

text \<open>
  The order in which Go iterates over the route map does not matter: two tables with the
  same entries give the same answer for every host.
\<close>

theorem lookup_order_irrelevant:
  assumes "distinct (map fst rs)" "mset rs = mset rs'"
  shows "lookup_in rs host = lookup_in rs' host"
proof -
  have d: "distinct (map fst rs')"
    using assms by (metis mset_eq_imp_distinct_iff mset_map)
  have s: "set rs = set rs'" using assms(2) by (rule mset_eq_setD)
  have m: "map_of rs = map_of rs'" using assms(1) d s by (simp add: map_of_inject_set)
  have "lookup_in rs host = Some p \<longleftrightarrow> lookup_in rs' host = Some p" for p
    using s by (cases p) (simp add: lookup_in_cases assms(1) d best_match_def m)
  then show ?thesis by (metis not_Some_eq)
qed

text \<open>
  Connection accounting: the counter of every backend in the table is exactly the number of
  requests in flight on it, so it is never negative and drains to 0, however requests, their
  ends and rebuilds of the table interleave.
\<close>

theorem connections_accounted:
  assumes "reachable up w" "map_of (e_routes (w_engine w)) k = Some rt" "b \<in> set (rt_backends rt)"
  shows "be_activeConns b = int (count (w_inflight w) (be_id b))"
  by (rule world_invD(3) [OF reachable_inv [OF assms(1)] assms(2,3)])

text \<open>
  Reinstalling the table keeps what the health checker knows: a target that was tracked and
  still is keeps its verdict, every other target counts as healthy.
\<close>

theorem rebuild_keeps_verdicts:
  assumes "hc_inv c" "e_health e = Some c"
  shows "\<exists>c'. e_health (Rebuild up rls e) = Some c' \<and> hc_inv c' \<and>
     (\<forall>t. IsHealthy c' t =
        (t \<in> dom (c_targets c) \<inter> set (e_targets (Rebuild up rls e)) \<longrightarrow> IsHealthy c t))"
  using Rebuild_spec(6) [OF refl, where up = up and rls = rls and e = e] assms
    hc.verdict_after [OF assms(1)] hc.inv_set [OF assms(1)]
  by simp

text \<open>
  A rule all of whose targets are invalid is not discarded, as the log line says: its host
  keeps a route without backends, and a request that needs no login is answered by nothing at
  all (an empty 200 response) instead of the 404 of a host without a rule.
\<close>

theorem invalid_targets_answer_nothing:
  assumes "reachable up w" "routes_to (w_rules w) (NormalizeHost host) k"
    "rule_for (w_rules w) k = Some rl" "r_Enabled rl" "wanted_backends up (w_lax w) rl = []"
    "\<not> r_RequireAuth rl"
  shows "handle auth host (w_engine w) = (NoAnswer, w_engine w)"
proof -
  note I = world_follows [OF reachable_inv [OF assms(1)]]
  obtain k' rt where l: "lookup (w_engine w) host = Some (k', rt)"
    using lookup_None_rule [OF I, of host k] assms(2) by (cases "lookup (w_engine w) host") auto
  have "k' = k"
    using lookup_rule(1) [OF I l] assms(2) wild_match_unique
    by (auto simp: routes_to_def split: if_splits) (meson order_antisym)
  then have r: "rt_rule rt = rl" using lookup_rule(3) [OF I l] assms(3) by simp
  then have "rt_backends rt = []" "\<not> rt_disabled rt"
    using lookup_rule(4) [OF I l] assms(4,5) by (auto simp: rt_view_def wanted_def Let_def)
  with l r assms(6) show ?thesis by (simp add: handle_def)
qed

section \<open>Instances\<close>

text \<open>A parser that accepts any text as an HTTP URL, and worlds built from a rule or two.\<close>

definition any_url :: url_parser where
  "any_url s =
     (if HasPrefix s ''http://''
      then Some \<lparr>u_Scheme = ''http'', u_Host = drop 7 s, u_Hostname = drop 7 s,
        u_RequestURI = ''/'', u_String = s\<rparr>
      else None)"

definition rule :: "string \<Rightarrow> string \<Rightarrow> bool \<Rightarrow> Rule" where
  "rule host target auth =
     \<lparr>r_Host = host, r_Target = target, r_Targets = [], r_LoadBalancing = [],
      r_RequireAuth = auth, r_InsecureTLS = False, r_Enabled = True\<rparr>"

definition two_rules :: "Rule list" where
  "two_rules = [rule ''a.b'' ''http://x'' True, rule ''*.b'' ''y'' False]"

definition running :: world where
  "running = start\<lparr>w_engine := Rebuild any_url two_rules NewEngine, w_rules := two_rules,
     w_lax := False\<rparr>"

lemma running_reachable: "reachable any_url running"
  using world_step.rebuild [of any_url start two_rules]
  by (auto simp: reachable_def running_def start_def NewEngine_def)

lemma in_two_rules:
  "rule_for two_rules ''a.b'' = Some (rule ''a.b'' ''http://x'' True)"
  "rule_for two_rules ''*.b'' = Some (rule ''*.b'' ''y'' False)"
  "rule_for two_rules ''c.b'' = None"
  by code_simp+

lemma running_proxied:
  "fst (handle True ''A.b:80'' (w_engine running)) = Proxied 0"
  by code_simp

lemma running_sel [simp]: "w_rules running = two_rules" "w_lax running = False"
  "w_inflight running = {#}"
  by (simp_all add: running_def start_def)

theorem lookup_follows_rules_witness:
  "\<exists>k rt. lookup (w_engine running) ''A.b:80'' = Some (k, rt) \<and>
     routes_to two_rules ''a.b'' k \<and> rule_for two_rules k = Some (rt_rule rt)"
proof -
  have n: "NormalizeHost ''A.b:80'' = ''a.b''" by code_simp
  have "lookup (w_engine running) ''A.b:80'' \<noteq> None" by code_simp
  then show ?thesis
    using lookup_follows_rules [OF running_reachable, of "''A.b:80''"] n by auto
qed

theorem lookup_order_irrelevant_witness:
  "lookup_in (rev (e_routes (w_engine running))) ''q.b'' =
     lookup_in (e_routes (w_engine running)) ''q.b''"
proof -
  have "map fst (e_routes (w_engine running)) = [''a.b'', ''*.b'']" by code_simp
  then show ?thesis
    using lookup_order_irrelevant [of "e_routes (w_engine running)"
        "rev (e_routes (w_engine running))" "''q.b''"] by simp
qed

theorem connections_accounted_witness:
  "\<exists>w rt b. reachable any_url w \<and> map_of (e_routes (w_engine w)) ''a.b'' = Some rt \<and> b \<in> set (rt_backends rt) \<and>
     be_activeConns b = 1"
proof -
  let ?e = "snd (handle True ''A.b:80'' (w_engine running))"
  let ?w = "running\<lparr>w_engine := ?e, w_inflight := {#0#}\<rparr>"
  have "handle True ''A.b:80'' (w_engine running) = (Proxied 0, ?e)"
    using running_proxied by (metis prod.collapse)
  from world_step.proxied [OF this] have "world_step any_url running ?w" by simp
  then have r: "reachable any_url ?w"
    using running_reachable unfolding reachable_def by (rule rtranclp.rtrancl_into_rtrancl [rotated])
  have "map_option (\<lambda>rt. map be_id (rt_backends rt)) (map_of (e_routes ?e) ''a.b'') = Some [0]"
    by code_simp
  then obtain rt b where b: "map_of (e_routes ?e) ''a.b'' = Some rt" "rt_backends rt = [b]"
    "be_id b = 0" by auto
  then have "be_activeConns b = 1" using connections_accounted [OF r, of "''a.b''" rt b] by simp
  moreover have "map_of (e_routes (w_engine ?w)) ''a.b'' = Some rt" using b(1) by simp
  moreover have "b \<in> set (rt_backends rt)" using b(2) by simp
  ultimately show ?thesis using r by blast
qed

theorem rebuild_keeps_verdicts_witness:
  "\<exists>c'. e_health (Rebuild any_url two_rules (SetHealthChecker (New 0 0 1) NewEngine)) = Some c' \<and>
     IsHealthy c' ''http://x''"
  using rebuild_keeps_verdicts [OF hc_inv_New [of 0 0 1],
      of "SetHealthChecker (New 0 0 1) NewEngine" any_url two_rules]
  by (auto simp: SetHealthChecker_def New_def)

theorem invalid_targets_answer_nothing_witness:
  "handle False ''q.b'' (w_engine running) = (NoAnswer, w_engine running)"
proof -
  have n: "NormalizeHost ''q.b'' = ''q.b''" by code_simp
  have "map_option fst (lookup (w_engine running) ''q.b'') = Some ''*.b''" by code_simp
  then have "routes_to two_rules ''q.b'' ''*.b''"
    using lookup_rule(1) [OF world_follows [OF reachable_inv [OF running_reachable]], of "''q.b''"] n by auto
  moreover have "wanted_backends any_url False (rule ''*.b'' ''y'' False) = []" by code_simp
  ultimately show ?thesis
    using invalid_targets_answer_nothing [OF running_reachable, of "''q.b''" "''*.b''"
        "rule ''*.b'' ''y'' False" False] n in_two_rules(2)
    by (simp add: rule_def)
qed

end
