(* ===== verification/Codec.thy ===== *)
theory Codec
  imports Prelude
begin

text \<open>
  The byte codecs of Go's standard library that tokens, sealed secrets and TOTP keys are written
  with: \<open>base64.RawURLEncoding\<close>, \<open>base64.StdEncoding\<close>, \<open>base32\<close> without padding and \<open>hex\<close>. The
  decoders accept what Go's accept: they skip line breaks and do not check the unused low bits
  of the last character; a \<open>base32\<close> tail of 1, 3 or 6 characters is dropped in silence.

  The contract of a codec is the locale \<open>text_codec\<close>, interpreted for the three that are decoded.
\<close>

section \<open>Alphabets\<close>

definition byte :: "nat \<Rightarrow> char" where
  "byte n = char_of n"

definition ord :: "char \<Rightarrow> nat" where
  "ord c = of_char c"

lemma ord_less [simp]: "ord c < 256"
  by (simp add: ord_def)

lemma ord_byte [simp]: "n < 256 \<Longrightarrow> ord (byte n) = n"
  by (simp add: ord_def byte_def)

lemma byte_ord [simp]: "byte (ord c) = c"
  by (simp add: ord_def byte_def)

definition url_alphabet :: string where
  "url_alphabet = ''ABCDEFGHIJKLMNOPQRSTUVWXYZabcdefghijklmnopqrstuvwxyz0123456789-_''"

definition std_alphabet :: string where
  "std_alphabet = ''ABCDEFGHIJKLMNOPQRSTUVWXYZabcdefghijklmnopqrstuvwxyz0123456789+/''"

definition b32_alphabet :: string where
  "b32_alphabet = ''ABCDEFGHIJKLMNOPQRSTUVWXYZ234567''"

definition hex_alphabet :: string where
  "hex_alphabet = ''0123456789abcdef''"

definition letter :: "string \<Rightarrow> nat \<Rightarrow> char" where
  "letter alph i = alph ! i"

lemma IndexByte_nth: "distinct s \<Longrightarrow> i < length s \<Longrightarrow> IndexByte s (s ! i) = Some i"
  by (induction s arbitrary: i) (auto simp: nth_Cons split: nat.splits)

definition alphabet_ok :: "string \<Rightarrow> nat \<Rightarrow> bool" where
  "alphabet_ok alph n \<longleftrightarrow> distinct alph \<and> length alph = n \<and>
     CHR 0x0A \<notin> set alph \<and> CHR 0x0D \<notin> set alph \<and> CHR ''='' \<notin> set alph \<and> CHR ''.'' \<notin> set alph"

lemma alphabets_ok:
  "alphabet_ok url_alphabet 64" "alphabet_ok std_alphabet 64" "alphabet_ok b32_alphabet 32"
  by code_simp+

lemma letter_in: "alphabet_ok alph n \<Longrightarrow> i < n \<Longrightarrow> letter alph i \<in> set alph"
  by (auto simp: letter_def alphabet_ok_def)

lemma IndexByte_letter: "alphabet_ok alph n \<Longrightarrow> i < n \<Longrightarrow> IndexByte alph (letter alph i) = Some i"
  by (simp add: letter_def alphabet_ok_def IndexByte_nth)

fun digits :: "string \<Rightarrow> string \<Rightarrow> nat list option" where
  "digits alph [] = Some []"
| "digits alph (c # cs) =
     (case IndexByte alph c of
        None \<Rightarrow> None
      | Some i \<Rightarrow> map_option ((#) i) (digits alph cs))"

lemma digits_letters:
  "alphabet_ok alph n \<Longrightarrow> \<forall>i \<in> set ds. i < n \<Longrightarrow> digits alph (map (letter alph) ds) = Some ds"
  by (induction ds) (auto simp: IndexByte_letter)

text \<open>The decoders ignore carriage returns and line feeds.\<close>

definition strip_newlines :: "string \<Rightarrow> string" where
  "strip_newlines s = filter (\<lambda>c. c \<noteq> CHR 0x0A \<and> c \<noteq> CHR 0x0D) s"

lemma strip_newlines_letters:
  assumes "alphabet_ok alph n" "\<forall>i \<in> set ds. i < n"
  shows "strip_newlines (map (letter alph) ds) = map (letter alph) ds"
proof -
  have "\<forall>i \<in> set ds. letter alph i \<in> set alph" using assms letter_in by blast
  then show ?thesis
    using assms(1) by (fastforce simp: strip_newlines_def filter_id_conv alphabet_ok_def)
qed

section \<open>Base 64\<close>

text \<open>Three bytes are four digits; a tail of one or two bytes is two or three digits.\<close>

fun enc64 :: "nat list \<Rightarrow> nat list" where
  "enc64 (a # b # c # xs) =
     a div 4 # ((a mod 4) * 16 + b div 16) # ((b mod 16) * 4 + c div 64) # c mod 64 # enc64 xs"
| "enc64 [a, b] = [a div 4, (a mod 4) * 16 + b div 16, (b mod 16) * 4]"
| "enc64 [a] = [a div 4, (a mod 4) * 16]"
| "enc64 [] = []"

fun dec64 :: "nat list \<Rightarrow> nat list option" where
  "dec64 (a # b # c # d # xs) =
     map_option (\<lambda>r. (a * 4 + b div 16) # ((b mod 16) * 16 + c div 4) # ((c mod 4) * 64 + d) # r)
       (dec64 xs)"
| "dec64 [a, b, c] = Some [a * 4 + b div 16, (b mod 16) * 16 + c div 4]"
| "dec64 [a, b] = Some [a * 4 + b div 16]"
| "dec64 [a] = None"
| "dec64 [] = Some []"

lemma enc64_bound: "\<forall>x \<in> set xs. x < 256 \<Longrightarrow> \<forall>d \<in> set (enc64 xs). d < 64"
proof (induction xs rule: enc64.induct)
  case (1 a b c xs)
  have "a div 4 < 64" "(a mod 4) * 16 + b div 16 < 64" "(b mod 16) * 4 + c div 64 < 64"
    "c mod 64 < 64" using "1.prems" by auto
  with 1 show ?case by simp
qed auto

lemma dec64_enc64: "\<forall>x \<in> set xs. x < 256 \<Longrightarrow> dec64 (enc64 xs) = Some xs"
proof (induction xs rule: enc64.induct)
  case (1 a b c xs)
  have "b div 16 < 16" "c div 64 < 4" using "1.prems" by auto
  with 1 show ?case by simp
qed auto

definition RawURLEncode :: "string \<Rightarrow> string" where
  "RawURLEncode s = map (letter url_alphabet) (enc64 (map ord s))"

definition RawURLDecode :: "string \<Rightarrow> string option" where
  "RawURLDecode s =
     (case digits url_alphabet (strip_newlines s) of
        None \<Rightarrow> None
      | Some ds \<Rightarrow> map_option (map byte) (dec64 ds))"

text \<open>
  The padded encoding fills the last group up to four characters. Its decoder wants that fill:
  two \<open>=\<close> after a tail of two digits, one after a tail of three, and nothing behind it.
\<close>

definition pad64 :: "nat \<Rightarrow> string" where
  "pad64 n = (if n mod 3 = 1 then ''=='' else if n mod 3 = 2 then ''='' else [])"

definition StdEncode :: "string \<Rightarrow> string" where
  "StdEncode s = map (letter std_alphabet) (enc64 (map ord s)) @ pad64 (length s)"

definition StdDecode :: "string \<Rightarrow> string option" where
  "StdDecode s =
     (let t = strip_newlines s;
          body = takeWhile (\<lambda>c. c \<noteq> CHR ''='') t;
          fill = dropWhile (\<lambda>c. c \<noteq> CHR ''='') t
      in if length body mod 4 = 0 \<and> fill = [] \<or> length body mod 4 = 2 \<and> fill = ''=='' \<or>
            length body mod 4 = 3 \<and> fill = ''=''
         then (case digits std_alphabet body of
                 None \<Rightarrow> None
               | Some ds \<Rightarrow> map_option (map byte) (dec64 ds))
         else None)"

lemma map_byte_ord [simp]: "map byte (map ord s) = s"
  by (simp add: comp_def)

lemma enc64_bytes: "\<forall>d \<in> set (enc64 (map ord s)). d < 64"
  by (intro enc64_bound) auto

lemma RawURL_roundtrip: "RawURLDecode (RawURLEncode s) = Some s"
proof -
  have "dec64 (enc64 (map ord s)) = Some (map ord s)" by (intro dec64_enc64) auto
  then show ?thesis
    using alphabets_ok(1) enc64_bytes
    by (simp add: RawURLDecode_def RawURLEncode_def strip_newlines_letters digits_letters
        del: map_map)
qed

lemma length_enc64_mod:
  "length (enc64 xs) mod 4 = (if length xs mod 3 = 0 then 0 else Suc (length xs mod 3))"
  by (induction xs rule: enc64.induct) simp_all

lemma while_no_char:
  "c \<notin> set e \<Longrightarrow> takeWhile (\<lambda>x. x \<noteq> c) (e @ p) = e @ takeWhile (\<lambda>x. x \<noteq> c) p"
  "c \<notin> set e \<Longrightarrow> dropWhile (\<lambda>x. x \<noteq> c) (e @ p) = dropWhile (\<lambda>x. x \<noteq> c) p"
  by (induction e) auto

lemma Std_roundtrip: "StdDecode (StdEncode s) = Some s"
proof -
  let ?e = "map (letter std_alphabet) (enc64 (map ord s))"
  have no: "CHR ''='' \<notin> set ?e"
    using alphabets_ok(2) enc64_bytes [of s] letter_in [OF alphabets_ok(2)]
    by (auto simp: alphabet_ok_def simp del: map_map)
  have nl: "strip_newlines (?e @ pad64 (length s)) = ?e @ pad64 (length s)"
    using strip_newlines_letters [OF alphabets_ok(2) enc64_bytes [of s]]
    by (simp add: strip_newlines_def pad64_def del: map_map)
  have d: "dec64 (enc64 (map ord s)) = Some (map ord s)" by (intro dec64_enc64) auto
  have pad: "takeWhile (\<lambda>c. c \<noteq> CHR ''='') (pad64 n) = []"
    "dropWhile (\<lambda>c. c \<noteq> CHR ''='') (pad64 n) = pad64 n" for n
    by (simp_all add: pad64_def)
  have len: "length (enc64 (map ord s)) mod 4 = (if length s mod 3 = 0 then 0 else Suc (length s mod 3))"
    using length_enc64_mod [of "map ord s"] by simp
  have "length s mod 3 < 3" by simp
  then consider "length s mod 3 = 0" | "length s mod 3 = 1" | "length s mod 3 = 2" by linarith
  then have "length ?e mod 4 = 0 \<and> pad64 (length s) = [] \<or>
      length ?e mod 4 = 2 \<and> pad64 (length s) = ''=='' \<or>
      length ?e mod 4 = 3 \<and> pad64 (length s) = ''=''"
    by cases (simp_all add: len pad64_def)
  then show ?thesis
    unfolding StdDecode_def StdEncode_def nl Let_def while_no_char [OF no] pad append_Nil2
      digits_letters [OF alphabets_ok(2) enc64_bytes] option.case d
    by (simp only: if_True option.map map_byte_ord)
qed

section \<open>Base 32 without padding\<close>

fun enc32 :: "nat list \<Rightarrow> nat list" where
  "enc32 (a # b # c # d # e # xs) =
     a div 8 # ((a mod 8) * 4 + b div 64) # ((b div 2) mod 32) # ((b mod 2) * 16 + c div 16) #
     ((c mod 16) * 2 + d div 128) # ((d div 4) mod 32) # ((d mod 4) * 8 + e div 32) # e mod 32 #
     enc32 xs"
| "enc32 [a, b, c, d] =
     [a div 8, (a mod 8) * 4 + b div 64, (b div 2) mod 32, (b mod 2) * 16 + c div 16,
      (c mod 16) * 2 + d div 128, (d div 4) mod 32, (d mod 4) * 8]"
| "enc32 [a, b, c] =
     [a div 8, (a mod 8) * 4 + b div 64, (b div 2) mod 32, (b mod 2) * 16 + c div 16,
      (c mod 16) * 2]"
| "enc32 [a, b] = [a div 8, (a mod 8) * 4 + b div 64, (b div 2) mod 32, (b mod 2) * 16]"
| "enc32 [a] = [a div 8, (a mod 8) * 4]"
| "enc32 [] = []"

definition b32_0 :: "nat \<Rightarrow> nat \<Rightarrow> nat" where "b32_0 a b = a * 8 + b div 4"
definition b32_1 :: "nat \<Rightarrow> nat \<Rightarrow> nat \<Rightarrow> nat" where
  "b32_1 b c d = (b mod 4) * 64 + c * 2 + d div 16"
definition b32_2 :: "nat \<Rightarrow> nat \<Rightarrow> nat" where "b32_2 d e = (d mod 16) * 16 + e div 2"
definition b32_3 :: "nat \<Rightarrow> nat \<Rightarrow> nat \<Rightarrow> nat" where
  "b32_3 e f g = (e mod 2) * 128 + f * 4 + g div 8"
definition b32_4 :: "nat \<Rightarrow> nat \<Rightarrow> nat" where "b32_4 g h = (g mod 8) * 32 + h"

fun dec32 :: "nat list \<Rightarrow> nat list" where
  "dec32 (a # b # c # d # e # f # g # h # xs) =
     b32_0 a b # b32_1 b c d # b32_2 d e # b32_3 e f g # b32_4 g h # dec32 xs"
| "dec32 [a, b, c, d, e, f, g] = [b32_0 a b, b32_1 b c d, b32_2 d e, b32_3 e f g]"
| "dec32 [a, b, c, d, e, f] = []"
| "dec32 [a, b, c, d, e] = [b32_0 a b, b32_1 b c d, b32_2 d e]"
| "dec32 [a, b, c, d] = [b32_0 a b, b32_1 b c d]"
| "dec32 [a, b, c] = []"
| "dec32 [a, b] = [b32_0 a b]"
| "dec32 [a] = []"
| "dec32 [] = []"

lemma b32_bytes:
  "b32_0 (a div 8) ((a mod 8) * 4 + b div 64) = a" if "b < 256" for a b :: nat
  using that by (simp add: b32_0_def)

lemma b32_tail: "b32_0 (a div 8) ((a mod 8) * 4) = a" for a :: nat
  by (simp add: b32_0_def)

lemma split_128: "b div 64 * 64 + b div 2 mod 32 * 2 + b mod 2 = b" for b :: nat
proof -
  have "b div 2 div 32 = b div 64" by (simp flip: div_mult2_eq)
  then show ?thesis
    using div_mult_mod_eq [of "b div 2" 32] div_mult_mod_eq [of b 2] by linarith
qed

lemma split_4: "d div 128 * 128 + d div 4 mod 32 * 4 + d mod 4 = d" for d :: nat
proof -
  have "d div 4 div 32 = d div 128" by (simp flip: div_mult2_eq)
  then show ?thesis
    using div_mult_mod_eq [of "d div 4" 32] div_mult_mod_eq [of d 4] by linarith
qed

lemma b32_byte_1:
  "b < 256 \<Longrightarrow> c < 256 \<Longrightarrow> b32_1 ((a mod 8) * 4 + b div 64) (b div 2 mod 32)
     ((b mod 2) * 16 + c div 16) = b" for a b c :: nat
  using split_128 [of b] by (simp add: b32_1_def)

lemma b32_byte_1_tail:
  "b < 256 \<Longrightarrow> b32_1 ((a mod 8) * 4 + b div 64) (b div 2 mod 32) ((b mod 2) * 16) = b"
  for a b :: nat
  using split_128 [of b] by (simp add: b32_1_def)

lemma b32_byte_2:
  "c < 256 \<Longrightarrow> d < 256 \<Longrightarrow>
   b32_2 ((b mod 2) * 16 + c div 16) ((c mod 16) * 2 + d div 128) = c" for b c d :: nat
  by (simp add: b32_2_def)

lemma b32_byte_2_tail:
  "c < 256 \<Longrightarrow> b32_2 ((b mod 2) * 16 + c div 16) ((c mod 16) * 2) = c" for b c :: nat
  by (simp add: b32_2_def)

lemma b32_byte_3:
  "d < 256 \<Longrightarrow> e < 256 \<Longrightarrow>
   b32_3 ((c mod 16) * 2 + d div 128) (d div 4 mod 32) ((d mod 4) * 8 + e div 32) = d"
  for c d e :: nat
  using split_4 [of d] by (simp add: b32_3_def)

lemma b32_byte_3_tail:
  "d < 256 \<Longrightarrow> b32_3 ((c mod 16) * 2 + d div 128) (d div 4 mod 32) ((d mod 4) * 8) = d"
  for c d :: nat
  using split_4 [of d] by (simp add: b32_3_def)

lemma b32_byte_4: "e < 256 \<Longrightarrow> b32_4 ((d mod 4) * 8 + e div 32) (e mod 32) = e" for d e :: nat
  by (simp add: b32_4_def)

lemma dec32_enc32: "\<forall>x \<in> set xs. x < 256 \<Longrightarrow> dec32 (enc32 xs) = xs"
  by (induction xs rule: enc32.induct)
    (simp_all add: b32_bytes b32_tail b32_byte_1 b32_byte_1_tail b32_byte_2 b32_byte_2_tail
      b32_byte_3 b32_byte_3_tail b32_byte_4)

lemma b32_digit_bounds:
  "a < 256 \<Longrightarrow> a div 8 < 32" "b < 256 \<Longrightarrow> (a mod 8) * 4 + b div 64 < 32" "(a mod 8) * 4 < 32"
  "c < 256 \<Longrightarrow> (b mod 2) * 16 + c div 16 < 32" "(b mod 2) * 16 < 32"
  "d < 256 \<Longrightarrow> (c mod 16) * 2 + d div 128 < 32" "(c mod 16) * 2 < 32"
  "e < 256 \<Longrightarrow> (d mod 4) * 8 + e div 32 < 32" "(d mod 4) * 8 < 32"
  for a b c d e :: nat
proof -
  have m: "a mod 8 < 8" "b mod 2 < 2" "c mod 16 < 16" "d mod 4 < 4" by simp_all
  then show "(a mod 8) * 4 < 32" "(b mod 2) * 16 < 32" "(c mod 16) * 2 < 32" "(d mod 4) * 8 < 32"
    by linarith+
  show "a div 8 < 32" if "a < 256" using that by (simp add: less_mult_imp_div_less)
  show "(a mod 8) * 4 + b div 64 < 32" if "b < 256"
    using m less_mult_imp_div_less [of b 4 64] that by linarith
  show "(b mod 2) * 16 + c div 16 < 32" if "c < 256"
    using m less_mult_imp_div_less [of c 16 16] that by linarith
  show "(c mod 16) * 2 + d div 128 < 32" if "d < 256"
    using m less_mult_imp_div_less [of d 2 128] that by linarith
  show "(d mod 4) * 8 + e div 32 < 32" if "e < 256"
    using m less_mult_imp_div_less [of e 8 32] that by linarith
qed

lemma enc32_bound: "\<forall>x \<in> set xs. x < 256 \<Longrightarrow> \<forall>d \<in> set (enc32 xs). d < 32"
  by (induction xs rule: enc32.induct) (simp_all add: b32_digit_bounds)

definition B32Encode :: "string \<Rightarrow> string" where
  "B32Encode s = map (letter b32_alphabet) (enc32 (map ord s))"

definition B32Decode :: "string \<Rightarrow> string option" where
  "B32Decode s = map_option (map byte \<circ> dec32) (digits b32_alphabet (strip_newlines s))"

lemma enc32_bytes: "\<forall>d \<in> set (enc32 (map ord s)). d < 32"
  by (intro enc32_bound) auto

lemma B32_roundtrip: "B32Decode (B32Encode s) = Some s"
proof -
  have "dec32 (enc32 (map ord s)) = map ord s" by (intro dec32_enc32) auto
  then show ?thesis
    using alphabets_ok(3) enc32_bytes
    by (simp add: B32Decode_def B32Encode_def strip_newlines_letters digits_letters del: map_map)
qed

section \<open>Hexadecimal\<close>

definition HexEncode :: "string \<Rightarrow> string" where
  "HexEncode s = concat (map (\<lambda>c. [letter hex_alphabet (ord c div 16), letter hex_alphabet (ord c mod 16)]) s)"

lemma length_HexEncode [simp]: "length (HexEncode s) = 2 * length s"
  by (induction s) (simp_all add: HexEncode_def)

lemma HexEncode_eq_Nil [simp]: "HexEncode s = [] \<longleftrightarrow> s = []"
  by (metis length_0_conv length_HexEncode mult_is_0 zero_neq_numeral)

section \<open>The contract of a codec\<close>

text \<open>
  A codec writes any byte string with the characters of its alphabet and reads back what it
  wrote. That is all the tokens and the sealed secrets rely on.
\<close>

locale text_codec =
  fixes enc :: "string \<Rightarrow> string" and dec :: "string \<Rightarrow> string option" and alph :: "char set"
  assumes dec_enc: "dec (enc s) = Some s"
    and enc_alph: "set (enc s) \<subseteq> alph"
begin

lemma enc_inject: "enc s = enc t \<longleftrightarrow> s = t"
  by (metis dec_enc option.inject)

text \<open>Text outside the alphabet can be appended behind a separator and found again.\<close>

lemma split_signed: "sep \<notin> alph \<Longrightarrow> sep \<notin> set sig \<Longrightarrow> Split (enc s @ sep # sig) sep = [enc s, sig]"
  by (rule Split_two) (use enc_alph in auto)

end

interpretation rawurl: text_codec RawURLEncode RawURLDecode "set url_alphabet"
  by unfold_locales (use RawURL_roundtrip enc64_bytes letter_in [OF alphabets_ok(1)] in
    \<open>auto simp: RawURLEncode_def simp del: map_map\<close>)

interpretation std64: text_codec StdEncode StdDecode "insert CHR ''='' (set std_alphabet)"
  by unfold_locales (use Std_roundtrip enc64_bytes letter_in [OF alphabets_ok(2)] in
    \<open>auto simp: StdEncode_def pad64_def simp del: map_map split: if_splits\<close>)

interpretation b32: text_codec B32Encode B32Decode "set b32_alphabet"
  by unfold_locales (use B32_roundtrip enc32_bytes letter_in [OF alphabets_ok(3)] in
    \<open>auto simp: B32Encode_def simp del: map_map\<close>)

end
