(* ===== verification/Json.thy ===== *)
theory Json
  imports Decimal
begin

text \<open>
  JSON text as \<open>encoding/json\<close> writes and reads it: \<open>Marshal\<close> (compact, with the HTML escapes
  that are its default) and \<open>Unmarshal\<close> into a tree. A number keeps its literal, which is what
  the decoder hands to \<open>ParseInt\<close> for an integer field. The fields of a struct are read by the
  functions at the end: a key matches a field without regard to case, the last one wins, an
  unknown key is ignored, \<open>null\<close> leaves a field alone, and a value of the wrong kind is an error.

  Text is a list of bytes; the replacement of invalid UTF-8 by U+FFFD and the limit of 10000
  nested values are not modelled.
\<close>

datatype json =
    JNull
  | JBool bool
  | JNum string
  | JStr string
  | JArr "json list"
  | JObj "(string \<times> json) list"

section \<open>Writing\<close>

definition quote :: char where "quote = CHR 0x22"
definition backslash :: char where "backslash = CHR 0x5C"

definition short_escape :: "char \<Rightarrow> char option" where
  "short_escape c =
     (if c = quote \<or> c = backslash then Some c
      else if c = CHR 0x08 then Some (CHR ''b'')
      else if c = CHR 0x0C then Some (CHR ''f'')
      else if c = CHR 0x0A then Some (CHR ''n'')
      else if c = CHR 0x0D then Some (CHR ''r'')
      else if c = CHR 0x09 then Some (CHR ''t'')
      else None)"

definition escape_char :: "char \<Rightarrow> string" where
  "escape_char c =
     (case short_escape c of
        Some e \<Rightarrow> [backslash, e]
      | None \<Rightarrow>
          if ord c < 32 \<or> c \<in> {CHR ''<'', CHR ''>'', CHR ''&''} then
            [backslash, CHR ''u'', CHR ''0'', CHR ''0'',
             letter hex_alphabet (ord c div 16), letter hex_alphabet (ord c mod 16)]
          else [c])"

definition print_str :: "string \<Rightarrow> string" where
  "print_str s = quote # concat (map escape_char s) @ [quote]"

fun print_json :: "json \<Rightarrow> string"
  and print_elems :: "json list \<Rightarrow> string"
  and print_members :: "(string \<times> json) list \<Rightarrow> string" where
  "print_json JNull = ''null''"
| "print_json (JBool b) = (if b then ''true'' else ''false'')"
| "print_json (JNum lit) = lit"
| "print_json (JStr s) = print_str s"
| "print_json (JArr js) = CHR ''['' # print_elems js @ '']''"
| "print_json (JObj kvs) = CHR ''{'' # print_members kvs @ ''}''"
| "print_elems [] = []"
| "print_elems (j # js) = print_json j @ (if js = [] then [] else CHR '','' # print_elems js)"
| "print_members [] = []"
| "print_members ((k, j) # kvs) =
     print_str k @ CHR '':'' # print_json j @
       (if kvs = [] then [] else CHR '','' # print_members kvs)"

section \<open>Reading\<close>

definition json_ws :: "char \<Rightarrow> bool" where
  "json_ws c \<longleftrightarrow> c \<in> {CHR '' '', CHR 0x09, CHR 0x0A, CHR 0x0D}"

definition skip_ws :: "string \<Rightarrow> string" where
  "skip_ws s = dropWhile json_ws s"

definition hex_val :: "char \<Rightarrow> nat option" where
  "hex_val c = IndexByte hex_alphabet (lower_char c)"

fun hex4 :: "string \<Rightarrow> nat option" where
  "hex4 (a # b # c # d # s) =
     (case (hex_val a, hex_val b, hex_val c, hex_val d) of
        (Some w, Some x, Some y, Some z) \<Rightarrow> Some (((w * 16 + x) * 16 + y) * 16 + z)
      | _ \<Rightarrow> None)"
| "hex4 s = None"

definition utf8 :: "nat \<Rightarrow> string" where
  "utf8 n =
     (if n < 0x80 then [byte n]
      else if n < 0x800 then [byte (0xC0 + n div 64), byte (0x80 + n mod 64)]
      else if n < 0x10000 then
        [byte (0xE0 + n div 4096), byte (0x80 + n div 64 mod 64), byte (0x80 + n mod 64)]
      else [byte (0xF0 + n div 262144), byte (0x80 + n div 4096 mod 64),
            byte (0x80 + n div 64 mod 64), byte (0x80 + n mod 64)])"

definition unescape :: "char \<Rightarrow> char option" where
  "unescape e =
     (if e = quote \<or> e = backslash \<or> e = CHR ''/'' then Some e
      else if e = CHR ''b'' then Some (CHR 0x08)
      else if e = CHR ''f'' then Some (CHR 0x0C)
      else if e = CHR ''n'' then Some (CHR 0x0A)
      else if e = CHR ''r'' then Some (CHR 0x0D)
      else if e = CHR ''t'' then Some (CHR 0x09)
      else None)"

text \<open>The low half of a surrogate pair, if the text continues with one.\<close>

fun low_surrogate :: "string \<Rightarrow> nat option" where
  "low_surrogate (b # u # s) =
     (if b = backslash \<and> u = CHR ''u''
      then (case hex4 s of
              None \<Rightarrow> None
            | Some m \<Rightarrow> if 0xDC00 \<le> m \<and> m < 0xE000 then Some (m - 0xDC00) else None)
      else None)"
| "low_surrogate s = None"

text \<open>What stands for an escape sequence, and how many characters behind the backslash it takes.\<close>

fun read_escape :: "string \<Rightarrow> (string \<times> nat) option" where
  "read_escape [] = None"
| "read_escape (e # ds) =
     (if e = CHR ''u'' then
        (case hex4 ds of
           None \<Rightarrow> None
         | Some n \<Rightarrow>
             if 0xD800 \<le> n \<and> n < 0xE000 then
               (case low_surrogate (drop 4 ds) of
                  Some m \<Rightarrow> if n < 0xDC00 then Some (utf8 (0x10000 + (n - 0xD800) * 1024 + m), 11)
                            else Some (utf8 0xFFFD, 5)
                | None \<Rightarrow> Some (utf8 0xFFFD, 5))
             else Some (utf8 n, 5))
      else map_option (\<lambda>c. ([c], 1)) (unescape e))"

text \<open>A string literal behind its opening quote, with the text that follows it.\<close>

function parse_str :: "string \<Rightarrow> (string \<times> string) option" where
  "parse_str [] = None"
| "parse_str (c # cs) =
     (if c = quote then Some ([], cs)
      else if ord c < 32 then None
      else if c = backslash then
        (case read_escape cs of
           None \<Rightarrow> None
         | Some (bs, k) \<Rightarrow> map_option (apfst ((@) bs)) (parse_str (drop k cs)))
      else map_option (apfst ((#) c)) (parse_str cs))"
  by pat_completeness auto
termination by (relation "measure length") auto

definition span_digits :: "string \<Rightarrow> string \<times> string" where
  "span_digits s = (takeWhile is_digit s, dropWhile is_digit s)"

definition int_part :: "string \<Rightarrow> (string \<times> string) option" where
  "int_part s =
     (if s \<noteq> [] \<and> hd s = CHR ''0'' then Some (''0'', tl s)
      else (case span_digits s of (ds, r) \<Rightarrow> if ds = [] then None else Some (ds, r)))"

definition frac_part :: "string \<Rightarrow> (string \<times> string) option" where
  "frac_part s =
     (if s \<noteq> [] \<and> hd s = CHR ''.''
      then (case span_digits (tl s) of (ds, r) \<Rightarrow>
              if ds = [] then None else Some (CHR ''.'' # ds, r))
      else Some ([], s))"

definition exp_part :: "string \<Rightarrow> (string \<times> string) option" where
  "exp_part s =
     (if s \<noteq> [] \<and> (hd s = CHR ''e'' \<or> hd s = CHR ''E'')
      then (let t = tl s;
                sgn = (if t \<noteq> [] \<and> (hd t = CHR ''+'' \<or> hd t = CHR ''-'') then [hd t] else [])
            in case span_digits (drop (length sgn) t) of (ds, r) \<Rightarrow>
                 if ds = [] then None else Some (hd s # sgn @ ds, r))
      else Some ([], s))"

definition parse_num :: "string \<Rightarrow> (string \<times> string) option" where
  "parse_num s =
     (let sgn = (if s \<noteq> [] \<and> hd s = CHR ''-'' then ''-'' else [])
      in case int_part (drop (length sgn) s) of
           None \<Rightarrow> None
         | Some (i, r) \<Rightarrow>
             (case frac_part r of
                None \<Rightarrow> None
              | Some (f, r') \<Rightarrow>
                  map_option (\<lambda>(x, r''). (sgn @ i @ f @ x, r'')) (exp_part r')))"

text \<open>
  The parser runs on fuel. Each of its calls passes at most one level on without consuming a
  character, so twice the length of the text and two more are enough (\<open>Unmarshal\<close>).
\<close>

fun parse_val :: "nat \<Rightarrow> string \<Rightarrow> (json \<times> string) option"
  and parse_elems :: "nat \<Rightarrow> string \<Rightarrow> (json list \<times> string) option"
  and parse_members :: "nat \<Rightarrow> string \<Rightarrow> ((string \<times> json) list \<times> string) option" where
  "parse_val 0 s = None"
| "parse_val (Suc n) s =
     (case skip_ws s of
        [] \<Rightarrow> None
      | c # cs \<Rightarrow>
          if c = quote then map_option (apfst JStr) (parse_str cs)
          else if c = CHR ''['' then
            (if HasPrefix (skip_ws cs) '']'' then Some (JArr [], tl (skip_ws cs))
             else map_option (apfst JArr) (parse_elems n cs))
          else if c = CHR ''{'' then
            (if HasPrefix (skip_ws cs) ''}'' then Some (JObj [], tl (skip_ws cs))
             else map_option (apfst JObj) (parse_members n cs))
          else if HasPrefix (c # cs) ''null'' then Some (JNull, drop 3 cs)
          else if HasPrefix (c # cs) ''true'' then Some (JBool True, drop 3 cs)
          else if HasPrefix (c # cs) ''false'' then Some (JBool False, drop 4 cs)
          else map_option (apfst JNum) (parse_num (c # cs)))"
| "parse_elems 0 s = None"
| "parse_elems (Suc n) s =
     (case parse_val n s of
        None \<Rightarrow> None
      | Some (v, r) \<Rightarrow>
          (case skip_ws r of
             [] \<Rightarrow> None
           | c # r' \<Rightarrow>
               if c = CHR '']'' then Some ([v], r')
               else if c = CHR '','' then map_option (apfst ((#) v)) (parse_elems n r')
               else None))"
| "parse_members 0 s = None"
| "parse_members (Suc n) s =
     (case skip_ws s of
        [] \<Rightarrow> None
      | q # cs \<Rightarrow>
          if q \<noteq> quote then None
          else (case parse_str cs of
                  None \<Rightarrow> None
                | Some (k, r) \<Rightarrow>
                    if \<not> HasPrefix (skip_ws r) '':'' then None
                    else (case parse_val n (tl (skip_ws r)) of
                            None \<Rightarrow> None
                          | Some (v, r') \<Rightarrow>
                              (case skip_ws r' of
                                 [] \<Rightarrow> None
                               | c # r'' \<Rightarrow>
                                   if c = CHR ''}'' then Some ([(k, v)], r'')
                                   else if c = CHR '','' then
                                     map_option (apfst ((#) (k, v))) (parse_members n r'')
                                   else None))))"

definition Unmarshal :: "string \<Rightarrow> json option" where
  "Unmarshal s =
     (case parse_val (2 * length s + 2) s of
        None \<Rightarrow> None
      | Some (v, r) \<Rightarrow> if skip_ws r = [] then Some v else None)"

section \<open>Reading what was written\<close>

lemma special_chars:
  "ord quote = 34" "ord backslash = 92" "quote \<noteq> backslash"
  by code_simp+

lemma hex_val_letter: "i < 16 \<Longrightarrow> hex_val (letter hex_alphabet i) = Some i"
proof -
  have "list_all (\<lambda>i. hex_val (letter hex_alphabet i) = Some i) [0..<16]" by code_simp
  then show "i < 16 \<Longrightarrow> ?thesis" by (simp add: list_all_iff)
qed

lemma hex_val_zero: "hex_val CHR ''0'' = Some 0"
  by code_simp

declare parse_str.simps(2) [simp del]

lemma parse_str_plain:
  "c \<noteq> quote \<Longrightarrow> c \<noteq> backslash \<Longrightarrow> 32 \<le> ord c \<Longrightarrow>
   parse_str (c # t) = map_option (apfst ((#) c)) (parse_str t)"
  by (simp add: parse_str.simps)

lemma parse_str_escaped:
  "read_escape cs = Some (bs, k) \<Longrightarrow>
   parse_str (backslash # cs) = map_option (apfst ((@) bs)) (parse_str (drop k cs))"
  using special_chars by (simp add: parse_str.simps)

lemma append_singleton: "(@) [c] = (#) c"
  by auto

lemma short_escape_unescape: "short_escape c = Some e \<Longrightarrow> unescape e = Some c \<and> e \<noteq> CHR ''u''"
  by (auto simp: short_escape_def unescape_def quote_def backslash_def split: if_splits)

lemma read_escape_u00:
  assumes "ord c < 128"
  shows "read_escape (CHR ''u'' # CHR ''0'' # CHR ''0'' # letter hex_alphabet (ord c div 16) #
      letter hex_alphabet (ord c mod 16) # t) = Some ([c], 5)"
proof -
  have "ord c div 16 < 16" using assms by simp
  then have "hex4 (CHR ''0'' # CHR ''0'' # letter hex_alphabet (ord c div 16) #
      letter hex_alphabet (ord c mod 16) # t) = Some (ord c)"
    by (simp add: hex_val_letter hex_val_zero)
  then show ?thesis using assms by (simp add: utf8_def del: hex4.simps)
qed

lemma html_ord: "ord CHR ''<'' < 128" "ord CHR ''>'' < 128" "ord CHR ''&'' < 128"
  by code_simp+

lemma drop_five: "drop 5 (a # b # c # d # e # t) = t"
  by (simp add: numeral_eq_Suc)

lemma parse_str_escape_char:
  "parse_str (escape_char c @ t) = map_option (apfst ((#) c)) (parse_str t)"
proof (cases "short_escape c")
  case (Some e)
  with short_escape_unescape have "read_escape (e # t) = Some ([c], 1)" by simp
  from parse_str_escaped [OF this] Some show ?thesis
    by (simp add: escape_char_def append_singleton)
next
  case None
  then have q: "c \<noteq> quote" "c \<noteq> backslash" by (auto simp: short_escape_def)
  show ?thesis
  proof (cases "ord c < 32 \<or> c \<in> {CHR ''<'', CHR ''>'', CHR ''&''}")
    case True
    then have "ord c < 128" using html_ord by auto
    note r = parse_str_escaped [OF read_escape_u00 [OF this, of t]]
    from True None show ?thesis
      unfolding escape_char_def by (simp only: option.case if_True append_Cons append_Nil r
          drop_five append_singleton)
  next
    case False
    with None q parse_str_plain [of c t] show ?thesis by (simp add: escape_char_def)
  qed
qed

lemma parse_str_quote [simp]: "parse_str (quote # r) = Some ([], r)"
  by (simp add: parse_str.simps)

lemma parse_str_written: "parse_str (concat (map escape_char s) @ quote # r) = Some (s, r)"
  by (induction s) (simp_all add: parse_str_escape_char)

section \<open>Numbers\<close>

definition int_literal :: "string \<Rightarrow> bool" where
  "int_literal s \<longleftrightarrow> (\<exists>i. s = Itoa i)"

definition value_end :: "string \<Rightarrow> bool" where
  "value_end r \<longleftrightarrow> r = [] \<or> hd r \<in> {CHR '','', CHR '']'', CHR ''}''}"

lemma span_digits_append:
  "list_all is_digit ds \<Longrightarrow> r = [] \<or> \<not> is_digit (hd r) \<Longrightarrow> span_digits (ds @ r) = (ds, r)"
  by (cases r) (auto simp: span_digits_def list_all_iff)

lemma value_end_parts:
  assumes "value_end r"
  shows "r = [] \<or> \<not> is_digit (hd r)" "frac_part r = Some ([], r)" "exp_part r = Some ([], r)"
  using assms by (auto simp: value_end_def frac_part_def exp_part_def is_digit_def)

lemma nat_str_no_zero: "0 < n \<Longrightarrow> hd (nat_str n) \<noteq> CHR ''0''"
proof (induction n rule: nat_str.induct)
  case (1 n)
  have z: "CHR ''0'' = digit 0" by code_simp
  show ?case
  proof (cases "n < 10")
    case True
    with 1 show ?thesis by (subst nat_str.simps) (simp add: z digit_inject)
  next
    case False
    with 1 show ?thesis by (subst nat_str.simps) simp
  qed
qed

lemma int_part_nat_str: "value_end r \<Longrightarrow> int_part (nat_str n @ r) = Some (nat_str n, r)"
proof (cases "n = 0")
  case True
  have "nat_str 0 = ''0''" by code_simp
  with True show ?thesis by (simp add: int_part_def)
next
  case False
  assume "value_end r"
  then show ?thesis
    using False nat_str_no_zero [of n] span_digits_append [OF nat_str_digits [of n]]
      value_end_parts(1)
    by (simp add: int_part_def)
qed

lemma parse_num_Itoa: "value_end r \<Longrightarrow> parse_num (Itoa i @ r) = Some (Itoa i, r)"
  using digits_not [OF hd_nat_str, of "nat i"]
  by (cases "i < 0") (simp_all add: parse_num_def Itoa_def int_part_nat_str value_end_parts Let_def)

section \<open>Values\<close>

text \<open>The values the program writes: every number is an integer.\<close>

fun ok_json :: "json \<Rightarrow> bool"
  and ok_elems :: "json list \<Rightarrow> bool"
  and ok_members :: "(string \<times> json) list \<Rightarrow> bool" where
  "ok_json (JNum s) = int_literal s"
| "ok_json (JArr js) = ok_elems js"
| "ok_json (JObj kvs) = ok_members kvs"
| "ok_json JNull = True"
| "ok_json (JBool b) = True"
| "ok_json (JStr s) = True"
| "ok_elems [] = True"
| "ok_elems (j # js) = (ok_json j \<and> ok_elems js)"
| "ok_members [] = True"
| "ok_members ((k, j) # kvs) = (ok_json j \<and> ok_members kvs)"

lemma hd_Itoa: "\<exists>c cs. Itoa i = c # cs \<and> (c = CHR ''-'' \<or> is_digit c)"
  using hd_nat_str [of "nat i"]
  by (cases "nat_str (nat i)") (auto simp: Itoa_def)

lemma number_head:
  assumes "c = CHR ''-'' \<or> is_digit c"
  shows "c \<noteq> quote" "c \<noteq> CHR ''[''" "c \<noteq> CHR ''{''" "c \<noteq> CHR ''n''" "c \<noteq> CHR ''t''"
    "c \<noteq> CHR ''f''" "c \<noteq> CHR '']''" "\<not> json_ws c"
  using assms by (auto simp: is_digit_def quote_def json_ws_def)

lemma first_char:
  "ok_json j \<Longrightarrow> \<exists>c cs. print_json j = c # cs \<and> \<not> json_ws c \<and> c \<noteq> CHR '']''"
proof (cases j)
  case (JNum s)
  assume "ok_json j"
  with JNum hd_Itoa number_head show ?thesis by (fastforce simp: int_literal_def)
qed (auto simp: print_str_def json_ws_def quote_def)

lemma skip_ws_Cons [simp]: "\<not> json_ws c \<Longrightarrow> skip_ws (c # cs) = c # cs"
  by (simp add: skip_ws_def)

lemma not_ws [simp]:
  "\<not> json_ws quote" "\<not> json_ws CHR ''[''" "\<not> json_ws CHR '']''" "\<not> json_ws CHR ''{''"
  "\<not> json_ws CHR ''}''" "\<not> json_ws CHR '',''" "\<not> json_ws CHR '':''" "\<not> json_ws CHR ''n''"
  "\<not> json_ws CHR ''t''" "\<not> json_ws CHR ''f''"
  by code_simp+

lemma heads_differ [simp]:
  "quote \<noteq> CHR ''[''" "quote \<noteq> CHR ''{''" "quote \<noteq> CHR ''}''" "CHR ''['' \<noteq> quote" "CHR ''{'' \<noteq> quote"
  "CHR ''n'' \<noteq> quote" "CHR ''t'' \<noteq> quote" "CHR ''f'' \<noteq> quote"
  by code_simp+

lemma HasPrefix_Cons: "HasPrefix (c # cs) (d # ds) \<longleftrightarrow> c = d \<and> HasPrefix cs ds"
  by (auto simp: HasPrefix_def)

lemma HasPrefix_Nil [simp]: "HasPrefix s []"
  by (simp add: HasPrefix_def)

lemma parse_val_number:
  assumes "int_literal s" "value_end r"
  shows "parse_val (Suc n) (s @ r) = Some (JNum s, r)"
proof -
  obtain i where i: "s = Itoa i" using assms(1) by (auto simp: int_literal_def)
  obtain c cs where c: "s = c # cs" "c = CHR ''-'' \<or> is_digit c" using hd_Itoa [of i] i by auto
  have "parse_num (c # cs @ r) = Some (s, r)" using parse_num_Itoa [OF assms(2), of i] unfolding c(1) [symmetric] i
    by (metis append_Cons c(1) i)
  with c(1) number_head [OF c(2)] show ?thesis by (simp add: HasPrefix_Cons)
qed

lemma parse_print:
  "ok_json j \<Longrightarrow> value_end r \<Longrightarrow> 2 * length (print_json j) \<le> n \<Longrightarrow>
     parse_val n (print_json j @ r) = Some (j, r)"
  "ok_elems js \<Longrightarrow> js \<noteq> [] \<Longrightarrow> 2 * length (print_elems js) + 1 \<le> n \<Longrightarrow>
     parse_elems n (print_elems js @ CHR '']'' # r) = Some (js, r)"
  "ok_members kvs \<Longrightarrow> kvs \<noteq> [] \<Longrightarrow> 2 * length (print_members kvs) + 1 \<le> n \<Longrightarrow>
     parse_members n (print_members kvs @ CHR ''}'' # r) = Some (kvs, r)"
proof (induction j and js and kvs arbitrary: n r and n r and n r
    rule: print_json_print_elems_print_members.induct)
  case 1
  then obtain m where "n = Suc m" by (cases n) auto
  then show ?case by (simp add: HasPrefix_Cons)
next
  case (2 b)
  then obtain m where "n = Suc m" by (cases n) (auto split: if_splits)
  then show ?case by (simp add: HasPrefix_Cons)
next
  case (3 lit)
  from 3 have "lit \<noteq> []" by (metis hd_Itoa int_literal_def list.distinct(1) ok_json.simps(1))
  with 3(3) obtain m where "n = Suc m" by (cases n) auto
  with 3 parse_val_number show ?case by simp
next
  case (4 s)
  then obtain m where "n = Suc m" by (cases n) (auto simp: print_str_def)
  then show ?case by (simp add: print_str_def parse_str_written)
next
  case (5 js)
  then obtain m where n: "n = Suc m" by (cases n) auto
  show ?case
  proof (cases js)
    case Nil
    with n show ?thesis by (simp add: HasPrefix_Cons)
  next
    case (Cons j js')
    with 5 obtain c cs where c: "print_json j = c # cs" "\<not> json_ws c" "c \<noteq> CHR '']''"
      using first_char [of j] by auto
    then have s: "skip_ws (print_elems js @ CHR '']'' # r) = print_elems js @ CHR '']'' # r"
      "\<not> HasPrefix (print_elems js @ CHR '']'' # r) '']''"
      by (simp_all add: Cons HasPrefix_Cons)
    have "parse_elems m (print_elems js @ CHR '']'' # r) = Some (js, r)"
      using 5 n Cons by (intro 5(1)) auto
    with s n show ?thesis by simp
  qed
next
  case (6 kvs)
  then obtain m where n: "n = Suc m" by (cases n) auto
  show ?case
  proof (cases kvs)
    case Nil
    with n show ?thesis by (simp add: HasPrefix_Cons)
  next
    case (Cons kv kvs')
    obtain k j where kv: "kv = (k, j)" by (cases kv)
    have s: "skip_ws (print_members kvs @ CHR ''}'' # r) = print_members kvs @ CHR ''}'' # r"
      "\<not> HasPrefix (print_members kvs @ CHR ''}'' # r) ''}''"
      by (simp_all add: Cons kv HasPrefix_Cons print_str_def)
    have "parse_members m (print_members kvs @ CHR ''}'' # r) = Some (kvs, r)"
      using 6 n Cons by (intro 6(1)) auto
    with s n show ?thesis by simp
  qed
next
  case 7
  then show ?case by simp
next
  case (8 j js)
  then obtain m where n: "n = Suc m" by (cases n) auto
  let ?t = "(if js = [] then [] else CHR '','' # print_elems js) @ CHR '']'' # r"
  have "parse_val m (print_json j @ ?t) = Some (j, ?t)"
    using 8 n by (intro 8(1)) (auto simp: value_end_def)
  moreover have "js \<noteq> [] \<Longrightarrow> parse_elems m (print_elems js @ CHR '']'' # r) = Some (js, r)"
    using 8 n by (intro 8(2)) auto
  ultimately show ?case by (cases "js = []") (simp_all add: n)
next
  case 9
  then show ?case by simp
next
  case (10 k j kvs)
  then obtain m where n: "n = Suc m" by (cases n) auto
  let ?t = "(if kvs = [] then [] else CHR '','' # print_members kvs) @ CHR ''}'' # r"
  have "parse_val m (print_json j @ ?t) = Some (j, ?t)"
    using 10 n by (intro 10(1)) (auto simp: value_end_def)
  moreover have "kvs \<noteq> [] \<Longrightarrow> parse_members m (print_members kvs @ CHR ''}'' # r) = Some (kvs, r)"
    using 10 n by (intro 10(2)) auto
  ultimately show ?case
    by (cases "kvs = []") (simp_all add: n print_str_def parse_str_written HasPrefix_Cons)
qed

lemma Unmarshal_print: "ok_json j \<Longrightarrow> Unmarshal (print_json j) = Some j"
  using parse_print(1) [of j "[]" "2 * length (print_json j) + 2"]
  by (simp add: Unmarshal_def value_end_def skip_ws_def)

section \<open>Structs\<close>

text \<open>
  Decoding into a struct. A decoder takes a key, a value and the struct so far; \<open>None\<close> is an
  error. The names of the fields that are read are all lower case, so a key matches a field
  when its lower-case form is the name.
\<close>

fun dec_obj :: "(string \<Rightarrow> json \<Rightarrow> 'a \<Rightarrow> 'a option) \<Rightarrow> (string \<times> json) list \<Rightarrow> 'a \<Rightarrow> 'a option" where
  "dec_obj f [] a = Some a"
| "dec_obj f ((k, v) # kvs) a =
     (case f (ToLower k) v a of None \<Rightarrow> None | Some a' \<Rightarrow> dec_obj f kvs a')"

definition dec_struct :: "(string \<Rightarrow> json \<Rightarrow> 'a \<Rightarrow> 'a option) \<Rightarrow> json \<Rightarrow> 'a \<Rightarrow> 'a option" where
  "dec_struct f v a =
     (case v of JObj kvs \<Rightarrow> dec_obj f kvs a | JNull \<Rightarrow> Some a | _ \<Rightarrow> None)"

definition dec_str :: "json \<Rightarrow> string \<Rightarrow> string option" where
  "dec_str v old = (case v of JStr s \<Rightarrow> Some s | JNull \<Rightarrow> Some old | _ \<Rightarrow> None)"

definition dec_int :: "json \<Rightarrow> int \<Rightarrow> int option" where
  "dec_int v old = (case v of JNum l \<Rightarrow> ParseInt l | JNull \<Rightarrow> Some old | _ \<Rightarrow> None)"

definition dec_bool :: "json \<Rightarrow> bool \<Rightarrow> bool option" where
  "dec_bool v old = (case v of JBool b \<Rightarrow> Some b | JNull \<Rightarrow> Some old | _ \<Rightarrow> None)"

definition dec_list :: "(json \<Rightarrow> 'a option) \<Rightarrow> json \<Rightarrow> 'a list option" where
  "dec_list f v = (case v of JArr vs \<Rightarrow> those (map f vs) | JNull \<Rightarrow> Some [] | _ \<Rightarrow> None)"

definition dec_strs :: "json \<Rightarrow> string list option" where
  "dec_strs v = dec_list (\<lambda>x. dec_str x []) v"

definition JInt :: "int \<Rightarrow> json" where
  "JInt i = JNum (Itoa i)"

definition JStrs :: "string list \<Rightarrow> json" where
  "JStrs ss = JArr (map JStr ss)"

definition int64 :: "int \<Rightarrow> bool" where
  "int64 i \<longleftrightarrow> min_int64 \<le> i \<and> i \<le> max_int64"

lemma dec_str_JStr [simp]: "dec_str (JStr s) old = Some s"
  by (simp add: dec_str_def)

lemma dec_int_JInt [simp]: "int64 i \<Longrightarrow> dec_int (JInt i) old = Some i"
  by (simp add: dec_int_def JInt_def ParseInt_Itoa int64_def)

lemma dec_bool_JBool [simp]: "dec_bool (JBool b) old = Some b"
  by (simp add: dec_bool_def)

lemma those_map_Some: "\<forall>x \<in> set xs. f (g x) = Some (h x) \<Longrightarrow> those (map f (map g xs)) = Some (map h xs)"
  by (induction xs) auto

lemma dec_list_written:
  "\<forall>x \<in> set xs. f (g x) = Some x \<Longrightarrow> dec_list f (JArr (map g xs)) = Some xs"
  using those_map_Some [of xs f g id] by (simp add: dec_list_def)

lemma dec_strs_JStrs [simp]: "dec_strs (JStrs ss) = Some ss"
  by (simp add: dec_strs_def JStrs_def dec_list_written)

lemma ok_JInt [simp]: "ok_json (JInt i)"
  by (auto simp: JInt_def int_literal_def)

lemma ok_elems_map: "ok_elems (map f xs) = (\<forall>x \<in> set xs. ok_json (f x))"
  by (induction xs) auto

lemma ok_JStrs [simp]: "ok_json (JStrs ss)"
  by (simp add: JStrs_def ok_elems_map)

lemma ok_members_append [simp]: "ok_members (xs @ ys) = (ok_members xs \<and> ok_members ys)"
  by (induction xs) auto

lemma dec_obj_append:
  "dec_obj f (xs @ ys) a = (case dec_obj f xs a of None \<Rightarrow> None | Some b \<Rightarrow> dec_obj f ys b)"
  by (induction xs arbitrary: a) (auto split: option.splits)

end
