(* ===== verification/Tokens.thy ===== *)
theory Tokens
  imports ConfigData Json
begin

text \<open>
  The signed tokens of \<open>internal/auth\<close>: the session of \<open>auth.go\<close>, the ticket that carries a
  login to another host, and the pending second factor of \<open>login_flow.go\<close>. All three are the
  RawURL base 64 of a JSON object, a dot, and the base 64 of a MAC of the first part.

  The MAC (HMAC-SHA256) is the argument \<open>mac\<close>, from the key and the data to its bytes; nothing is
  assumed of it. The clock is the argument \<open>now\<close>, in nanoseconds since 1970. The locale
  \<open>signed_payload\<close> states what a payload type has to promise; it is interpreted for the three.
\<close>

section \<open>Payloads\<close>

record UserClaims =
  uc_Sub :: string
  uc_Email :: string
  uc_Name :: string
  uc_Groups :: "string list"

record sessionPayload =
  sp_User :: UserClaims
  sp_Epoch :: int
  sp_Exp :: int

record ticketPayload =
  tp_User :: UserClaims
  tp_Aud :: string
  tp_Exp :: int

record pendingPayload =
  pp_User :: UserClaims
  pp_Return :: string
  pp_Exp :: int

definition no_claims :: UserClaims where
  "no_claims = \<lparr>uc_Sub = [], uc_Email = [], uc_Name = [], uc_Groups = []\<rparr>"

definition claims_json :: "UserClaims \<Rightarrow> (string \<times> json) list" where
  "claims_json u =
     [(''sub'', JStr (uc_Sub u)), (''email'', JStr (uc_Email u)), (''name'', JStr (uc_Name u))] @
     (if uc_Groups u = [] then [] else [(''groups'', JStrs (uc_Groups u))])"

definition session_json :: "sessionPayload \<Rightarrow> (string \<times> json) list" where
  "session_json p =
     claims_json (sp_User p) @ [(''epoch'', JInt (sp_Epoch p)), (''exp'', JInt (sp_Exp p))]"

definition ticket_json :: "ticketPayload \<Rightarrow> (string \<times> json) list" where
  "ticket_json p =
     claims_json (tp_User p) @ [(''aud'', JStr (tp_Aud p)), (''exp'', JInt (tp_Exp p))]"

definition pending_json :: "pendingPayload \<Rightarrow> (string \<times> json) list" where
  "pending_json p =
     claims_json (pp_User p) @ (if pp_Return p = [] then [] else [(''return'', JStr (pp_Return p))]) @
     [(''exp'', JInt (pp_Exp p))]"

text \<open>The embedded claims read their own fields; \<open>None\<close> in \<open>claims_field\<close> is no such field.\<close>

definition claims_field :: "string \<Rightarrow> json \<Rightarrow> UserClaims \<Rightarrow> UserClaims option option" where
  "claims_field k v u =
     (if k = ''sub'' then Some (map_option (\<lambda>s. u\<lparr>uc_Sub := s\<rparr>) (dec_str v (uc_Sub u)))
      else if k = ''email'' then Some (map_option (\<lambda>s. u\<lparr>uc_Email := s\<rparr>) (dec_str v (uc_Email u)))
      else if k = ''name'' then Some (map_option (\<lambda>s. u\<lparr>uc_Name := s\<rparr>) (dec_str v (uc_Name u)))
      else if k = ''groups'' then Some (map_option (\<lambda>ss. u\<lparr>uc_Groups := ss\<rparr>) (dec_strs v))
      else None)"

definition session_field :: "string \<Rightarrow> json \<Rightarrow> sessionPayload \<Rightarrow> sessionPayload option" where
  "session_field k v p =
     (case claims_field k v (sp_User p) of
        Some r \<Rightarrow> map_option (\<lambda>u. p\<lparr>sp_User := u\<rparr>) r
      | None \<Rightarrow>
          if k = ''epoch'' then map_option (\<lambda>i. p\<lparr>sp_Epoch := i\<rparr>) (dec_int v (sp_Epoch p))
          else if k = ''exp'' then map_option (\<lambda>i. p\<lparr>sp_Exp := i\<rparr>) (dec_int v (sp_Exp p))
          else Some p)"

definition ticket_field :: "string \<Rightarrow> json \<Rightarrow> ticketPayload \<Rightarrow> ticketPayload option" where
  "ticket_field k v p =
     (case claims_field k v (tp_User p) of
        Some r \<Rightarrow> map_option (\<lambda>u. p\<lparr>tp_User := u\<rparr>) r
      | None \<Rightarrow>
          if k = ''aud'' then map_option (\<lambda>s. p\<lparr>tp_Aud := s\<rparr>) (dec_str v (tp_Aud p))
          else if k = ''exp'' then map_option (\<lambda>i. p\<lparr>tp_Exp := i\<rparr>) (dec_int v (tp_Exp p))
          else Some p)"

definition pending_field :: "string \<Rightarrow> json \<Rightarrow> pendingPayload \<Rightarrow> pendingPayload option" where
  "pending_field k v p =
     (case claims_field k v (pp_User p) of
        Some r \<Rightarrow> map_option (\<lambda>u. p\<lparr>pp_User := u\<rparr>) r
      | None \<Rightarrow>
          if k = ''return'' then map_option (\<lambda>s. p\<lparr>pp_Return := s\<rparr>) (dec_str v (pp_Return p))
          else if k = ''exp'' then map_option (\<lambda>i. p\<lparr>pp_Exp := i\<rparr>) (dec_int v (pp_Exp p))
          else Some p)"

definition no_session :: sessionPayload where
  "no_session = \<lparr>sp_User = no_claims, sp_Epoch = 0, sp_Exp = 0\<rparr>"

definition no_ticket :: ticketPayload where
  "no_ticket = \<lparr>tp_User = no_claims, tp_Aud = [], tp_Exp = 0\<rparr>"

definition no_pending :: pendingPayload where
  "no_pending = \<lparr>pp_User = no_claims, pp_Return = [], pp_Exp = 0\<rparr>"

definition unmarshal_session :: "string \<Rightarrow> sessionPayload option" where
  "unmarshal_session s =
     (case Unmarshal s of None \<Rightarrow> None | Some v \<Rightarrow> dec_struct session_field v no_session)"

definition unmarshal_ticket :: "string \<Rightarrow> ticketPayload option" where
  "unmarshal_ticket s =
     (case Unmarshal s of None \<Rightarrow> None | Some v \<Rightarrow> dec_struct ticket_field v no_ticket)"

definition unmarshal_pending :: "string \<Rightarrow> pendingPayload option" where
  "unmarshal_pending s =
     (case Unmarshal s of None \<Rightarrow> None | Some v \<Rightarrow> dec_struct pending_field v no_pending)"

section \<open>Issuing\<close>

type_synonym mac = "string \<Rightarrow> string \<Rightarrow> string"

definition hmacSign :: "mac \<Rightarrow> string \<Rightarrow> string \<Rightarrow> string" where
  "hmacSign mac secret data = RawURLEncode (mac secret data)"

definition Unix :: "time \<Rightarrow> int" where
  "Unix t = t div Second"

text \<open>The body shared by \<open>IssueSession\<close>, \<open>createTicket\<close> and \<open>IssuePending\<close>.\<close>

definition sign_payload :: "mac \<Rightarrow> string \<Rightarrow> (string \<times> json) list \<Rightarrow> string" where
  "sign_payload mac secret kvs =
     (let b64 = RawURLEncode (print_json (JObj kvs))
      in b64 @ CHR ''.'' # hmacSign mac secret b64)"

definition session_hours :: "Config \<Rightarrow> int" where
  "session_hours cfg = (if cf_SessionHours cfg \<le> 0 then 12 else cf_SessionHours cfg)"

text \<open>\<open>time.Duration(hours) * time.Hour\<close> is a product of 64-bit integers.\<close>

definition session_exp :: "Config \<Rightarrow> time \<Rightarrow> int" where
  "session_exp cfg now = Unix (now + wrap64 (session_hours cfg * (60 * Minute)))"

definition IssueSession :: "mac \<Rightarrow> Config \<Rightarrow> time \<Rightarrow> UserClaims \<Rightarrow> string" where
  "IssueSession mac cfg now u =
     sign_payload mac (cf_SessionSecret cfg)
       (session_json \<lparr>sp_User = u, sp_Epoch = cf_SessionEpoch cfg, sp_Exp = session_exp cfg now\<rparr>)"

definition createTicket :: "mac \<Rightarrow> Config \<Rightarrow> time \<Rightarrow> UserClaims \<Rightarrow> string \<Rightarrow> string" where
  "createTicket mac cfg now u audience =
     sign_payload mac (cf_SessionSecret cfg)
       (ticket_json \<lparr>tp_User = u, tp_Aud = audience, tp_Exp = Unix (now + 60 * Second)\<rparr>)"

definition IssuePending :: "mac \<Rightarrow> Config \<Rightarrow> time \<Rightarrow> UserClaims \<Rightarrow> string \<Rightarrow> string" where
  "IssuePending mac cfg now u returnURL =
     sign_payload mac (cf_SessionSecret cfg)
       (pending_json \<lparr>pp_User = u, pp_Return = returnURL, pp_Exp = Unix (now + 5 * Minute)\<rparr>)"

section \<open>Checking\<close>

datatype token_error = Malformed | BadSignature | BadBase64 | BadJson | Expired | Revoked | WrongHost

definition NormalizeAudience :: "string \<Rightarrow> string" where
  "NormalizeAudience h =
     (let h = ToLower (TrimSpace h)
      in case IndexByte h (CHR '':'') of None \<Rightarrow> h | Some i \<Rightarrow> take i h)"

definition ValidateSession :: "mac \<Rightarrow> Config \<Rightarrow> time \<Rightarrow> string \<Rightarrow> token_error + UserClaims" where
  "ValidateSession mac cfg now token =
     (case Split token (CHR ''.'') of
        [b64, sig] \<Rightarrow>
          if hmacSign mac (cf_SessionSecret cfg) b64 \<noteq> sig then Inl BadSignature
          else (case RawURLDecode b64 of
                  None \<Rightarrow> Inl BadBase64
                | Some raw \<Rightarrow>
                    (case unmarshal_session raw of
                       None \<Rightarrow> Inl BadJson
                     | Some sp \<Rightarrow>
                         if Unix now \<ge> sp_Exp sp then Inl Expired
                         else if sp_Epoch sp \<noteq> cf_SessionEpoch cfg then Inl Revoked
                         else Inr (sp_User sp)))
      | _ \<Rightarrow> Inl Malformed)"

definition verifyTicket ::
  "mac \<Rightarrow> Config \<Rightarrow> time \<Rightarrow> string \<Rightarrow> string \<Rightarrow> token_error + UserClaims" where
  "verifyTicket mac cfg now token audience =
     (case Split token (CHR ''.'') of
        [b64, sig] \<Rightarrow>
          if hmacSign mac (cf_SessionSecret cfg) b64 \<noteq> sig then Inl BadSignature
          else (case RawURLDecode b64 of
                  None \<Rightarrow> Inl BadBase64
                | Some raw \<Rightarrow>
                    (case unmarshal_ticket raw of
                       None \<Rightarrow> Inl BadJson
                     | Some tp \<Rightarrow>
                         if Unix now \<ge> tp_Exp tp then Inl Expired
                         else if \<not> EqualFold (NormalizeAudience (tp_Aud tp)) (NormalizeAudience audience)
                           then Inl WrongHost
                         else Inr (tp_User tp)))
      | _ \<Rightarrow> Inl Malformed)"

text \<open>\<open>ValidatePending\<close> decodes before it compares the signature.\<close>

definition ValidatePending ::
  "mac \<Rightarrow> Config \<Rightarrow> time \<Rightarrow> string \<Rightarrow> token_error + pendingPayload" where
  "ValidatePending mac cfg now token =
     (case Split token (CHR ''.'') of
        [b64, sig] \<Rightarrow>
          (case RawURLDecode b64 of
             None \<Rightarrow> Inl BadBase64
           | Some raw \<Rightarrow>
               (case unmarshal_pending raw of
                  None \<Rightarrow> Inl BadJson
                | Some pp \<Rightarrow>
                    if hmacSign mac (cf_SessionSecret cfg) b64 \<noteq> sig then Inl BadSignature
                    else if Unix now \<ge> pp_Exp pp then Inl Expired
                    else Inr pp))
      | _ \<Rightarrow> Inl Malformed)"

text \<open>\<open>RevokeAllSessions\<close> draws a new secret (32 random bytes, in hexadecimal) and moves on the epoch.\<close>

definition RevokeAllSessions :: "string \<Rightarrow> Config \<Rightarrow> Config" where
  "RevokeAllSessions raw cfg =
     cfg\<lparr>cf_SessionSecret := HexEncode raw, cf_SessionEpoch := wrap64 (cf_SessionEpoch cfg + 1)\<rparr>"

section \<open>What a payload promises\<close>

text \<open>
  A payload type: how it is written, how its fields are read, and the zero value decoding starts
  from. What was written decodes to itself, from the signed token too.
\<close>

locale signed_payload =
  fixes emit :: "'p \<Rightarrow> (string \<times> json) list"
    and read :: "string \<Rightarrow> json \<Rightarrow> 'p \<Rightarrow> 'p option"
    and zero :: 'p
    and ok :: "'p \<Rightarrow> bool"
  assumes read_emit: "ok p \<Longrightarrow> dec_obj read (emit p) zero = Some p"
    and emit_ok: "ok_members (emit p)"
begin

lemma unmarshal_any:
  "ok_members kvs \<Longrightarrow> (case Unmarshal (print_json (JObj kvs)) of None \<Rightarrow> None
     | Some v \<Rightarrow> dec_struct read v zero) = dec_obj read kvs zero"
  by (simp add: Unmarshal_print dec_struct_def del: print_json.simps)

lemma unmarshal_written:
  "ok p \<Longrightarrow> (case Unmarshal (print_json (JObj (emit p))) of None \<Rightarrow> None
     | Some v \<Rightarrow> dec_struct read v zero) = Some p"
  by (simp add: Unmarshal_print emit_ok read_emit dec_struct_def del: print_json.simps)

end

text \<open>Both parts of a signed token are base 64, so the dot splits it in two.\<close>

lemma no_dot: "CHR ''.'' \<notin> set url_alphabet"
  by code_simp

lemma Split_sign_payload:
  "Split (sign_payload mac secret fs) (CHR ''.'') =
     [RawURLEncode (print_json (JObj fs)),
      hmacSign mac secret (RawURLEncode (print_json (JObj fs)))]"
  using rawurl.enc_alph [of "mac secret (RawURLEncode (print_json (JObj fs)))"] no_dot
  unfolding sign_payload_def Let_def
  by (intro rawurl.split_signed) (auto simp: hmacSign_def)

lemma keys [simp]:
  "ToLower ''sub'' = ''sub''" "ToLower ''email'' = ''email''" "ToLower ''name'' = ''name''"
  "ToLower ''groups'' = ''groups''" "ToLower ''epoch'' = ''epoch''" "ToLower ''exp'' = ''exp''"
  "ToLower ''aud'' = ''aud''" "ToLower ''return'' = ''return''"
  by code_simp+

lemma claims_field_simps [simp]:
  "claims_field ''sub'' v u = Some (map_option (\<lambda>s. u\<lparr>uc_Sub := s\<rparr>) (dec_str v (uc_Sub u)))"
  "claims_field ''email'' v u = Some (map_option (\<lambda>s. u\<lparr>uc_Email := s\<rparr>) (dec_str v (uc_Email u)))"
  "claims_field ''name'' v u = Some (map_option (\<lambda>s. u\<lparr>uc_Name := s\<rparr>) (dec_str v (uc_Name u)))"
  "claims_field ''groups'' v u = Some (map_option (\<lambda>ss. u\<lparr>uc_Groups := ss\<rparr>) (dec_strs v))"
  "claims_field ''epoch'' v u = None" "claims_field ''exp'' v u = None"
  "claims_field ''aud'' v u = None" "claims_field ''return'' v u = None"
  by (simp_all add: claims_field_def)

lemma claims_rebuilt:
  "w\<lparr>uc_Sub := uc_Sub u, uc_Email := uc_Email u, uc_Name := uc_Name u, uc_Groups := uc_Groups u\<rparr> = u"
  "uc_Groups w = [] \<Longrightarrow> uc_Groups u = [] \<Longrightarrow>
   w\<lparr>uc_Sub := uc_Sub u, uc_Email := uc_Email u, uc_Name := uc_Name u\<rparr> = u"
  for u w :: UserClaims
  by (cases w; cases u; simp)+

text \<open>Reading the embedded claims, whatever struct they are embedded in.\<close>

lemma dec_claims:
  assumes f: "\<And>k v a r. claims_field k v (get a) = Some r \<Longrightarrow> f k v a = map_option (put a) r"
    and g: "\<And>a u. get (put a u) = u" and p: "\<And>a u w. put (put a u) w = put a w"
    and e: "uc_Groups (get a) = []"
  shows "dec_obj f (claims_json u @ rest) a = dec_obj f rest (put a u)"
  by (cases "uc_Groups u = []") (simp_all add: claims_json_def f g p e claims_rebuilt)

lemma dec_session_claims:
  "uc_Groups (sp_User p) = [] \<Longrightarrow> dec_obj session_field (claims_json u @ rest) p =
     dec_obj session_field rest (p\<lparr>sp_User := u\<rparr>)"
  by (rule dec_claims [where get = sp_User and put = "\<lambda>p u. p\<lparr>sp_User := u\<rparr>"])
    (simp_all add: session_field_def)

lemma dec_ticket_claims:
  "uc_Groups (tp_User p) = [] \<Longrightarrow> dec_obj ticket_field (claims_json u @ rest) p =
     dec_obj ticket_field rest (p\<lparr>tp_User := u\<rparr>)"
  by (rule dec_claims [where get = tp_User and put = "\<lambda>p u. p\<lparr>tp_User := u\<rparr>"])
    (simp_all add: ticket_field_def)

lemma dec_pending_claims:
  "uc_Groups (pp_User p) = [] \<Longrightarrow> dec_obj pending_field (claims_json u @ rest) p =
     dec_obj pending_field rest (p\<lparr>pp_User := u\<rparr>)"
  by (rule dec_claims [where get = pp_User and put = "\<lambda>p u. p\<lparr>pp_User := u\<rparr>"])
    (simp_all add: pending_field_def)

lemma zero_groups [simp]:
  "uc_Groups (sp_User no_session) = []" "uc_Groups (tp_User no_ticket) = []"
  "uc_Groups (pp_User no_pending) = []"
  by (simp_all add: no_session_def no_ticket_def no_pending_def no_claims_def)

text \<open>Every kind of payload read as every kind: a missing field keeps its zero value.\<close>

lemma dec_as_session:
  "int64 (sp_Epoch s) \<Longrightarrow> int64 (sp_Exp s) \<Longrightarrow>
     dec_obj session_field (session_json s) no_session = Some s"
  "int64 (tp_Exp t) \<Longrightarrow> dec_obj session_field (ticket_json t) no_session =
     Some \<lparr>sp_User = tp_User t, sp_Epoch = 0, sp_Exp = tp_Exp t\<rparr>"
  "int64 (pp_Exp q) \<Longrightarrow> dec_obj session_field (pending_json q) no_session =
     Some \<lparr>sp_User = pp_User q, sp_Epoch = 0, sp_Exp = pp_Exp q\<rparr>"
  by (simp_all add: session_json_def ticket_json_def pending_json_def dec_session_claims)
    (simp_all add: session_field_def no_session_def)

lemma dec_as_ticket:
  "int64 (tp_Exp t) \<Longrightarrow> dec_obj ticket_field (ticket_json t) no_ticket = Some t"
  "int64 (sp_Epoch s) \<Longrightarrow> int64 (sp_Exp s) \<Longrightarrow> dec_obj ticket_field (session_json s) no_ticket =
     Some \<lparr>tp_User = sp_User s, tp_Aud = [], tp_Exp = sp_Exp s\<rparr>"
  "int64 (pp_Exp q) \<Longrightarrow> dec_obj ticket_field (pending_json q) no_ticket =
     Some \<lparr>tp_User = pp_User q, tp_Aud = [], tp_Exp = pp_Exp q\<rparr>"
  by (simp_all add: session_json_def ticket_json_def pending_json_def dec_ticket_claims)
    (simp_all add: ticket_field_def no_ticket_def)

lemma dec_as_pending:
  "int64 (pp_Exp q) \<Longrightarrow> dec_obj pending_field (pending_json q) no_pending = Some q"
  "int64 (sp_Epoch s) \<Longrightarrow> int64 (sp_Exp s) \<Longrightarrow> dec_obj pending_field (session_json s) no_pending =
     Some \<lparr>pp_User = sp_User s, pp_Return = [], pp_Exp = sp_Exp s\<rparr>"
  "int64 (tp_Exp t) \<Longrightarrow> dec_obj pending_field (ticket_json t) no_pending =
     Some \<lparr>pp_User = tp_User t, pp_Return = [], pp_Exp = tp_Exp t\<rparr>"
  by (simp_all add: session_json_def ticket_json_def pending_json_def dec_pending_claims)
    (simp_all add: pending_field_def no_pending_def)

lemma claims_ok: "ok_members (claims_json u)"
  by (simp add: claims_json_def)

lemma payloads_ok:
  "ok_members (session_json s)" "ok_members (ticket_json t)" "ok_members (pending_json q)"
  by (simp_all add: session_json_def ticket_json_def pending_json_def claims_ok)

interpretation sess: signed_payload session_json session_field no_session
  "\<lambda>p. int64 (sp_Epoch p) \<and> int64 (sp_Exp p)"
  by unfold_locales (simp_all add: dec_as_session payloads_ok)

interpretation tick: signed_payload ticket_json ticket_field no_ticket "\<lambda>p. int64 (tp_Exp p)"
  by unfold_locales (simp_all add: dec_as_ticket payloads_ok)

interpretation pend: signed_payload pending_json pending_field no_pending "\<lambda>p. int64 (pp_Exp p)"
  by unfold_locales (simp_all add: dec_as_pending payloads_ok)

section \<open>Verdicts\<close>

definition session_verdict ::
  "Config \<Rightarrow> time \<Rightarrow> sessionPayload option \<Rightarrow> token_error + UserClaims" where
  "session_verdict cfg now sp =
     (case sp of
        None \<Rightarrow> Inl BadJson
      | Some p \<Rightarrow> if Unix now \<ge> sp_Exp p then Inl Expired
                  else if sp_Epoch p \<noteq> cf_SessionEpoch cfg then Inl Revoked
                  else Inr (sp_User p))"

lemma ValidateSession_signed:
  assumes "ok_members kvs"
  shows "ValidateSession mac cfg now (sign_payload mac (cf_SessionSecret cfg) kvs) =
     session_verdict cfg now (dec_obj session_field kvs no_session)"
  using sess.unmarshal_any [OF assms]
  by (simp add: ValidateSession_def Split_sign_payload rawurl.dec_enc unmarshal_session_def
      session_verdict_def split: option.split)

lemma ValidateSession_sound:
  "ValidateSession mac cfg now token = Inr u \<longleftrightarrow>
     (\<exists>b64 raw sp. token = b64 @ CHR ''.'' # hmacSign mac (cf_SessionSecret cfg) b64 \<and>
        RawURLDecode b64 = Some raw \<and> unmarshal_session raw = Some sp \<and>
        Unix now < sp_Exp sp \<and> sp_Epoch sp = cf_SessionEpoch cfg \<and> u = sp_User sp)"
    (is "_ \<longleftrightarrow> ?R")
proof
  assume v: "ValidateSession mac cfg now token = Inr u"
  then obtain b64 sig where s: "Split token (CHR ''.'') = [b64, sig]"
    by (auto simp: ValidateSession_def split: list.splits)
  have "token = b64 @ CHR ''.'' # sig" using Join_Split [of token "CHR ''.''"] s by simp
  with v s show ?R
    by (auto simp: ValidateSession_def split: if_splits option.splits)
next
  assume ?R
  then obtain b64 raw sp where r: "token = b64 @ CHR ''.'' # hmacSign mac (cf_SessionSecret cfg) b64"
    "RawURLDecode b64 = Some raw" "unmarshal_session raw = Some sp" "Unix now < sp_Exp sp"
    "sp_Epoch sp = cf_SessionEpoch cfg" "u = sp_User sp" by auto
  have "set xs \<subseteq> set url_alphabet" if "digits url_alphabet xs = Some ds" for xs ds
    using that
    by (induction xs arbitrary: ds) (auto split: option.splits dest!: IndexByte_Some)
  then have "CHR ''.'' \<notin> set b64"
    using r(2) no_dot by (fastforce simp: RawURLDecode_def strip_newlines_def split: option.splits)
  moreover have "CHR ''.'' \<notin> set (hmacSign mac (cf_SessionSecret cfg) b64)"
    using rawurl.enc_alph no_dot by (auto simp: hmacSign_def)
  ultimately show "ValidateSession mac cfg now token = Inr u"
    using r by (simp add: ValidateSession_def Split_two)
qed

lemma verifyTicket_signed:
  assumes "ok_members kvs" "dec_obj ticket_field kvs no_ticket = Some p"
  shows "verifyTicket mac cfg now (sign_payload mac (cf_SessionSecret cfg) kvs) host =
     (if Unix now \<ge> tp_Exp p then Inl Expired
      else if EqualFold (NormalizeAudience (tp_Aud p)) (NormalizeAudience host) then Inr (tp_User p)
      else Inl WrongHost)"
  using tick.unmarshal_any [OF assms(1)] assms(2)
  by (simp add: verifyTicket_def Split_sign_payload rawurl.dec_enc unmarshal_ticket_def)

lemma ValidatePending_signed:
  assumes "ok_members kvs" "dec_obj pending_field kvs no_pending = Some p"
  shows "ValidatePending mac cfg now (sign_payload mac (cf_SessionSecret cfg) kvs) =
     (if Unix now \<ge> pp_Exp p then Inl Expired else Inr p)"
  using pend.unmarshal_any [OF assms(1)] assms(2)
  by (simp add: ValidatePending_def Split_sign_payload rawurl.dec_enc unmarshal_pending_def)

section \<open>Properties\<close>

text \<open>
  C10: A session token is accepted exactly until its expiry and only under the epoch it was issued
  in, and gives back the claims it was issued for, as long as the secret is the same.
\<close>

theorem issued_session_verdict:
  assumes "cf_SessionSecret cfg' = cf_SessionSecret cfg" "int64 (cf_SessionEpoch cfg)"
    "int64 (session_exp cfg now)"
  shows "ValidateSession mac cfg' now' (IssueSession mac cfg now u) =
     (if session_exp cfg now \<le> Unix now' then Inl Expired
      else if cf_SessionEpoch cfg \<noteq> cf_SessionEpoch cfg' then Inl Revoked
      else Inr u)"
  using assms
  by (simp add: IssueSession_def ValidateSession_signed payloads_ok dec_as_session
      session_verdict_def flip: assms(1))

text \<open>
  C9: A session is accepted only if it carries, behind the dot, the MAC of what precedes it under
  the current secret: accepting a token nobody signed means forging the MAC. The claims are those
  of the signed payload, whose expiry lies ahead and whose epoch is the current one.
\<close>

theorem accepted_session_is_signed:
  "(ValidateSession mac cfg now token = Inr u) =
     (\<exists>b64 raw sp. token = b64 @ CHR ''.'' # hmacSign mac (cf_SessionSecret cfg) b64 \<and>
        RawURLDecode b64 = Some raw \<and> unmarshal_session raw = Some sp \<and>
        Unix now < sp_Exp sp \<and> sp_Epoch sp = cf_SessionEpoch cfg \<and> u = sp_User sp)"
  by (rule ValidateSession_sound)

text \<open>
  \<open>RevokeAllSessions\<close> ends every session: no token issued before it is accepted after it, at
  any time, whatever the new secret is and even if two secrets gave the same MAC.
\<close>

theorem revocation_ends_sessions:
  assumes "int64 (cf_SessionEpoch cfg)" "int64 (session_exp cfg now)"
  shows "ValidateSession mac (RevokeAllSessions raw cfg) now' (IssueSession mac cfg now u) \<noteq> Inr u'"
proof
  let ?c = "RevokeAllSessions raw cfg"
  let ?p = "\<lparr>sp_User = u, sp_Epoch = cf_SessionEpoch cfg, sp_Exp = session_exp cfg now\<rparr>"
  let ?b = "RawURLEncode (print_json (JObj (session_json ?p)))"
  assume "ValidateSession mac ?c now' (IssueSession mac cfg now u) = Inr u'"
  moreover have "Split (IssueSession mac cfg now u) (CHR ''.'') =
      [?b, hmacSign mac (cf_SessionSecret cfg) ?b]"
    unfolding IssueSession_def by (rule Split_sign_payload)
  moreover have "unmarshal_session (print_json (JObj (session_json ?p))) = Some ?p"
    using sess.unmarshal_written [of ?p] assms by (simp add: unmarshal_session_def)
  ultimately have "cf_SessionEpoch cfg = cf_SessionEpoch ?c"
    by (auto simp: ValidateSession_def rawurl.dec_enc split: if_splits)
  then show False using wrap64_plus_1_neq [of "cf_SessionEpoch cfg"]
    by (simp add: RevokeAllSessions_def)
qed

lemma ticket_verdict:
  assumes "int64 (Unix (now + 60 * Second))"
  shows "verifyTicket mac cfg now' (createTicket mac cfg now u audience) host =
     (if Unix (now + 60 * Second) \<le> Unix now' then Inl Expired
      else if NormalizeAudience audience = NormalizeAudience host then Inr u
      else Inl WrongHost)"
proof -
  have *: "EqualFold (NormalizeAudience a) (NormalizeAudience b) \<longleftrightarrow>
      NormalizeAudience a = NormalizeAudience b" for a b
  proof -
    have "ToLower (take n (ToLower s)) = take n (ToLower s)" for n s
      by (metis ToLower_append ToLower_idem append_eq_append_conv append_take_drop_id length_ToLower)
    then have "ToLower (NormalizeAudience s) = NormalizeAudience s" for s
      by (simp add: NormalizeAudience_def Let_def split: option.split)
    then show ?thesis by (simp add: EqualFold_def)
  qed
  show ?thesis
    using assms unfolding createTicket_def
    by (subst verifyTicket_signed [OF payloads_ok(2) dec_as_ticket(1)]) (simp_all add: *)
qed

text \<open>
  A ticket is redeemed exactly until its expiry (a minute) and exactly at the host it was made
  for, compared without case, port or surrounding spaces; it gives back the claims, and redeeming
  it changes nothing, so it can be redeemed again until then.
\<close>

theorem issued_ticket_verdict:
  assumes "int64 (Unix (now + 60 * Second))"
  shows "verifyTicket mac cfg now' (createTicket mac cfg now u audience) host =
     (if Unix (now + 60 * Second) \<le> Unix now' then Inl Expired
      else if NormalizeAudience audience = NormalizeAudience host then Inr u
      else Inl WrongHost)"
  by (rule ticket_verdict [OF assms])

text \<open>
  The challenge of a login that still owes its second factor, issued for five minutes, is
  accepted for its own purpose with its claims and return address until then.
\<close>

theorem issued_pending_verdict:
  assumes "int64 (Unix (now + 5 * Minute))"
  shows "ValidatePending mac cfg now' (IssuePending mac cfg now u ret) =
     (if Unix (now + 5 * Minute) \<le> Unix now' then Inl Expired
      else Inr \<lparr>pp_User = u, pp_Return = ret, pp_Exp = Unix (now + 5 * Minute)\<rparr>)"
  using assms unfolding IssuePending_def
  by (subst ValidatePending_signed [OF payloads_ok(3) dec_as_pending(1)]) simp_all

text \<open>
  C11: The kinds of token are not kept apart: the three are signed with the same key in the same
  format, and a missing epoch decodes to 0. So while the session epoch is 0, as it is until
  sessions are first revoked, the challenge of a login that has not passed its second factor is
  itself a valid session, and so is a ticket; once the epoch has moved both are refused.
\<close>

theorem other_tokens_as_session:
  assumes "int64 (Unix (now + 5 * Minute))" "int64 (Unix (now + 60 * Second))"
  shows "ValidateSession mac cfg now' (IssuePending mac cfg now u ret) =
     (if Unix (now + 5 * Minute) \<le> Unix now' then Inl Expired
      else if cf_SessionEpoch cfg = 0 then Inr u else Inl Revoked) \<and>
   ValidateSession mac cfg now' (createTicket mac cfg now u audience) =
     (if Unix (now + 60 * Second) \<le> Unix now' then Inl Expired
      else if cf_SessionEpoch cfg = 0 then Inr u else Inl Revoked)"
  using assms
  by (simp add: IssuePending_def createTicket_def ValidateSession_signed payloads_ok
      dec_as_session session_verdict_def)

section \<open>Instances\<close>

definition plain_mac :: mac where
  "plain_mac secret data = secret @ data"

definition alice :: UserClaims where
  "alice = \<lparr>uc_Sub = ''ldap|alice'', uc_Email = ''alice@x'', uc_Name = ''A'', uc_Groups = [''g'']\<rparr>"

lemma numbers: "Second = 1000000000" "Minute = 60000000000"
  by (simp_all add: Minute_def Second_def)

lemma exp_sample [simp]: "session_exp no_config 0 = 43200"
  by (simp add: session_exp_def session_hours_def no_config_def Unix_def numbers wrap64_id
      min_int64_def max_int64_def)

theorem issued_session_verdict_witness:
  "ValidateSession plain_mac no_config Minute (IssueSession plain_mac no_config 0 alice) = Inr alice"
  using issued_session_verdict [of no_config no_config 0 plain_mac Minute alice]
  by (simp add: int64_def min_int64_def max_int64_def Unix_def numbers)

theorem revocation_ends_sessions_witness:
  "ValidateSession plain_mac (RevokeAllSessions ''r'' no_config) 0
     (IssueSession plain_mac no_config 0 alice) \<noteq> Inr alice"
  using revocation_ends_sessions [of no_config 0 plain_mac "''r''" 0 alice alice]
  by (simp add: int64_def min_int64_def max_int64_def)

theorem issued_ticket_verdict_witness:
  "verifyTicket plain_mac no_config 0 (createTicket plain_mac no_config 0 alice ''a.b'') ''A.b:443'' =
     Inr alice"
proof -
  have "NormalizeAudience ''a.b'' = NormalizeAudience ''A.b:443''" by code_simp
  then show ?thesis
    using issued_ticket_verdict [of 0 plain_mac no_config 0 alice "''a.b''" "''A.b:443''"]
    by (simp add: int64_def min_int64_def max_int64_def Unix_def numbers)
qed

theorem issued_pending_verdict_witness:
  "ValidatePending plain_mac no_config 0 (IssuePending plain_mac no_config 0 alice ''/p'') =
     Inr \<lparr>pp_User = alice, pp_Return = ''/p'', pp_Exp = 300\<rparr>"
  using issued_pending_verdict [of 0 plain_mac no_config 0 alice "''/p''"]
  by (simp add: int64_def min_int64_def max_int64_def Unix_def numbers)

theorem other_tokens_as_session_witness:
  "ValidateSession plain_mac no_config 0 (IssuePending plain_mac no_config 0 alice ''/p'') = Inr alice"
  using other_tokens_as_session [of 0 plain_mac no_config 0 alice "''/p''" "''a.b''"]
  by (simp add: int64_def min_int64_def max_int64_def Unix_def numbers)

end
