(* ===== verification/Secrets.thy ===== *)
theory Secrets
  imports ConfigData Codec
begin

text \<open>
  \<open>internal/secrets\<close>: the values of the configuration that are kept encrypted. A sealed text is
  marked by its prefix: \<open>dpapi1:\<close> for Windows' own protection, \<open>enc1:\<close> for AES-GCM under the
  key file.

  AES-GCM and DPAPI are arguments, in the record \<open>crypto\<close>; \<open>crypto_ok\<close> states what they document:
  what was sealed under a key and a nonce opens under them. The key file is part of the state,
  because reading it can create it. The random bytes an operation draws are arguments too: the
  key it would create and one nonce for each value it seals.
\<close>

section \<open>The key file\<close>

record crypto =
  cr_supported :: bool
  cr_dpapiSeal :: "string \<Rightarrow> string option"
  cr_dpapiOpen :: "string \<Rightarrow> string option"
  cr_seal :: "string \<Rightarrow> string \<Rightarrow> string \<Rightarrow> string"
  cr_open :: "string \<Rightarrow> string \<Rightarrow> string \<Rightarrow> string option"

definition crypto_ok :: "crypto \<Rightarrow> bool" where
  "crypto_ok cr \<longleftrightarrow>
     (\<forall>key nonce pt. length key = 32 \<longrightarrow> length nonce = 12 \<longrightarrow>
        cr_open cr key nonce (cr_seal cr key nonce pt) = Some pt) \<and>
     (\<forall>pt blob. cr_dpapiSeal cr pt = Some blob \<longrightarrow> cr_dpapiOpen cr blob = Some pt)"

record keyfile =
  kf_path :: string
  kf_data :: "string option"
  kf_writable :: bool

definition loadKey :: "string \<Rightarrow> keyfile \<Rightarrow> string option \<times> keyfile" where
  "loadKey fresh kf =
     (if kf_path kf = [] then (None, kf)
      else if (case kf_data kf of None \<Rightarrow> False | Some k \<Rightarrow> length k = 32) then (kf_data kf, kf)
      else if kf_writable kf then (Some fresh, kf\<lparr>kf_data := Some fresh\<rparr>)
      else (None, kf))"

text \<open>\<open>aead.Seal(nonce, nonce, pt, nil)\<close> puts the nonce, 12 bytes, in front.\<close>

definition sealKeyfile :: "crypto \<Rightarrow> string \<Rightarrow> string \<Rightarrow> string \<Rightarrow> keyfile \<Rightarrow> string option \<times> keyfile" where
  "sealKeyfile cr fresh nonce pt kf =
     (case loadKey fresh kf of (k, kf') \<Rightarrow>
        (map_option (\<lambda>key. nonce @ cr_seal cr key nonce pt) k, kf'))"

definition openKeyfile :: "crypto \<Rightarrow> string \<Rightarrow> string \<Rightarrow> keyfile \<Rightarrow> string option \<times> keyfile" where
  "openKeyfile cr fresh full kf =
     (case loadKey fresh kf of (k, kf') \<Rightarrow>
        (case k of
           None \<Rightarrow> None
         | Some key \<Rightarrow> if length full < 12 then None else cr_open cr key (take 12 full) (drop 12 full),
         kf'))"

section \<open>Sealing and opening\<close>

definition dpapiPrefix :: string where "dpapiPrefix = ''dpapi1:''"
definition encPrefix :: string where "encPrefix = ''enc1:''"

definition IsProtected :: "string \<Rightarrow> bool" where
  "IsProtected s \<longleftrightarrow> HasPrefix s dpapiPrefix \<or> HasPrefix s encPrefix"

definition Seal :: "crypto \<Rightarrow> string \<Rightarrow> string \<Rightarrow> string \<Rightarrow> keyfile \<Rightarrow> string \<times> keyfile" where
  "Seal cr fresh nonce s kf =
     (if s = [] \<or> IsProtected s then (s, kf)
      else (case (if cr_supported cr then cr_dpapiSeal cr s else None) of
              Some blob \<Rightarrow> (dpapiPrefix @ StdEncode blob, kf)
            | None \<Rightarrow>
                (case sealKeyfile cr fresh nonce s kf of
                   (Some blob, kf') \<Rightarrow> (encPrefix @ StdEncode blob, kf')
                 | (None, kf') \<Rightarrow> (s, kf'))))"

definition Open :: "crypto \<Rightarrow> string \<Rightarrow> string \<Rightarrow> keyfile \<Rightarrow> string \<times> keyfile" where
  "Open cr fresh s kf =
     (if HasPrefix s dpapiPrefix then
        (case StdDecode (TrimPrefix s dpapiPrefix) of
           None \<Rightarrow> (s, kf)
         | Some raw \<Rightarrow> (case cr_dpapiOpen cr raw of None \<Rightarrow> (s, kf) | Some b \<Rightarrow> (b, kf)))
      else if HasPrefix s encPrefix then
        (case StdDecode (TrimPrefix s encPrefix) of
           None \<Rightarrow> (s, kf)
         | Some raw \<Rightarrow> (case openKeyfile cr fresh raw kf of
                          (None, kf') \<Rightarrow> (s, kf')
                        | (Some b, kf') \<Rightarrow> (b, kf')))
      else (s, kf))"

lemmas secrets_defs [step_defs] = Seal_def Open_def sealKeyfile_def openKeyfile_def loadKey_def

section \<open>Facts\<close>

definition key_usable :: "string \<Rightarrow> keyfile \<Rightarrow> bool" where
  "key_usable fresh kf \<longleftrightarrow> kf_path kf \<noteq> [] \<and> length fresh = 32 \<and>
     ((\<exists>k. kf_data kf = Some k \<and> length k = 32) \<or> kf_writable kf)"

definition key_ready :: "keyfile \<Rightarrow> bool" where
  "key_ready kf \<longleftrightarrow> kf_path kf \<noteq> [] \<and> (\<exists>k. kf_data kf = Some k \<and> length k = 32)"

lemma loadKey_ready: "key_ready kf \<Longrightarrow> loadKey fresh kf = (kf_data kf, kf)"
  by (auto simp: key_ready_def loadKey_def)

lemma loadKey_usable:
  assumes "key_usable fresh kf"
  shows "\<exists>k kf'. loadKey fresh kf = (Some k, kf') \<and> length k = 32 \<and> key_ready kf' \<and>
     kf_data kf' = Some k"
proof (cases "key_ready kf")
  case True
  then show ?thesis using loadKey_ready [OF True] by (auto simp: key_ready_def)
next
  case False
  with assms show ?thesis
    by (auto simp: key_usable_def key_ready_def loadKey_def split: option.splits)
qed

lemma key_ready_usable: "key_ready kf \<Longrightarrow> length fresh = 32 \<Longrightarrow> key_usable fresh kf"
  by (auto simp: key_ready_def key_usable_def)

lemma prefixes:
  "\<not> HasPrefix (encPrefix @ s) dpapiPrefix" "HasPrefix (encPrefix @ s) encPrefix"
  "HasPrefix (dpapiPrefix @ s) dpapiPrefix"
  "TrimPrefix (encPrefix @ s) encPrefix = s" "TrimPrefix (dpapiPrefix @ s) dpapiPrefix = s"
  by (simp_all add: encPrefix_def dpapiPrefix_def TrimPrefix_def HasPrefix_def)

lemma IsProtected_sealed: "IsProtected (encPrefix @ s)" "IsProtected (dpapiPrefix @ s)"
  by (simp_all add: IsProtected_def prefixes)

lemma IsProtected_Nil [simp]: "\<not> IsProtected []"
  by (simp add: IsProtected_def HasPrefix_def dpapiPrefix_def encPrefix_def)

lemma Open_plain: "\<not> IsProtected s \<Longrightarrow> Open cr fresh s kf = (s, kf)"
  by (simp add: Open_def IsProtected_def)

lemma Seal_protected: "IsProtected s \<Longrightarrow> Seal cr fresh nonce s kf = (s, kf)"
  by (simp add: Seal_def)

lemma Seal_Nil [simp]: "Seal cr fresh nonce [] kf = ([], kf)"
  by (simp add: Seal_def)

lemma Open_Nil [simp]: "Open cr fresh [] kf = ([], kf)"
  by (simp add: Open_plain)

text \<open>With a key in place opening changes nothing and depends on the key alone.\<close>

definition open_with :: "crypto \<Rightarrow> string \<Rightarrow> string \<Rightarrow> string" where
  "open_with cr key s =
     (if HasPrefix s dpapiPrefix then
        (case StdDecode (TrimPrefix s dpapiPrefix) of
           None \<Rightarrow> s
         | Some raw \<Rightarrow> (case cr_dpapiOpen cr raw of None \<Rightarrow> s | Some b \<Rightarrow> b))
      else if HasPrefix s encPrefix then
        (case StdDecode (TrimPrefix s encPrefix) of
           None \<Rightarrow> s
         | Some raw \<Rightarrow>
             if length raw < 12 then s
             else (case cr_open cr key (take 12 raw) (drop 12 raw) of None \<Rightarrow> s | Some b \<Rightarrow> b))
      else s)"

lemma Open_ready:
  "key_ready kf \<Longrightarrow> Open cr fresh s kf = (open_with cr (the (kf_data kf)) s, kf)"
  using loadKey_ready [of kf fresh]
  by (auto simp: Open_def openKeyfile_def open_with_def key_ready_def split: option.split)

text \<open>What sealing produces is marked and opens again, from then on, under whatever is drawn.\<close>

lemma Seal_opens:
  assumes "crypto_ok cr" "key_usable fresh kf" "length nonce = 12" "\<not> IsProtected s" "s \<noteq> []"
  shows "\<exists>t kf'. Seal cr fresh nonce s kf = (t, kf') \<and> IsProtected t \<and>
     (key_ready kf \<longrightarrow> kf' = kf) \<and> (\<forall>fresh'. Open cr fresh' t kf' = (s, kf'))"
proof (cases "if cr_supported cr then cr_dpapiSeal cr s else None")
  case (Some blob)
  then have "cr_dpapiOpen cr blob = Some s"
    using assms(1) by (auto simp: crypto_ok_def split: if_splits)
  then show ?thesis
    using assms(4,5) Some
    by (simp add: Seal_def Open_def prefixes IsProtected_sealed std64.dec_enc)
next
  case None
  obtain k kf' where k: "loadKey fresh kf = (Some k, kf')" "length k = 32" "key_ready kf'"
    "kf_data kf' = Some k" using loadKey_usable [OF assms(2)] by auto
  have "cr_open cr k nonce (cr_seal cr k nonce s) = Some s"
    using assms(1,3) k(2) by (simp add: crypto_ok_def)
  then have "openKeyfile cr fresh' (nonce @ cr_seal cr k nonce s) kf' = (Some s, kf')" for fresh'
    using loadKey_ready [OF k(3)] k(4) assms(3) by (simp add: openKeyfile_def)
  then show ?thesis
    using assms(4,5) None k loadKey_ready [of kf fresh]
    by (auto simp: Seal_def Open_def sealKeyfile_def prefixes IsProtected_sealed std64.dec_enc)
qed

section \<open>The contract of a vault\<close>

text \<open>
  What the configuration relies on: under a good context, sealing keeps the empty text and what
  is already marked, marks everything else, and opening undoes it.
\<close>

locale vault =
  fixes good :: "'c \<Rightarrow> bool"
    and seal :: "'c \<Rightarrow> string \<Rightarrow> string \<Rightarrow> string"
    and unseal :: "'c \<Rightarrow> string \<Rightarrow> string"
    and marked :: "string \<Rightarrow> bool"
  assumes unseal_seal: "good c \<Longrightarrow> \<not> marked s \<Longrightarrow> unseal c (seal c l s) = s"
    and seal_marks: "good c \<Longrightarrow> s \<noteq> [] \<Longrightarrow> marked (seal c l s)"
    and seal_empty: "seal c l [] = []"
    and seal_marked: "marked s \<Longrightarrow> seal c l s = s"
begin

lemma seal_twice: "good c \<Longrightarrow> seal c l' (seal c l s) = seal c l s"
  by (metis seal_empty seal_marked seal_marks)

lemma sealed_or_empty: "good c \<Longrightarrow> marked (seal c l s) \<or> seal c l s = []"
  by (metis seal_empty seal_marks)

end

text \<open>
  The program's vault once its key file exists: a context is the cryptography, the key file and
  the random bytes at hand (the nonces by the label of the value they are for).
\<close>

record vault_ctx =
  vc_crypto :: crypto
  vc_key :: keyfile
  vc_fresh :: string
  vc_nonce :: "string \<Rightarrow> string"

definition vault_good :: "vault_ctx \<Rightarrow> bool" where
  "vault_good v \<longleftrightarrow> crypto_ok (vc_crypto v) \<and> key_ready (vc_key v) \<and> length (vc_fresh v) = 32 \<and>
     (\<forall>l. length (vc_nonce v l) = 12)"

definition seal_text :: "vault_ctx \<Rightarrow> string \<Rightarrow> string \<Rightarrow> string" where
  "seal_text v l s = fst (Seal (vc_crypto v) (vc_fresh v) (vc_nonce v l) s (vc_key v))"

definition open_text :: "vault_ctx \<Rightarrow> string \<Rightarrow> string" where
  "open_text v s = fst (Open (vc_crypto v) (vc_fresh v) s (vc_key v))"

lemma Seal_text:
  "vault_good v \<Longrightarrow> Seal (vc_crypto v) (vc_fresh v) (vc_nonce v l) s (vc_key v) =
     (seal_text v l s, vc_key v)"
  using Seal_opens [of "vc_crypto v" "vc_fresh v" "vc_key v" "vc_nonce v l" s]
  by (cases "s = [] \<or> IsProtected s")
    (auto simp: vault_good_def seal_text_def Seal_protected key_ready_usable)

lemma Open_text:
  "vault_good v \<Longrightarrow> Open (vc_crypto v) (vc_fresh v) s (vc_key v) = (open_text v s, vc_key v)"
  using loadKey_ready [of "vc_key v" "vc_fresh v"]
  by (auto simp: vault_good_def open_text_def Open_def openKeyfile_def split: option.split)

interpretation vt: vault vault_good seal_text open_text IsProtected
proof (unfold_locales, goal_cases)
  case (1 c s l)
  then show ?case
    using Seal_opens [of "vc_crypto c" "vc_fresh c" "vc_key c" "vc_nonce c l" s]
    by (cases "s = []")
      (auto simp: vault_good_def seal_text_def open_text_def key_ready_usable)
next
  case (2 c s l)
  then show ?case
    using Seal_opens [of "vc_crypto c" "vc_fresh c" "vc_key c" "vc_nonce c l" s]
    by (cases "IsProtected s")
      (auto simp: vault_good_def seal_text_def Seal_protected key_ready_usable)
qed (simp_all add: seal_text_def Seal_protected)

lemma seal_text_enc:
  assumes "vault_good v" "\<not> cr_supported (vc_crypto v)" "s \<noteq> []" "\<not> IsProtected s"
  shows "seal_text v l s = encPrefix @ StdEncode (vc_nonce v l @
     cr_seal (vc_crypto v) (the (kf_data (vc_key v))) (vc_nonce v l) s)"
proof -
  have "loadKey (vc_fresh v) (vc_key v) = (kf_data (vc_key v), vc_key v)" "kf_data (vc_key v) \<noteq> None"
    using assms(1) loadKey_ready by (auto simp: vault_good_def key_ready_def)
  then show ?thesis using assms by (auto simp: seal_text_def Seal_def sealKeyfile_def)
qed

lemma open_with_other_key:
  assumes "vault_good v" "\<not> cr_supported (vc_crypto v)" "s \<noteq> []" "\<not> IsProtected s"
    "\<And>nonce pt. cr_open (vc_crypto v) key nonce
       (cr_seal (vc_crypto v) (the (kf_data (vc_key v))) nonce pt) = None"
  shows "open_with (vc_crypto v) key (seal_text v l s) = seal_text v l s"
proof -
  have "length (vc_nonce v l) = 12" using assms(1) by (simp add: vault_good_def)
  then show ?thesis
    using assms(5) by (simp add: seal_text_enc [OF assms(1-4)] open_with_def prefixes std64.dec_enc)
qed

end
