(* ===== verification/ConfigJson.thy ===== *)
theory ConfigJson
  imports Secrets Json "HOL-Library.AList" "HOL-Library.Multiset"
    "HOL-Library.Char_ord" "HOL-Library.List_Lexorder"
begin

text \<open>
  The JSON form of the configuration, as the tags of the structs of \<open>internal/config/config.go\<close>
  have it: for each struct the members it is written with and what reading a member does. A nil
  slice is written as an empty array here, where Go writes \<open>null\<close>; both read back as no
  elements.

  \<open>unmarshal_marshal_config\<close> states that a configuration that was written is read back, whatever struct
  it is read over.
\<close>

section \<open>Names\<close>

lemma lower_keys [simp]:
  "ToLower ''backend'' = ''backend''"
  "ToLower ''dsn'' = ''dsn''"
  "ToLower ''backup_interval_minutes'' = ''backup_interval_minutes''"
  "ToLower ''backup_keep'' = ''backup_keep''"
  "ToLower ''enabled'' = ''enabled''"
  "ToLower ''username'' = ''username''"
  "ToLower ''password_hash'' = ''password_hash''"
  "ToLower ''tenant_id'' = ''tenant_id''"
  "ToLower ''client_id'' = ''client_id''"
  "ToLower ''client_secret'' = ''client_secret''"
  "ToLower ''redirect_url'' = ''redirect_url''"
  "ToLower ''allowed_emails'' = ''allowed_emails''"
  "ToLower ''allowed_groups'' = ''allowed_groups''"
  "ToLower ''url'' = ''url''"
  "ToLower ''insecure_tls'' = ''insecure_tls''"
  "ToLower ''base_dn'' = ''base_dn''"
  "ToLower ''bind_upn_suffix'' = ''bind_upn_suffix''"
  "ToLower ''user_filter'' = ''user_filter''"
  "ToLower ''weight'' = ''weight''"
  "ToLower ''host'' = ''host''"
  "ToLower ''target'' = ''target''"
  "ToLower ''targets'' = ''targets''"
  "ToLower ''load_balancing'' = ''load_balancing''"
  "ToLower ''require_auth'' = ''require_auth''"
  "ToLower ''listen'' = ''listen''"
  "ToLower ''tls'' = ''tls''"
  "ToLower ''sni_host'' = ''sni_host''"
  "ToLower ''timeout_sec'' = ''timeout_sec''"
  "ToLower ''secret'' = ''secret''"
  "ToLower ''confirmed'' = ''confirmed''"
  "ToLower ''require_for'' = ''require_for''"
  "ToLower ''secrets'' = ''secrets''"
  "ToLower ''domains'' = ''domains''"
  "ToLower ''cache_dir'' = ''cache_dir''"
  "ToLower ''redirect_http'' = ''redirect_http''"
  "ToLower ''interval_sec'' = ''interval_sec''"
  "ToLower ''failures'' = ''failures''"
  "ToLower ''admin_port'' = ''admin_port''"
  "ToLower ''proxy_http_port'' = ''proxy_http_port''"
  "ToLower ''proxy_https_port'' = ''proxy_https_port''"
  "ToLower ''tls_cert_file'' = ''tls_cert_file''"
  "ToLower ''tls_key_file'' = ''tls_key_file''"
  "ToLower ''panel_tls_cert_file'' = ''panel_tls_cert_file''"
  "ToLower ''panel_tls_key_file'' = ''panel_tls_key_file''"
  "ToLower ''session_hours'' = ''session_hours''"
  "ToLower ''session_secret'' = ''session_secret''"
  "ToLower ''session_epoch'' = ''session_epoch''"
  "ToLower ''secure_cookies'' = ''secure_cookies''"
  "ToLower ''panel_public_url'' = ''panel_public_url''"
  "ToLower ''insecure_upstream'' = ''insecure_upstream''"
  "ToLower ''admin_allowed_cidrs'' = ''admin_allowed_cidrs''"
  "ToLower ''panel_admins'' = ''panel_admins''"
  "ToLower ''login_max_fails'' = ''login_max_fails''"
  "ToLower ''lockout_minutes'' = ''lockout_minutes''"
  "ToLower ''acme'' = ''acme''"
  "ToLower ''azure'' = ''azure''"
  "ToLower ''ldap'' = ''ldap''"
  "ToLower ''local_admin'' = ''local_admin''"
  "ToLower ''totp'' = ''totp''"
  "ToLower ''health_check'' = ''health_check''"
  "ToLower ''rules'' = ''rules''"
  "ToLower ''stream_rules'' = ''stream_rules''"
  "ToLower ''storage'' = ''storage''"
  by code_simp+

section \<open>Structs\<close>

definition storage_json :: "StorageConfig \<Rightarrow> (string \<times> json) list" where
  "storage_json x =
     [(''backend'', JStr (sc_Backend x)),
      (''dsn'', JStr (sc_DSN x)),
      (''backup_interval_minutes'', JInt (sc_BackupIntervalMinutes x)),
      (''backup_keep'', JInt (sc_BackupKeep x))]"

definition storage_field :: "string \<Rightarrow> json \<Rightarrow> StorageConfig \<Rightarrow> StorageConfig option" where
  "storage_field k v x =
     (if k = ''backend'' then map_option (\<lambda>y. x\<lparr>sc_Backend := y\<rparr>) (dec_str v (sc_Backend x))
      else if k = ''dsn'' then map_option (\<lambda>y. x\<lparr>sc_DSN := y\<rparr>) (dec_str v (sc_DSN x))
      else if k = ''backup_interval_minutes'' then map_option (\<lambda>y. x\<lparr>sc_BackupIntervalMinutes := y\<rparr>) (dec_int v (sc_BackupIntervalMinutes x))
      else if k = ''backup_keep'' then map_option (\<lambda>y. x\<lparr>sc_BackupKeep := y\<rparr>) (dec_int v (sc_BackupKeep x))
      else Some x)"

lemma storage_field_simps [simp]:
  "storage_field ''backend'' v x = map_option (\<lambda>y. x\<lparr>sc_Backend := y\<rparr>) (dec_str v (sc_Backend x))"
  "storage_field ''dsn'' v x = map_option (\<lambda>y. x\<lparr>sc_DSN := y\<rparr>) (dec_str v (sc_DSN x))"
  "storage_field ''backup_interval_minutes'' v x = map_option (\<lambda>y. x\<lparr>sc_BackupIntervalMinutes := y\<rparr>) (dec_int v (sc_BackupIntervalMinutes x))"
  "storage_field ''backup_keep'' v x = map_option (\<lambda>y. x\<lparr>sc_BackupKeep := y\<rparr>) (dec_int v (sc_BackupKeep x))"
  by (simp_all add: storage_field_def)

definition local_admin_json :: "LocalAdminConfig \<Rightarrow> (string \<times> json) list" where
  "local_admin_json x =
     [(''enabled'', JBool (la_Enabled x)),
      (''username'', JStr (la_Username x)),
      (''password_hash'', JStr (la_PasswordHash x))]"

definition local_admin_field :: "string \<Rightarrow> json \<Rightarrow> LocalAdminConfig \<Rightarrow> LocalAdminConfig option" where
  "local_admin_field k v x =
     (if k = ''enabled'' then map_option (\<lambda>y. x\<lparr>la_Enabled := y\<rparr>) (dec_bool v (la_Enabled x))
      else if k = ''username'' then map_option (\<lambda>y. x\<lparr>la_Username := y\<rparr>) (dec_str v (la_Username x))
      else if k = ''password_hash'' then map_option (\<lambda>y. x\<lparr>la_PasswordHash := y\<rparr>) (dec_str v (la_PasswordHash x))
      else Some x)"

lemma local_admin_field_simps [simp]:
  "local_admin_field ''enabled'' v x = map_option (\<lambda>y. x\<lparr>la_Enabled := y\<rparr>) (dec_bool v (la_Enabled x))"
  "local_admin_field ''username'' v x = map_option (\<lambda>y. x\<lparr>la_Username := y\<rparr>) (dec_str v (la_Username x))"
  "local_admin_field ''password_hash'' v x = map_option (\<lambda>y. x\<lparr>la_PasswordHash := y\<rparr>) (dec_str v (la_PasswordHash x))"
  by (simp_all add: local_admin_field_def)

definition azure_json :: "AzureConfig \<Rightarrow> (string \<times> json) list" where
  "azure_json x =
     [(''tenant_id'', JStr (az_TenantID x)),
      (''client_id'', JStr (az_ClientID x)),
      (''client_secret'', JStr (az_ClientSecret x)),
      (''redirect_url'', JStr (az_RedirectURL x)),
      (''allowed_emails'', JStrs (az_AllowedEmails x)),
      (''allowed_groups'', JStrs (az_AllowedGroups x))]"

definition azure_field :: "string \<Rightarrow> json \<Rightarrow> AzureConfig \<Rightarrow> AzureConfig option" where
  "azure_field k v x =
     (if k = ''tenant_id'' then map_option (\<lambda>y. x\<lparr>az_TenantID := y\<rparr>) (dec_str v (az_TenantID x))
      else if k = ''client_id'' then map_option (\<lambda>y. x\<lparr>az_ClientID := y\<rparr>) (dec_str v (az_ClientID x))
      else if k = ''client_secret'' then map_option (\<lambda>y. x\<lparr>az_ClientSecret := y\<rparr>) (dec_str v (az_ClientSecret x))
      else if k = ''redirect_url'' then map_option (\<lambda>y. x\<lparr>az_RedirectURL := y\<rparr>) (dec_str v (az_RedirectURL x))
      else if k = ''allowed_emails'' then map_option (\<lambda>y. x\<lparr>az_AllowedEmails := y\<rparr>) (dec_strs v)
      else if k = ''allowed_groups'' then map_option (\<lambda>y. x\<lparr>az_AllowedGroups := y\<rparr>) (dec_strs v)
      else Some x)"

lemma azure_field_simps [simp]:
  "azure_field ''tenant_id'' v x = map_option (\<lambda>y. x\<lparr>az_TenantID := y\<rparr>) (dec_str v (az_TenantID x))"
  "azure_field ''client_id'' v x = map_option (\<lambda>y. x\<lparr>az_ClientID := y\<rparr>) (dec_str v (az_ClientID x))"
  "azure_field ''client_secret'' v x = map_option (\<lambda>y. x\<lparr>az_ClientSecret := y\<rparr>) (dec_str v (az_ClientSecret x))"
  "azure_field ''redirect_url'' v x = map_option (\<lambda>y. x\<lparr>az_RedirectURL := y\<rparr>) (dec_str v (az_RedirectURL x))"
  "azure_field ''allowed_emails'' v x = map_option (\<lambda>y. x\<lparr>az_AllowedEmails := y\<rparr>) (dec_strs v)"
  "azure_field ''allowed_groups'' v x = map_option (\<lambda>y. x\<lparr>az_AllowedGroups := y\<rparr>) (dec_strs v)"
  by (simp_all add: azure_field_def)

definition ldap_json :: "LDAPConfig \<Rightarrow> (string \<times> json) list" where
  "ldap_json x =
     [(''enabled'', JBool (ld_Enabled x)),
      (''url'', JStr (ld_URL x)),
      (''insecure_tls'', JBool (ld_InsecureTLS x)),
      (''base_dn'', JStr (ld_BaseDN x)),
      (''bind_upn_suffix'', JStr (ld_BindUPNSuffix x)),
      (''user_filter'', JStr (ld_UserFilter x)),
      (''allowed_emails'', JStrs (ld_AllowedEmails x)),
      (''allowed_groups'', JStrs (ld_AllowedGroups x))]"

definition ldap_field :: "string \<Rightarrow> json \<Rightarrow> LDAPConfig \<Rightarrow> LDAPConfig option" where
  "ldap_field k v x =
     (if k = ''enabled'' then map_option (\<lambda>y. x\<lparr>ld_Enabled := y\<rparr>) (dec_bool v (ld_Enabled x))
      else if k = ''url'' then map_option (\<lambda>y. x\<lparr>ld_URL := y\<rparr>) (dec_str v (ld_URL x))
      else if k = ''insecure_tls'' then map_option (\<lambda>y. x\<lparr>ld_InsecureTLS := y\<rparr>) (dec_bool v (ld_InsecureTLS x))
      else if k = ''base_dn'' then map_option (\<lambda>y. x\<lparr>ld_BaseDN := y\<rparr>) (dec_str v (ld_BaseDN x))
      else if k = ''bind_upn_suffix'' then map_option (\<lambda>y. x\<lparr>ld_BindUPNSuffix := y\<rparr>) (dec_str v (ld_BindUPNSuffix x))
      else if k = ''user_filter'' then map_option (\<lambda>y. x\<lparr>ld_UserFilter := y\<rparr>) (dec_str v (ld_UserFilter x))
      else if k = ''allowed_emails'' then map_option (\<lambda>y. x\<lparr>ld_AllowedEmails := y\<rparr>) (dec_strs v)
      else if k = ''allowed_groups'' then map_option (\<lambda>y. x\<lparr>ld_AllowedGroups := y\<rparr>) (dec_strs v)
      else Some x)"

lemma ldap_field_simps [simp]:
  "ldap_field ''enabled'' v x = map_option (\<lambda>y. x\<lparr>ld_Enabled := y\<rparr>) (dec_bool v (ld_Enabled x))"
  "ldap_field ''url'' v x = map_option (\<lambda>y. x\<lparr>ld_URL := y\<rparr>) (dec_str v (ld_URL x))"
  "ldap_field ''insecure_tls'' v x = map_option (\<lambda>y. x\<lparr>ld_InsecureTLS := y\<rparr>) (dec_bool v (ld_InsecureTLS x))"
  "ldap_field ''base_dn'' v x = map_option (\<lambda>y. x\<lparr>ld_BaseDN := y\<rparr>) (dec_str v (ld_BaseDN x))"
  "ldap_field ''bind_upn_suffix'' v x = map_option (\<lambda>y. x\<lparr>ld_BindUPNSuffix := y\<rparr>) (dec_str v (ld_BindUPNSuffix x))"
  "ldap_field ''user_filter'' v x = map_option (\<lambda>y. x\<lparr>ld_UserFilter := y\<rparr>) (dec_str v (ld_UserFilter x))"
  "ldap_field ''allowed_emails'' v x = map_option (\<lambda>y. x\<lparr>ld_AllowedEmails := y\<rparr>) (dec_strs v)"
  "ldap_field ''allowed_groups'' v x = map_option (\<lambda>y. x\<lparr>ld_AllowedGroups := y\<rparr>) (dec_strs v)"
  by (simp_all add: ldap_field_def)

definition target_json :: "BackendTarget \<Rightarrow> (string \<times> json) list" where
  "target_json x =
     [(''url'', JStr (bt_URL x)),
      (''weight'', JInt (bt_Weight x))]"

definition target_field :: "string \<Rightarrow> json \<Rightarrow> BackendTarget \<Rightarrow> BackendTarget option" where
  "target_field k v x =
     (if k = ''url'' then map_option (\<lambda>y. x\<lparr>bt_URL := y\<rparr>) (dec_str v (bt_URL x))
      else if k = ''weight'' then map_option (\<lambda>y. x\<lparr>bt_Weight := y\<rparr>) (dec_int v (bt_Weight x))
      else Some x)"

lemma target_field_simps [simp]:
  "target_field ''url'' v x = map_option (\<lambda>y. x\<lparr>bt_URL := y\<rparr>) (dec_str v (bt_URL x))"
  "target_field ''weight'' v x = map_option (\<lambda>y. x\<lparr>bt_Weight := y\<rparr>) (dec_int v (bt_Weight x))"
  by (simp_all add: target_field_def)

definition rule_json :: "Rule \<Rightarrow> (string \<times> json) list" where
  "rule_json x =
     [(''host'', JStr (r_Host x)),
      (''target'', JStr (r_Target x))] @
     (if r_Targets x = [] then [] else [(''targets'', JArr (map (JObj \<circ> target_json) (r_Targets x)))]) @
     (if r_LoadBalancing x = [] then [] else [(''load_balancing'', JStr (r_LoadBalancing x))]) @
     [(''require_auth'', JBool (r_RequireAuth x)),
      (''insecure_tls'', JBool (r_InsecureTLS x)),
      (''enabled'', JBool (r_Enabled x))]"

definition rule_field :: "string \<Rightarrow> json \<Rightarrow> Rule \<Rightarrow> Rule option" where
  "rule_field k v x =
     (if k = ''host'' then map_option (\<lambda>y. x\<lparr>r_Host := y\<rparr>) (dec_str v (r_Host x))
      else if k = ''target'' then map_option (\<lambda>y. x\<lparr>r_Target := y\<rparr>) (dec_str v (r_Target x))
      else if k = ''targets'' then map_option (\<lambda>y. x\<lparr>r_Targets := y\<rparr>) (dec_list (\<lambda>y. dec_struct target_field y \<lparr>bt_URL = [], bt_Weight = 0\<rparr>) v)
      else if k = ''load_balancing'' then map_option (\<lambda>y. x\<lparr>r_LoadBalancing := y\<rparr>) (dec_str v (r_LoadBalancing x))
      else if k = ''require_auth'' then map_option (\<lambda>y. x\<lparr>r_RequireAuth := y\<rparr>) (dec_bool v (r_RequireAuth x))
      else if k = ''insecure_tls'' then map_option (\<lambda>y. x\<lparr>r_InsecureTLS := y\<rparr>) (dec_bool v (r_InsecureTLS x))
      else if k = ''enabled'' then map_option (\<lambda>y. x\<lparr>r_Enabled := y\<rparr>) (dec_bool v (r_Enabled x))
      else Some x)"

lemma rule_field_simps [simp]:
  "rule_field ''host'' v x = map_option (\<lambda>y. x\<lparr>r_Host := y\<rparr>) (dec_str v (r_Host x))"
  "rule_field ''target'' v x = map_option (\<lambda>y. x\<lparr>r_Target := y\<rparr>) (dec_str v (r_Target x))"
  "rule_field ''targets'' v x = map_option (\<lambda>y. x\<lparr>r_Targets := y\<rparr>) (dec_list (\<lambda>y. dec_struct target_field y \<lparr>bt_URL = [], bt_Weight = 0\<rparr>) v)"
  "rule_field ''load_balancing'' v x = map_option (\<lambda>y. x\<lparr>r_LoadBalancing := y\<rparr>) (dec_str v (r_LoadBalancing x))"
  "rule_field ''require_auth'' v x = map_option (\<lambda>y. x\<lparr>r_RequireAuth := y\<rparr>) (dec_bool v (r_RequireAuth x))"
  "rule_field ''insecure_tls'' v x = map_option (\<lambda>y. x\<lparr>r_InsecureTLS := y\<rparr>) (dec_bool v (r_InsecureTLS x))"
  "rule_field ''enabled'' v x = map_option (\<lambda>y. x\<lparr>r_Enabled := y\<rparr>) (dec_bool v (r_Enabled x))"
  by (simp_all add: rule_field_def)

definition stream_json :: "StreamRule \<Rightarrow> (string \<times> json) list" where
  "stream_json x =
     [(''listen'', JStr (sr_Listen x)),
      (''target'', JStr (sr_Target x)),
      (''tls'', JBool (sr_TLS x))] @
     (if sr_SNIHost x = [] then [] else [(''sni_host'', JStr (sr_SNIHost x))]) @
     (if sr_TimeoutSec x = 0 then [] else [(''timeout_sec'', JInt (sr_TimeoutSec x))]) @
     [(''enabled'', JBool (sr_Enabled x))]"

definition stream_field :: "string \<Rightarrow> json \<Rightarrow> StreamRule \<Rightarrow> StreamRule option" where
  "stream_field k v x =
     (if k = ''listen'' then map_option (\<lambda>y. x\<lparr>sr_Listen := y\<rparr>) (dec_str v (sr_Listen x))
      else if k = ''target'' then map_option (\<lambda>y. x\<lparr>sr_Target := y\<rparr>) (dec_str v (sr_Target x))
      else if k = ''tls'' then map_option (\<lambda>y. x\<lparr>sr_TLS := y\<rparr>) (dec_bool v (sr_TLS x))
      else if k = ''sni_host'' then map_option (\<lambda>y. x\<lparr>sr_SNIHost := y\<rparr>) (dec_str v (sr_SNIHost x))
      else if k = ''timeout_sec'' then map_option (\<lambda>y. x\<lparr>sr_TimeoutSec := y\<rparr>) (dec_int v (sr_TimeoutSec x))
      else if k = ''enabled'' then map_option (\<lambda>y. x\<lparr>sr_Enabled := y\<rparr>) (dec_bool v (sr_Enabled x))
      else Some x)"

lemma stream_field_simps [simp]:
  "stream_field ''listen'' v x = map_option (\<lambda>y. x\<lparr>sr_Listen := y\<rparr>) (dec_str v (sr_Listen x))"
  "stream_field ''target'' v x = map_option (\<lambda>y. x\<lparr>sr_Target := y\<rparr>) (dec_str v (sr_Target x))"
  "stream_field ''tls'' v x = map_option (\<lambda>y. x\<lparr>sr_TLS := y\<rparr>) (dec_bool v (sr_TLS x))"
  "stream_field ''sni_host'' v x = map_option (\<lambda>y. x\<lparr>sr_SNIHost := y\<rparr>) (dec_str v (sr_SNIHost x))"
  "stream_field ''timeout_sec'' v x = map_option (\<lambda>y. x\<lparr>sr_TimeoutSec := y\<rparr>) (dec_int v (sr_TimeoutSec x))"
  "stream_field ''enabled'' v x = map_option (\<lambda>y. x\<lparr>sr_Enabled := y\<rparr>) (dec_bool v (sr_Enabled x))"
  by (simp_all add: stream_field_def)

definition secret_json :: "TOTPSecret \<Rightarrow> (string \<times> json) list" where
  "secret_json x =
     [(''secret'', JStr (ts_Secret x)),
      (''confirmed'', JBool (ts_Confirmed x))]"

definition secret_field :: "string \<Rightarrow> json \<Rightarrow> TOTPSecret \<Rightarrow> TOTPSecret option" where
  "secret_field k v x =
     (if k = ''secret'' then map_option (\<lambda>y. x\<lparr>ts_Secret := y\<rparr>) (dec_str v (ts_Secret x))
      else if k = ''confirmed'' then map_option (\<lambda>y. x\<lparr>ts_Confirmed := y\<rparr>) (dec_bool v (ts_Confirmed x))
      else Some x)"

lemma secret_field_simps [simp]:
  "secret_field ''secret'' v x = map_option (\<lambda>y. x\<lparr>ts_Secret := y\<rparr>) (dec_str v (ts_Secret x))"
  "secret_field ''confirmed'' v x = map_option (\<lambda>y. x\<lparr>ts_Confirmed := y\<rparr>) (dec_bool v (ts_Confirmed x))"
  by (simp_all add: secret_field_def)

text \<open>A map is an object with its keys in order; reading one adds to what is there.\<close>

definition no_secret :: TOTPSecret where
  "no_secret = \<lparr>ts_Secret = [], ts_Confirmed = False\<rparr>"

definition secrets_json :: "(string \<times> TOTPSecret) list option \<Rightarrow> json" where
  "secrets_json m =
     (case m of
        None \<Rightarrow> JNull
      | Some kvs \<Rightarrow> JObj (map (\<lambda>(k, s). (k, JObj (secret_json s))) (sort_key fst kvs)))"

fun dec_entries ::
  "(string \<times> json) list \<Rightarrow> (string \<times> TOTPSecret) list \<Rightarrow> (string \<times> TOTPSecret) list option" where
  "dec_entries [] m = Some m"
| "dec_entries ((k, v) # kvs) m =
     (case dec_struct secret_field v no_secret of
        None \<Rightarrow> None
      | Some s \<Rightarrow> dec_entries kvs (AList.update k s m))"

definition dec_secrets ::
  "json \<Rightarrow> (string \<times> TOTPSecret) list option \<Rightarrow> (string \<times> TOTPSecret) list option option" where
  "dec_secrets v old =
     (case v of
        JNull \<Rightarrow> Some None
      | JObj kvs \<Rightarrow> map_option Some (dec_entries kvs (nil_map old))
      | _ \<Rightarrow> None)"

definition totp_json :: "TOTPConfig \<Rightarrow> (string \<times> json) list" where
  "totp_json x =
     [(''enabled'', JBool (to_Enabled x)),
      (''require_for'', JStrs (to_RequireFor x)),
      (''secrets'', secrets_json (to_Secrets x))]"

definition totp_field :: "string \<Rightarrow> json \<Rightarrow> TOTPConfig \<Rightarrow> TOTPConfig option" where
  "totp_field k v x =
     (if k = ''enabled'' then map_option (\<lambda>y. x\<lparr>to_Enabled := y\<rparr>) (dec_bool v (to_Enabled x))
      else if k = ''require_for'' then map_option (\<lambda>y. x\<lparr>to_RequireFor := y\<rparr>) (dec_strs v)
      else if k = ''secrets'' then map_option (\<lambda>y. x\<lparr>to_Secrets := y\<rparr>) (dec_secrets v (to_Secrets x))
      else Some x)"

lemma totp_field_simps [simp]:
  "totp_field ''enabled'' v x = map_option (\<lambda>y. x\<lparr>to_Enabled := y\<rparr>) (dec_bool v (to_Enabled x))"
  "totp_field ''require_for'' v x = map_option (\<lambda>y. x\<lparr>to_RequireFor := y\<rparr>) (dec_strs v)"
  "totp_field ''secrets'' v x = map_option (\<lambda>y. x\<lparr>to_Secrets := y\<rparr>) (dec_secrets v (to_Secrets x))"
  by (simp_all add: totp_field_def)

definition acme_json :: "ACMEConfig \<Rightarrow> (string \<times> json) list" where
  "acme_json x =
     [(''enabled'', JBool (ac_Enabled x)),
      (''domains'', JStrs (ac_Domains x)),
      (''cache_dir'', JStr (ac_CacheDir x)),
      (''redirect_http'', JBool (ac_RedirectHTTP x))]"

definition acme_field :: "string \<Rightarrow> json \<Rightarrow> ACMEConfig \<Rightarrow> ACMEConfig option" where
  "acme_field k v x =
     (if k = ''enabled'' then map_option (\<lambda>y. x\<lparr>ac_Enabled := y\<rparr>) (dec_bool v (ac_Enabled x))
      else if k = ''domains'' then map_option (\<lambda>y. x\<lparr>ac_Domains := y\<rparr>) (dec_strs v)
      else if k = ''cache_dir'' then map_option (\<lambda>y. x\<lparr>ac_CacheDir := y\<rparr>) (dec_str v (ac_CacheDir x))
      else if k = ''redirect_http'' then map_option (\<lambda>y. x\<lparr>ac_RedirectHTTP := y\<rparr>) (dec_bool v (ac_RedirectHTTP x))
      else Some x)"

lemma acme_field_simps [simp]:
  "acme_field ''enabled'' v x = map_option (\<lambda>y. x\<lparr>ac_Enabled := y\<rparr>) (dec_bool v (ac_Enabled x))"
  "acme_field ''domains'' v x = map_option (\<lambda>y. x\<lparr>ac_Domains := y\<rparr>) (dec_strs v)"
  "acme_field ''cache_dir'' v x = map_option (\<lambda>y. x\<lparr>ac_CacheDir := y\<rparr>) (dec_str v (ac_CacheDir x))"
  "acme_field ''redirect_http'' v x = map_option (\<lambda>y. x\<lparr>ac_RedirectHTTP := y\<rparr>) (dec_bool v (ac_RedirectHTTP x))"
  by (simp_all add: acme_field_def)

definition health_json :: "HealthCheckConfig \<Rightarrow> (string \<times> json) list" where
  "health_json x =
     [(''enabled'', JBool (hk_Enabled x)),
      (''interval_sec'', JInt (hk_IntervalSec x)),
      (''timeout_sec'', JInt (hk_TimeoutSec x)),
      (''failures'', JInt (hk_Failures x))]"

definition health_field :: "string \<Rightarrow> json \<Rightarrow> HealthCheckConfig \<Rightarrow> HealthCheckConfig option" where
  "health_field k v x =
     (if k = ''enabled'' then map_option (\<lambda>y. x\<lparr>hk_Enabled := y\<rparr>) (dec_bool v (hk_Enabled x))
      else if k = ''interval_sec'' then map_option (\<lambda>y. x\<lparr>hk_IntervalSec := y\<rparr>) (dec_int v (hk_IntervalSec x))
      else if k = ''timeout_sec'' then map_option (\<lambda>y. x\<lparr>hk_TimeoutSec := y\<rparr>) (dec_int v (hk_TimeoutSec x))
      else if k = ''failures'' then map_option (\<lambda>y. x\<lparr>hk_Failures := y\<rparr>) (dec_int v (hk_Failures x))
      else Some x)"

lemma health_field_simps [simp]:
  "health_field ''enabled'' v x = map_option (\<lambda>y. x\<lparr>hk_Enabled := y\<rparr>) (dec_bool v (hk_Enabled x))"
  "health_field ''interval_sec'' v x = map_option (\<lambda>y. x\<lparr>hk_IntervalSec := y\<rparr>) (dec_int v (hk_IntervalSec x))"
  "health_field ''timeout_sec'' v x = map_option (\<lambda>y. x\<lparr>hk_TimeoutSec := y\<rparr>) (dec_int v (hk_TimeoutSec x))"
  "health_field ''failures'' v x = map_option (\<lambda>y. x\<lparr>hk_Failures := y\<rparr>) (dec_int v (hk_Failures x))"
  by (simp_all add: health_field_def)

definition config_json :: "Config \<Rightarrow> (string \<times> json) list" where
  "config_json x =
     [(''admin_port'', JInt (cf_AdminPort x)),
      (''proxy_http_port'', JInt (cf_ProxyHTTPPort x)),
      (''proxy_https_port'', JInt (cf_ProxyHTTPSPort x)),
      (''tls_cert_file'', JStr (cf_TLSCertFile x)),
      (''tls_key_file'', JStr (cf_TLSKeyFile x)),
      (''panel_tls_cert_file'', JStr (cf_PanelTLSCertFile x)),
      (''panel_tls_key_file'', JStr (cf_PanelTLSKeyFile x)),
      (''session_hours'', JInt (cf_SessionHours x)),
      (''session_secret'', JStr (cf_SessionSecret x)),
      (''session_epoch'', JInt (cf_SessionEpoch x)),
      (''secure_cookies'', JBool (cf_SecureCookies x)),
      (''panel_public_url'', JStr (cf_PanelPublicURL x)),
      (''insecure_upstream'', JBool (cf_InsecureUpstream x)),
      (''admin_allowed_cidrs'', JStrs (cf_AdminAllowedCIDRs x)),
      (''panel_admins'', JStrs (cf_PanelAdmins x)),
      (''login_max_fails'', JInt (cf_LoginMaxFails x)),
      (''lockout_minutes'', JInt (cf_LockoutMinutes x)),
      (''acme'', JObj (acme_json (cf_ACME x))),
      (''azure'', JObj (azure_json (cf_Azure x))),
      (''ldap'', JObj (ldap_json (cf_LDAP x))),
      (''local_admin'', JObj (local_admin_json (cf_LocalAdmin x))),
      (''totp'', JObj (totp_json (cf_TOTP x))),
      (''health_check'', JObj (health_json (cf_HealthCheck x))),
      (''rules'', JArr (map (JObj \<circ> rule_json) (cf_Rules x))),
      (''stream_rules'', JArr (map (JObj \<circ> stream_json) (cf_StreamRules x))),
      (''storage'', JObj (storage_json (cf_Storage x)))]"

definition config_field :: "string \<Rightarrow> json \<Rightarrow> Config \<Rightarrow> Config option" where
  "config_field k v x =
     (if k = ''admin_port'' then map_option (\<lambda>y. x\<lparr>cf_AdminPort := y\<rparr>) (dec_int v (cf_AdminPort x))
      else if k = ''proxy_http_port'' then map_option (\<lambda>y. x\<lparr>cf_ProxyHTTPPort := y\<rparr>) (dec_int v (cf_ProxyHTTPPort x))
      else if k = ''proxy_https_port'' then map_option (\<lambda>y. x\<lparr>cf_ProxyHTTPSPort := y\<rparr>) (dec_int v (cf_ProxyHTTPSPort x))
      else if k = ''tls_cert_file'' then map_option (\<lambda>y. x\<lparr>cf_TLSCertFile := y\<rparr>) (dec_str v (cf_TLSCertFile x))
      else if k = ''tls_key_file'' then map_option (\<lambda>y. x\<lparr>cf_TLSKeyFile := y\<rparr>) (dec_str v (cf_TLSKeyFile x))
      else if k = ''panel_tls_cert_file'' then map_option (\<lambda>y. x\<lparr>cf_PanelTLSCertFile := y\<rparr>) (dec_str v (cf_PanelTLSCertFile x))
      else if k = ''panel_tls_key_file'' then map_option (\<lambda>y. x\<lparr>cf_PanelTLSKeyFile := y\<rparr>) (dec_str v (cf_PanelTLSKeyFile x))
      else if k = ''session_hours'' then map_option (\<lambda>y. x\<lparr>cf_SessionHours := y\<rparr>) (dec_int v (cf_SessionHours x))
      else if k = ''session_secret'' then map_option (\<lambda>y. x\<lparr>cf_SessionSecret := y\<rparr>) (dec_str v (cf_SessionSecret x))
      else if k = ''session_epoch'' then map_option (\<lambda>y. x\<lparr>cf_SessionEpoch := y\<rparr>) (dec_int v (cf_SessionEpoch x))
      else if k = ''secure_cookies'' then map_option (\<lambda>y. x\<lparr>cf_SecureCookies := y\<rparr>) (dec_bool v (cf_SecureCookies x))
      else if k = ''panel_public_url'' then map_option (\<lambda>y. x\<lparr>cf_PanelPublicURL := y\<rparr>) (dec_str v (cf_PanelPublicURL x))
      else if k = ''insecure_upstream'' then map_option (\<lambda>y. x\<lparr>cf_InsecureUpstream := y\<rparr>) (dec_bool v (cf_InsecureUpstream x))
      else if k = ''admin_allowed_cidrs'' then map_option (\<lambda>y. x\<lparr>cf_AdminAllowedCIDRs := y\<rparr>) (dec_strs v)
      else if k = ''panel_admins'' then map_option (\<lambda>y. x\<lparr>cf_PanelAdmins := y\<rparr>) (dec_strs v)
      else if k = ''login_max_fails'' then map_option (\<lambda>y. x\<lparr>cf_LoginMaxFails := y\<rparr>) (dec_int v (cf_LoginMaxFails x))
      else if k = ''lockout_minutes'' then map_option (\<lambda>y. x\<lparr>cf_LockoutMinutes := y\<rparr>) (dec_int v (cf_LockoutMinutes x))
      else if k = ''acme'' then map_option (\<lambda>y. x\<lparr>cf_ACME := y\<rparr>) (dec_struct acme_field v (cf_ACME x))
      else if k = ''azure'' then map_option (\<lambda>y. x\<lparr>cf_Azure := y\<rparr>) (dec_struct azure_field v (cf_Azure x))
      else if k = ''ldap'' then map_option (\<lambda>y. x\<lparr>cf_LDAP := y\<rparr>) (dec_struct ldap_field v (cf_LDAP x))
      else if k = ''local_admin'' then map_option (\<lambda>y. x\<lparr>cf_LocalAdmin := y\<rparr>) (dec_struct local_admin_field v (cf_LocalAdmin x))
      else if k = ''totp'' then map_option (\<lambda>y. x\<lparr>cf_TOTP := y\<rparr>) (dec_struct totp_field v (cf_TOTP x))
      else if k = ''health_check'' then map_option (\<lambda>y. x\<lparr>cf_HealthCheck := y\<rparr>) (dec_struct health_field v (cf_HealthCheck x))
      else if k = ''rules'' then map_option (\<lambda>y. x\<lparr>cf_Rules := y\<rparr>) (dec_list (\<lambda>y. dec_struct rule_field y no_rule) v)
      else if k = ''stream_rules'' then map_option (\<lambda>y. x\<lparr>cf_StreamRules := y\<rparr>) (dec_list (\<lambda>y. dec_struct stream_field y no_stream) v)
      else if k = ''storage'' then map_option (\<lambda>y. x\<lparr>cf_Storage := y\<rparr>) (dec_struct storage_field v (cf_Storage x))
      else Some x)"

lemma config_field_simps [simp]:
  "config_field ''admin_port'' v x = map_option (\<lambda>y. x\<lparr>cf_AdminPort := y\<rparr>) (dec_int v (cf_AdminPort x))"
  "config_field ''proxy_http_port'' v x = map_option (\<lambda>y. x\<lparr>cf_ProxyHTTPPort := y\<rparr>) (dec_int v (cf_ProxyHTTPPort x))"
  "config_field ''proxy_https_port'' v x = map_option (\<lambda>y. x\<lparr>cf_ProxyHTTPSPort := y\<rparr>) (dec_int v (cf_ProxyHTTPSPort x))"
  "config_field ''tls_cert_file'' v x = map_option (\<lambda>y. x\<lparr>cf_TLSCertFile := y\<rparr>) (dec_str v (cf_TLSCertFile x))"
  "config_field ''tls_key_file'' v x = map_option (\<lambda>y. x\<lparr>cf_TLSKeyFile := y\<rparr>) (dec_str v (cf_TLSKeyFile x))"
  "config_field ''panel_tls_cert_file'' v x = map_option (\<lambda>y. x\<lparr>cf_PanelTLSCertFile := y\<rparr>) (dec_str v (cf_PanelTLSCertFile x))"
  "config_field ''panel_tls_key_file'' v x = map_option (\<lambda>y. x\<lparr>cf_PanelTLSKeyFile := y\<rparr>) (dec_str v (cf_PanelTLSKeyFile x))"
  "config_field ''session_hours'' v x = map_option (\<lambda>y. x\<lparr>cf_SessionHours := y\<rparr>) (dec_int v (cf_SessionHours x))"
  "config_field ''session_secret'' v x = map_option (\<lambda>y. x\<lparr>cf_SessionSecret := y\<rparr>) (dec_str v (cf_SessionSecret x))"
  "config_field ''session_epoch'' v x = map_option (\<lambda>y. x\<lparr>cf_SessionEpoch := y\<rparr>) (dec_int v (cf_SessionEpoch x))"
  "config_field ''secure_cookies'' v x = map_option (\<lambda>y. x\<lparr>cf_SecureCookies := y\<rparr>) (dec_bool v (cf_SecureCookies x))"
  "config_field ''panel_public_url'' v x = map_option (\<lambda>y. x\<lparr>cf_PanelPublicURL := y\<rparr>) (dec_str v (cf_PanelPublicURL x))"
  "config_field ''insecure_upstream'' v x = map_option (\<lambda>y. x\<lparr>cf_InsecureUpstream := y\<rparr>) (dec_bool v (cf_InsecureUpstream x))"
  "config_field ''admin_allowed_cidrs'' v x = map_option (\<lambda>y. x\<lparr>cf_AdminAllowedCIDRs := y\<rparr>) (dec_strs v)"
  "config_field ''panel_admins'' v x = map_option (\<lambda>y. x\<lparr>cf_PanelAdmins := y\<rparr>) (dec_strs v)"
  "config_field ''login_max_fails'' v x = map_option (\<lambda>y. x\<lparr>cf_LoginMaxFails := y\<rparr>) (dec_int v (cf_LoginMaxFails x))"
  "config_field ''lockout_minutes'' v x = map_option (\<lambda>y. x\<lparr>cf_LockoutMinutes := y\<rparr>) (dec_int v (cf_LockoutMinutes x))"
  "config_field ''acme'' v x = map_option (\<lambda>y. x\<lparr>cf_ACME := y\<rparr>) (dec_struct acme_field v (cf_ACME x))"
  "config_field ''azure'' v x = map_option (\<lambda>y. x\<lparr>cf_Azure := y\<rparr>) (dec_struct azure_field v (cf_Azure x))"
  "config_field ''ldap'' v x = map_option (\<lambda>y. x\<lparr>cf_LDAP := y\<rparr>) (dec_struct ldap_field v (cf_LDAP x))"
  "config_field ''local_admin'' v x = map_option (\<lambda>y. x\<lparr>cf_LocalAdmin := y\<rparr>) (dec_struct local_admin_field v (cf_LocalAdmin x))"
  "config_field ''totp'' v x = map_option (\<lambda>y. x\<lparr>cf_TOTP := y\<rparr>) (dec_struct totp_field v (cf_TOTP x))"
  "config_field ''health_check'' v x = map_option (\<lambda>y. x\<lparr>cf_HealthCheck := y\<rparr>) (dec_struct health_field v (cf_HealthCheck x))"
  "config_field ''rules'' v x = map_option (\<lambda>y. x\<lparr>cf_Rules := y\<rparr>) (dec_list (\<lambda>y. dec_struct rule_field y no_rule) v)"
  "config_field ''stream_rules'' v x = map_option (\<lambda>y. x\<lparr>cf_StreamRules := y\<rparr>) (dec_list (\<lambda>y. dec_struct stream_field y no_stream) v)"
  "config_field ''storage'' v x = map_option (\<lambda>y. x\<lparr>cf_Storage := y\<rparr>) (dec_struct storage_field v (cf_Storage x))"
  by (simp_all add: config_field_def)

section \<open>Reading back\<close>

lemma dec_storage:
  "int64 (sc_BackupIntervalMinutes x) \<Longrightarrow> int64 (sc_BackupKeep x) \<Longrightarrow> dec_obj storage_field (storage_json x) y = Some x"
  by (simp add: storage_json_def)

lemma dec_local_admin:
  "dec_obj local_admin_field (local_admin_json x) y = Some x"
  by (simp add: local_admin_json_def)

lemma dec_azure:
  "dec_obj azure_field (azure_json x) y = Some x"
  by (simp add: azure_json_def)

lemma dec_ldap:
  "dec_obj ldap_field (ldap_json x) y = Some x"
  by (simp add: ldap_json_def)

lemma dec_target:
  "int64 (bt_Weight x) \<Longrightarrow> dec_obj target_field (target_json x) y = Some x"
  by (simp add: target_json_def)

lemma dec_stream:
  "int64 (sr_TimeoutSec x) \<Longrightarrow> dec_obj stream_field (stream_json x) no_stream = Some x"
  by (cases x) (simp add: stream_json_def no_stream_def)

lemma dec_secret:
  "dec_obj secret_field (secret_json x) y = Some x"
  by (simp add: secret_json_def)

lemma dec_acme:
  "dec_obj acme_field (acme_json x) y = Some x"
  by (simp add: acme_json_def)

lemma dec_health:
  "int64 (hk_IntervalSec x) \<Longrightarrow> int64 (hk_TimeoutSec x) \<Longrightarrow> int64 (hk_Failures x) \<Longrightarrow> dec_obj health_field (health_json x) y = Some x"
  by (simp add: health_json_def)

lemma those_targets:
  "\<forall>x \<in> set xs. int64 (bt_Weight x) \<Longrightarrow>
   dec_list (\<lambda>y. dec_struct target_field y \<lparr>bt_URL = [], bt_Weight = 0\<rparr>)
     (JArr (map (JObj \<circ> target_json) xs)) = Some xs"
  by (rule dec_list_written) (simp add: dec_struct_def dec_target)

lemma dec_rule:
  "\<forall>t \<in> set (r_Targets x). int64 (bt_Weight t) \<Longrightarrow> dec_obj rule_field (rule_json x) no_rule = Some x"
  using those_targets [of "r_Targets x"]
  by (cases x) (simp add: rule_json_def no_rule_def del: map_map)

definition sorted_secrets :: "Config \<Rightarrow> Config" where
  "sorted_secrets c =
     c\<lparr>cf_TOTP := (cf_TOTP c)\<lparr>to_Secrets := map_option (sort_key fst) (to_Secrets (cf_TOTP c))\<rparr>\<rparr>"

lemma dec_entries_written:
  "distinct (map fst (m @ kvs)) \<Longrightarrow>
   dec_entries (map (\<lambda>(k, s). (k, JObj (secret_json s))) kvs) m = Some (m @ kvs)"
proof (induction kvs arbitrary: m)
  case (Cons kv kvs)
  obtain k s where kv: "kv = (k, s)" by (cases kv)
  have "AList.update k s m = m @ [(k, s)]" if "k \<notin> fst ` set m" for m
    using that by (induction m) auto
  then have "AList.update k s m = m @ [(k, s)]" using Cons.prems kv by simp
  with Cons.IH [of "m @ [(k, s)]"] Cons.prems kv show ?case
    by (simp add: dec_struct_def dec_secret)
qed simp

lemma distinct_sort_key: "distinct (map fst kvs) \<Longrightarrow> distinct (map fst (sort_key fst kvs))"
  by (metis mset_map mset_sort mset_eq_imp_distinct_iff)

lemma dec_totp:
  assumes "distinct (map fst (nil_map (to_Secrets x)))" "nil_map (to_Secrets y) = []"
  shows "dec_obj totp_field (totp_json x) y =
     Some (x\<lparr>to_Secrets := map_option (sort_key fst) (to_Secrets x)\<rparr>)"
proof (cases "to_Secrets x")
  case None
  then show ?thesis by (simp add: totp_json_def secrets_json_def dec_secrets_def)
next
  case (Some kvs)
  then have "dec_entries (map (\<lambda>(k, s). (k, JObj (secret_json s))) (sort_key fst kvs)) [] =
      Some (sort_key fst kvs)"
    using assms(1) dec_entries_written [of "[]" "sort_key fst kvs"] by (simp add: distinct_sort_key)
  with Some assms(2) show ?thesis by (simp add: totp_json_def secrets_json_def dec_secrets_def)
qed

text \<open>The numbers of a configuration fit their 64 bits, and its map has no key twice.\<close>

definition config_ok :: "Config \<Rightarrow> bool" where
  "config_ok c \<longleftrightarrow>
     list_all int64 [cf_AdminPort c, cf_ProxyHTTPPort c, cf_ProxyHTTPSPort c, cf_SessionHours c,
       cf_SessionEpoch c, cf_LoginMaxFails c, cf_LockoutMinutes c,
       hk_IntervalSec (cf_HealthCheck c), hk_TimeoutSec (cf_HealthCheck c), hk_Failures (cf_HealthCheck c),
       sc_BackupIntervalMinutes (cf_Storage c), sc_BackupKeep (cf_Storage c)] \<and>
     list_all (\<lambda>r. list_all (\<lambda>t. int64 (bt_Weight t)) (r_Targets r)) (cf_Rules c) \<and>
     list_all (\<lambda>s. int64 (sr_TimeoutSec s)) (cf_StreamRules c) \<and>
     distinct (map fst (nil_map (to_Secrets (cf_TOTP c))))"

lemma those_rules:
  "list_all (\<lambda>r. list_all (\<lambda>t. int64 (bt_Weight t)) (r_Targets r)) rs \<Longrightarrow>
   dec_list (\<lambda>y. dec_struct rule_field y no_rule) (JArr (map (JObj \<circ> rule_json) rs)) = Some rs"
  by (rule dec_list_written) (simp add: dec_struct_def dec_rule list_all_iff)

lemma those_streams:
  "list_all (\<lambda>s. int64 (sr_TimeoutSec s)) ss \<Longrightarrow>
   dec_list (\<lambda>y. dec_struct stream_field y no_stream) (JArr (map (JObj \<circ> stream_json) ss)) = Some ss"
  by (rule dec_list_written) (simp add: dec_struct_def dec_stream list_all_iff)

lemma dec_config:
  assumes "config_ok c" "nil_map (to_Secrets (cf_TOTP base)) = []"
  shows "dec_obj config_field (config_json c) base = Some (sorted_secrets c)"
  using assms those_rules [of "cf_Rules c"] those_streams [of "cf_StreamRules c"]
  by (simp add: config_json_def config_ok_def dec_struct_def dec_acme dec_azure dec_ldap
      dec_local_admin dec_totp dec_health dec_storage sorted_secrets_def del: map_map)

lemma ok_members_map: "ok_members (map f xs) = (\<forall>x \<in> set xs. ok_json (snd (f x)))"
proof (induction xs)
  case (Cons x xs)
  then show ?case by (cases "f x") simp
qed simp

lemma config_json_ok: "ok_members (config_json c)"
  by (simp add: config_json_def acme_json_def azure_json_def ldap_json_def local_admin_json_def
      totp_json_def health_json_def storage_json_def rule_json_def target_json_def stream_json_def
      secret_json_def secrets_json_def ok_elems_map ok_members_map case_prod_beta split: option.split)

section \<open>Text\<close>

text \<open>\<open>MarshalIndent\<close> writes the same with line breaks and indentation, which reading skips.\<close>

definition marshal_config :: "Config \<Rightarrow> string" where
  "marshal_config c = print_json (JObj (config_json c))"

definition unmarshal_config :: "string \<Rightarrow> Config \<Rightarrow> Config option" where
  "unmarshal_config s base =
     (case Unmarshal s of None \<Rightarrow> None | Some v \<Rightarrow> dec_struct config_field v base)"

lemma unmarshal_marshal_config:
  "config_ok c \<Longrightarrow> nil_map (to_Secrets (cf_TOTP base)) = [] \<Longrightarrow>
   unmarshal_config (marshal_config c) base = Some (sorted_secrets c)"
  by (simp add: unmarshal_config_def marshal_config_def Unmarshal_print config_json_ok
      dec_struct_def dec_config del: print_json.simps)

end
