(* ===== verification/Config.thy ===== *)
theory Config
  imports ConfigJson
begin

text \<open>
  \<open>internal/config/config.go\<close>: filling in defaults, keeping the sensitive values sealed, and the
  store with its three copies of the configuration (in memory, in the local file, in the
  cluster's backend).

  Random bytes, the bcrypt hash of the default password and the outcomes of file and network
  operations are arguments: \<open>draws\<close> for the former, \<open>io\<close> for the latter. The backend's side of an
  operation is the record \<open>remote\<close>. Locks are not modelled: each operation is one step, which is
  what the two mutexes of the store are for.
\<close>

section \<open>Sensitive values\<close>

record draws =
  dr_crypto :: crypto
  dr_fresh :: string
  dr_nonce :: "string \<Rightarrow> string"
  dr_raw :: string
  dr_hash :: "string option"

fun seal_entries ::
  "draws \<Rightarrow> (string \<times> TOTPSecret) list \<Rightarrow> keyfile \<Rightarrow> (string \<times> TOTPSecret) list \<times> keyfile" where
  "seal_entries d [] kf = ([], kf)"
| "seal_entries d ((k, v) # kvs) kf =
     (case Seal (dr_crypto d) (dr_fresh d) (dr_nonce d (''totp|'' @ k)) (ts_Secret v) kf of
        (t, kf') \<Rightarrow> (case seal_entries d kvs kf' of
           (kvs', kf'') \<Rightarrow> ((k, v\<lparr>ts_Secret := t\<rparr>) # kvs', kf'')))"

fun open_entries ::
  "draws \<Rightarrow> (string \<times> TOTPSecret) list \<Rightarrow> keyfile \<Rightarrow> (string \<times> TOTPSecret) list \<times> keyfile" where
  "open_entries d [] kf = ([], kf)"
| "open_entries d ((k, v) # kvs) kf =
     (case Open (dr_crypto d) (dr_fresh d) (ts_Secret v) kf of
        (t, kf') \<Rightarrow> (case open_entries d kvs kf' of
           (kvs', kf'') \<Rightarrow> ((k, v\<lparr>ts_Secret := t\<rparr>) # kvs', kf'')))"

text \<open>The four kinds of sensitive values replaced in a configuration.\<close>

definition put_sensitive ::
  "string \<Rightarrow> string \<Rightarrow> string \<Rightarrow> (string \<times> TOTPSecret) list \<Rightarrow> Config \<Rightarrow> Config" where
  "put_sensitive session client dsn entries c =
     c\<lparr>cf_SessionSecret := session,
       cf_Azure := (cf_Azure c)\<lparr>az_ClientSecret := client\<rparr>,
       cf_Storage := (cf_Storage c)\<lparr>sc_DSN := dsn\<rparr>,
       cf_TOTP := (cf_TOTP c)\<lparr>to_Secrets := map_option (\<lambda>_. entries) (to_Secrets (cf_TOTP c))\<rparr>\<rparr>"

definition sealSensitive :: "draws \<Rightarrow> Config \<Rightarrow> keyfile \<Rightarrow> Config \<times> keyfile" where
  "sealSensitive d c kf =
     (let (session, kf1) = Seal (dr_crypto d) (dr_fresh d) (dr_nonce d ''session'') (cf_SessionSecret c) kf;
          (client, kf2) = Seal (dr_crypto d) (dr_fresh d) (dr_nonce d ''client'')
             (az_ClientSecret (cf_Azure c)) kf1;
          (dsn, kf3) = Seal (dr_crypto d) (dr_fresh d) (dr_nonce d ''dsn'') (sc_DSN (cf_Storage c)) kf2;
          (entries, kf4) = seal_entries d (nil_map (to_Secrets (cf_TOTP c))) kf3
      in (put_sensitive session client dsn entries c, kf4))"

definition openSensitive :: "draws \<Rightarrow> Config \<Rightarrow> keyfile \<Rightarrow> Config \<times> keyfile" where
  "openSensitive d c kf =
     (let (session, kf1) = Open (dr_crypto d) (dr_fresh d) (cf_SessionSecret c) kf;
          (client, kf2) = Open (dr_crypto d) (dr_fresh d) (az_ClientSecret (cf_Azure c)) kf1;
          (dsn, kf3) = Open (dr_crypto d) (dr_fresh d) (sc_DSN (cf_Storage c)) kf2;
          (entries, kf4) = open_entries d (nil_map (to_Secrets (cf_TOTP c))) kf3
      in (put_sensitive session client dsn entries c, kf4))"

definition stillSealed :: "Config \<Rightarrow> bool" where
  "stillSealed c \<longleftrightarrow>
     IsProtected (cf_SessionSecret c) \<or> IsProtected (az_ClientSecret (cf_Azure c)) \<or>
     IsProtected (sc_DSN (cf_Storage c)) \<or>
     list_ex (\<lambda>(k, v). IsProtected (ts_Secret v)) (nil_map (to_Secrets (cf_TOTP c)))"

section \<open>Defaults\<close>

text \<open>Each default is set by an \<open>if\<close> of its own; here an update keeps or replaces its field.\<close>

definition default_pos :: "int \<Rightarrow> int \<Rightarrow> int" where
  "default_pos v d = (if v \<le> 0 then d else v)"

definition default_str :: "string \<Rightarrow> string \<Rightarrow> string" where
  "default_str s d = (if s = [] then d else s)"

definition normalize_interval :: "int \<Rightarrow> int" where
  "normalize_interval i = (let i = (if i = 0 then 360 else i) in if i < 0 then 0 else i)"

definition with_defaults :: "draws \<Rightarrow> string \<Rightarrow> Config \<Rightarrow> Config" where
  "with_defaults d h c = c
     \<lparr>cf_SessionSecret := default_str (cf_SessionSecret c) (HexEncode (dr_raw d)),
      cf_LoginMaxFails := default_pos (cf_LoginMaxFails c) 5,
      cf_LockoutMinutes := default_pos (cf_LockoutMinutes c) 15,
      cf_ACME := (cf_ACME c)\<lparr>ac_CacheDir := default_str (ac_CacheDir (cf_ACME c)) ''acme-cache''\<rparr>,
      cf_TOTP := (cf_TOTP c)\<lparr>to_Secrets := Some (nil_map (to_Secrets (cf_TOTP c)))\<rparr>,
      cf_LocalAdmin := (cf_LocalAdmin c)
        \<lparr>la_PasswordHash := h,
         la_Username := default_str (la_Username (cf_LocalAdmin c)) ''admin''\<rparr>,
      cf_Storage := (cf_Storage c)
        \<lparr>sc_BackupIntervalMinutes := normalize_interval (sc_BackupIntervalMinutes (cf_Storage c)),
         sc_BackupKeep := default_pos (sc_BackupKeep (cf_Storage c)) 10\<rparr>,
      cf_HealthCheck := (cf_HealthCheck c)
        \<lparr>hk_IntervalSec := default_pos (hk_IntervalSec (cf_HealthCheck c)) 30,
         hk_TimeoutSec := default_pos (hk_TimeoutSec (cf_HealthCheck c)) 5,
         hk_Failures := default_pos (hk_Failures (cf_HealthCheck c)) 3\<rparr>\<rparr>"

definition normalize :: "draws \<Rightarrow> Config \<Rightarrow> Config option" where
  "normalize d c =
     (case (if la_PasswordHash (cf_LocalAdmin c) = [] then dr_hash d
            else Some (la_PasswordHash (cf_LocalAdmin c))) of
        None \<Rightarrow> None
      | Some h \<Rightarrow> Some (with_defaults d h c))"

datatype config_error =
    BadConfigJson
  | HashFailed
  | ErrKeyMismatch
  | ErrRead
  | ErrWrite
  | ErrBackendLoad
  | ErrBackendSave

definition bom :: string where
  "bom = [byte 0xEF, byte 0xBB, byte 0xBF]"

definition decodeConfig :: "draws \<Rightarrow> string \<Rightarrow> keyfile \<Rightarrow> (config_error + Config) \<times> keyfile" where
  "decodeConfig d data kf =
     (case unmarshal_config (TrimPrefix data bom) no_config of
        None \<Rightarrow> (Inl BadConfigJson, kf)
      | Some c \<Rightarrow>
          (case normalize d c of
             None \<Rightarrow> (Inl HashFailed, kf)
           | Some c \<Rightarrow>
               (case openSensitive d c kf of (c, kf') \<Rightarrow>
                  (if stillSealed c then Inl ErrKeyMismatch else Inr c, kf'))))"

section \<open>The store\<close>

record remote =
  rm_name :: string
  rm_data :: string

record Store =
  s_cfg :: Config
  s_local :: "string option"
  s_backups :: "(string \<times> string) list"
  s_key :: keyfile
  s_backend :: "remote option"
  s_backendOK :: bool
  s_lastVer :: string

text \<open>
  What the outside world does during one operation: whether the local file can be written, the
  backups directory made, the backend read and written, what version the backend reports (\<open>None\<close>:
  an error) and the second it happens in, as the name of a backup has it.
\<close>

record io =
  io_local :: bool
  io_backups :: bool
  io_load :: bool
  io_save :: bool
  io_version :: "string option"
  io_stamp :: string

definition with_tag :: "string \<Rightarrow> draws \<Rightarrow> draws" where
  "with_tag tag d = d\<lparr>dr_nonce := (\<lambda>l. dr_nonce d (tag @ l))\<rparr>"

definition is_backup_name :: "string \<Rightarrow> bool" where
  "is_backup_name n \<longleftrightarrow> HasPrefix n ''config-'' \<and> HasSuffix n ''.json''"

definition pruneBackups :: "(string \<times> string) list \<Rightarrow> (string \<times> string) list" where
  "pruneBackups dir =
     (let names = sort (filter is_backup_name (map fst dir));
          old = take (length names - 10) names
      in filter (\<lambda>e. fst e \<notin> set old) dir)"

definition backupConfig :: "io \<Rightarrow> Store \<Rightarrow> Store" where
  "backupConfig x s =
     (case s_local s of
        None \<Rightarrow> s
      | Some data \<Rightarrow>
          if io_backups x
          then s\<lparr>s_backups := pruneBackups
                  (AList.update (''config-'' @ io_stamp x @ ''.json'') data (s_backups s))\<rparr>
          else s)"

definition pushToBackend :: "draws \<Rightarrow> io \<Rightarrow> remote \<Rightarrow> Store \<Rightarrow> bool \<times> Store" where
  "pushToBackend d x r s =
     (case sealSensitive (with_tag ''remote|'' d) (s_cfg s) (s_key s) of (c, kf) \<Rightarrow>
        if io_save x
        then (True, s\<lparr>s_key := kf, s_backend := Some (r\<lparr>rm_data := marshal_config c\<rparr>)\<rparr>)
        else (False, s\<lparr>s_key := kf\<rparr>))"

definition version_or_empty :: "io \<Rightarrow> string" where
  "version_or_empty x = (case io_version x of None \<Rightarrow> [] | Some v \<Rightarrow> v)"

definition Save :: "draws \<Rightarrow> io \<Rightarrow> Store \<Rightarrow> config_error option \<times> Store" where
  "Save d x s =
     (case sealSensitive d (s_cfg s) (s_key s) of (c, kf) \<Rightarrow>
        (let data = marshal_config c;
             s1 = backupConfig x (s\<lparr>s_key := kf\<rparr>)
         in if \<not> io_local x then (Some ErrWrite, s1)
            else (let s2 = s1\<lparr>s_local := Some data\<rparr>
                  in case s_backend s2 of
                       None \<Rightarrow> (None, s2)
                     | Some r \<Rightarrow>
                         (case pushToBackend d x r s2 of (ok, s3) \<Rightarrow>
                            if \<not> ok then (Some ErrBackendSave, s3\<lparr>s_backendOK := False\<rparr>)
                            else (None, s3\<lparr>s_backendOK := True, s_lastVer := version_or_empty x\<rparr>)))))"

definition persistLocal :: "draws \<Rightarrow> io \<Rightarrow> Store \<Rightarrow> config_error option \<times> Store" where
  "persistLocal d x s =
     (case sealSensitive d (s_cfg s) (s_key s) of (c, kf) \<Rightarrow>
        if io_local x then (None, s\<lparr>s_key := kf, s_local := Some (marshal_config c)\<rparr>)
        else (Some ErrWrite, s\<lparr>s_key := kf\<rparr>))"

definition Update :: "draws \<Rightarrow> io \<Rightarrow> (Config \<Rightarrow> Config) \<Rightarrow> Store \<Rightarrow> config_error option \<times> Store" where
  "Update d x fn s = Save d x (s\<lparr>s_cfg := fn (s_cfg s)\<rparr>)"

text \<open>
  The configuration a file is read over. \<open>Load\<close> reads the file at \<open>path\<close> (\<open>None\<close> in \<open>file\<close> is no
  file; \<open>readable\<close> whether reading one works), with \<open>kf\<close> the key file beside it.
\<close>

definition load_base :: Config where
  "load_base =
     no_config\<lparr>cf_AdminPort := 8000, cf_ProxyHTTPPort := 80, cf_ProxyHTTPSPort := 443,
       cf_SessionHours := 12,
       cf_Azure := (cf_Azure no_config)\<lparr>az_RedirectURL := ''http://localhost:8000/auth/callback''\<rparr>,
       cf_LDAP := (cf_LDAP no_config)\<lparr>ld_UserFilter := ''(sAMAccountName=%s)''\<rparr>,
       cf_LocalAdmin := (cf_LocalAdmin no_config)\<lparr>la_Enabled := True, la_Username := ''admin''\<rparr>\<rparr>"

definition Load ::
  "draws \<Rightarrow> io \<Rightarrow> bool \<Rightarrow> string option \<Rightarrow> (string \<times> string) list \<Rightarrow> keyfile \<Rightarrow> config_error + Store" where
  "Load d x readable file backups kf =
     (case (case file of
              None \<Rightarrow> Inr load_base
            | Some data \<Rightarrow>
                if \<not> readable then Inl ErrRead
                else (case unmarshal_config (TrimPrefix data bom) load_base of
                        None \<Rightarrow> Inl BadConfigJson
                      | Some c \<Rightarrow> Inr c)) of
        Inl e \<Rightarrow> Inl e
      | Inr c \<Rightarrow>
          (case normalize d c of
             None \<Rightarrow> Inl HashFailed
           | Some c \<Rightarrow>
               (case openSensitive d c kf of (c, kf') \<Rightarrow>
                  (case Save d x \<lparr>s_cfg = c, s_local = file, s_backups = backups, s_key = kf',
                       s_backend = None, s_backendOK = False, s_lastVer = []\<rparr> of
                     (None, s) \<Rightarrow> Inr s
                   | (Some e, s) \<Rightarrow> Inl e))))"

definition SetBackend :: "draws \<Rightarrow> io \<Rightarrow> remote \<Rightarrow> Store \<Rightarrow> config_error option \<times> Store" where
  "SetBackend d x r s =
     (let s = s\<lparr>s_backend := Some r, s_backendOK := True\<rparr>
      in if \<not> io_load x then (Some ErrBackendLoad, s\<lparr>s_backendOK := False\<rparr>)
         else if rm_data r = [] then
           (case pushToBackend d x r s of (ok, s') \<Rightarrow>
              if \<not> ok then (Some ErrBackendSave, s'\<lparr>s_backendOK := False\<rparr>)
              else (None, s'\<lparr>s_lastVer := version_or_empty x\<rparr>))
         else (case decodeConfig d (rm_data r) (s_key s) of
                 (Inl e, kf) \<Rightarrow> (Some e, s\<lparr>s_key := kf\<rparr>)
               | (Inr c, kf) \<Rightarrow>
                   persistLocal d x (s\<lparr>s_key := kf, s_cfg := c, s_lastVer := version_or_empty x\<rparr>)))"

definition ReloadFromBytes :: "draws \<Rightarrow> io \<Rightarrow> string \<Rightarrow> Store \<Rightarrow> config_error option \<times> Store" where
  "ReloadFromBytes d x data s =
     (case decodeConfig d data (s_key s) of
        (Inl e, kf) \<Rightarrow> (Some e, s\<lparr>s_key := kf\<rparr>)
      | (Inr c, kf) \<Rightarrow> persistLocal d x (s\<lparr>s_key := kf, s_cfg := c\<rparr>))"

definition BackendStatus :: "Store \<Rightarrow> string \<times> bool \<times> string" where
  "BackendStatus s =
     (case s_backend s of
        None \<Rightarrow> (''file'', True, [])
      | Some r \<Rightarrow> (rm_name r, s_backendOK s, s_lastVer s))"

definition MarkBackend :: "bool \<Rightarrow> Store \<Rightarrow> Store" where
  "MarkBackend ok s = s\<lparr>s_backendOK := ok\<rparr>"

definition NoteBackendVersion :: "string \<Rightarrow> Store \<Rightarrow> Store" where
  "NoteBackendVersion v s = (if v \<noteq> [] then s\<lparr>s_lastVer := v\<rparr> else s)"

text \<open>Passwords: \<open>check\<close> is bcrypt's comparison of a hash and a password.\<close>

definition IsDefaultPassword :: "(string \<Rightarrow> string \<Rightarrow> bool) \<Rightarrow> LocalAdminConfig \<Rightarrow> bool" where
  "IsDefaultPassword check la \<longleftrightarrow>
     la_PasswordHash la \<noteq> [] \<and> check (la_PasswordHash la) ''Admin123!''"

lemmas config_defs [step_defs] = Save_def Update_def persistLocal_def SetBackend_def ReloadFromBytes_def

section \<open>Sealing and opening a configuration\<close>

definition ctx :: "draws \<Rightarrow> keyfile \<Rightarrow> vault_ctx" where
  "ctx d kf = \<lparr>vc_crypto = dr_crypto d, vc_key = kf, vc_fresh = dr_fresh d, vc_nonce = dr_nonce d\<rparr>"

definition draws_ok :: "draws \<Rightarrow> keyfile \<Rightarrow> bool" where
  "draws_ok d kf \<longleftrightarrow> vault_good (ctx d kf)"

definition map_sensitive :: "(string \<Rightarrow> string \<Rightarrow> string) \<Rightarrow> Config \<Rightarrow> Config" where
  "map_sensitive f c =
     put_sensitive (f ''session'' (cf_SessionSecret c)) (f ''client'' (az_ClientSecret (cf_Azure c)))
       (f ''dsn'' (sc_DSN (cf_Storage c)))
       (map (\<lambda>(k, v). (k, v\<lparr>ts_Secret := f (''totp|'' @ k) (ts_Secret v)\<rparr>))
          (nil_map (to_Secrets (cf_TOTP c)))) c"

lemma seal_entries_text:
  assumes "draws_ok d kf"
  shows "seal_entries d kvs kf =
     (map (\<lambda>(k, v). (k, v\<lparr>ts_Secret := seal_text (ctx d kf) (''totp|'' @ k) (ts_Secret v)\<rparr>)) kvs, kf)"
  using Seal_text [of "ctx d kf"] assms
  by (induction kvs) (auto simp: draws_ok_def ctx_def)

lemma open_entries_text:
  assumes "draws_ok d kf"
  shows "open_entries d kvs kf =
     (map (\<lambda>(k, v). (k, v\<lparr>ts_Secret := open_text (ctx d kf) (ts_Secret v)\<rparr>)) kvs, kf)"
  using Open_text [of "ctx d kf"] assms
  by (induction kvs) (auto simp: draws_ok_def ctx_def)

lemma sealSensitive_text:
  "draws_ok d kf \<Longrightarrow> sealSensitive d c kf = (map_sensitive (seal_text (ctx d kf)) c, kf)"
  using Seal_text [of "ctx d kf"] seal_entries_text [of d kf]
  by (simp add: sealSensitive_def map_sensitive_def draws_ok_def ctx_def)

lemma openSensitive_text:
  "draws_ok d kf \<Longrightarrow> openSensitive d c kf = (map_sensitive (\<lambda>l. open_text (ctx d kf)) c, kf)"
  using Open_text [of "ctx d kf"] open_entries_text [of d kf]
  by (simp add: openSensitive_def map_sensitive_def draws_ok_def ctx_def)

lemma with_tag_ok: "draws_ok (with_tag t d) kf = draws_ok d kf" if "\<forall>l. length (dr_nonce d l) = 12"
  using that by (simp add: draws_ok_def vault_good_def ctx_def with_tag_def)

lemma draws_ok_with_tag [simp]: "draws_ok d kf \<Longrightarrow> draws_ok (with_tag t d) kf"
  by (simp add: draws_ok_def vault_good_def ctx_def with_tag_def)

lemma map_sensitive_sel [simp]:
  "cf_SessionSecret (map_sensitive f c) = f ''session'' (cf_SessionSecret c)"
  "az_ClientSecret (cf_Azure (map_sensitive f c)) = f ''client'' (az_ClientSecret (cf_Azure c))"
  "sc_DSN (cf_Storage (map_sensitive f c)) = f ''dsn'' (sc_DSN (cf_Storage c))"
  by (simp_all add: map_sensitive_def put_sensitive_def)

lemma nil_map_map_sensitive:
  "nil_map (to_Secrets (cf_TOTP (map_sensitive f c))) =
     map (\<lambda>(k, v). (k, v\<lparr>ts_Secret := f (''totp|'' @ k) (ts_Secret v)\<rparr>))
       (nil_map (to_Secrets (cf_TOTP c)))"
  by (cases "to_Secrets (cf_TOTP c)") (simp_all add: map_sensitive_def put_sensitive_def)

lemma map_sensitive_id:
  assumes "f ''session'' (cf_SessionSecret c) = cf_SessionSecret c"
    "f ''client'' (az_ClientSecret (cf_Azure c)) = az_ClientSecret (cf_Azure c)"
    "f ''dsn'' (sc_DSN (cf_Storage c)) = sc_DSN (cf_Storage c)"
    "\<forall>(k, v) \<in> set (nil_map (to_Secrets (cf_TOTP c))). f (''totp|'' @ k) (ts_Secret v) = ts_Secret v"
  shows "map_sensitive f c = c"
proof -
  have "map (\<lambda>(k, v). (k, v\<lparr>ts_Secret := f (''totp|'' @ k) (ts_Secret v)\<rparr>))
      (nil_map (to_Secrets (cf_TOTP c))) = nil_map (to_Secrets (cf_TOTP c))"
    using assms(4) by (intro map_idI) auto
  then show ?thesis
    using assms(1-3)
    by (cases "to_Secrets (cf_TOTP c)") (simp_all add: map_sensitive_def put_sensitive_def)
qed

lemma map_sensitive_comp:
  "map_sensitive f (map_sensitive g c) = map_sensitive (\<lambda>l s. f l (g l s)) c"
proof (cases "to_Secrets (cf_TOTP c)")
  case None
  then show ?thesis by (simp add: map_sensitive_def put_sensitive_def)
next
  case (Some kvs)
  then show ?thesis
    by (simp add: map_sensitive_def put_sensitive_def case_prod_beta comp_def)
qed

lemma open_seal_config:
  assumes "draws_ok d kf" "\<not> stillSealed c"
  shows "map_sensitive (\<lambda>l. open_text (ctx d kf)) (map_sensitive (seal_text (ctx d kf)) c) = c"
  unfolding map_sensitive_comp
  using assms vt.unseal_seal [of "ctx d kf"]
  by (intro map_sensitive_id) (auto simp: draws_ok_def stillSealed_def list_ex_iff)

text \<open>Opening depends on the cryptography and the key alone, not on what is drawn.\<close>

lemma open_text_cong:
  assumes "draws_ok d kf" "draws_ok d' kf'" "dr_crypto d' = dr_crypto d" "kf_data kf' = kf_data kf"
  shows "open_text (ctx d' kf') s = open_text (ctx d kf) s"
  using assms by (simp add: open_text_def ctx_def draws_ok_def vault_good_def Open_ready)

section \<open>Normal configurations\<close>

text \<open>The configurations that \<open>normalize\<close> leaves alone.\<close>

definition is_normal :: "Config \<Rightarrow> bool" where
  "is_normal c \<longleftrightarrow>
     cf_SessionSecret c \<noteq> [] \<and> 0 < cf_LoginMaxFails c \<and> 0 < cf_LockoutMinutes c \<and>
     ac_CacheDir (cf_ACME c) \<noteq> [] \<and> to_Secrets (cf_TOTP c) \<noteq> None \<and>
     la_PasswordHash (cf_LocalAdmin c) \<noteq> [] \<and> la_Username (cf_LocalAdmin c) \<noteq> [] \<and>
     0 < sc_BackupIntervalMinutes (cf_Storage c) \<and> 0 < sc_BackupKeep (cf_Storage c) \<and>
     0 < hk_IntervalSec (cf_HealthCheck c) \<and> 0 < hk_TimeoutSec (cf_HealthCheck c) \<and>
     0 < hk_Failures (cf_HealthCheck c)"

lemma normalize_id: "is_normal c \<Longrightarrow> normalize d c = Some c"
  by (auto simp: normalize_def with_defaults_def is_normal_def default_pos_def default_str_def
      normalize_interval_def)

lemma is_normal_seal:
  assumes "draws_ok d kf" "is_normal c"
  shows "is_normal (map_sensitive (seal_text (ctx d kf)) c)"
proof -
  have "seal_text (ctx d kf) ''session'' (cf_SessionSecret c) \<noteq> []"
    using assms vt.seal_marks [of "ctx d kf" "cf_SessionSecret c" "''session''"] IsProtected_Nil
    by (auto simp: draws_ok_def is_normal_def)
  then show ?thesis using assms(2) by (auto simp: is_normal_def map_sensitive_def put_sensitive_def)
qed

lemma is_normal_sorted: "is_normal c \<Longrightarrow> is_normal (sorted_secrets c)"
  by (auto simp: is_normal_def sorted_secrets_def)

lemma config_ok_map_sensitive [simp]: "config_ok (map_sensitive f c) = config_ok c"
proof -
  have "map fst (nil_map (to_Secrets (cf_TOTP (map_sensitive f c)))) =
      map fst (nil_map (to_Secrets (cf_TOTP c)))"
    by (simp add: nil_map_map_sensitive case_prod_beta comp_def)
  then show ?thesis by (simp add: config_ok_def map_sensitive_def put_sensitive_def)
qed

lemma sort_key_map: "(\<And>x. f (g x) = f x) \<Longrightarrow> sort_key f (map g xs) = map g (sort_key f xs)"
proof -
  assume f: "\<And>x. f (g x) = f x"
  have "insort_key f (g x) (map g ys) = map g (insort_key f x ys)" for x ys
    by (induction ys) (simp_all add: f)
  then show ?thesis by (induction xs) simp_all
qed

lemma sorted_map_sensitive:
  "sorted_secrets (map_sensitive f c) = map_sensitive f (sorted_secrets c)"
proof -
  let ?g = "\<lambda>(k, v). (k, v\<lparr>ts_Secret := f (''totp|'' @ k) (ts_Secret v)\<rparr>)"
  have "sort_key fst (map ?g kvs) = map ?g (sort_key fst kvs)"
    for kvs :: "(string \<times> TOTPSecret) list"
    by (rule sort_key_map) auto
  then show ?thesis
    by (cases "to_Secrets (cf_TOTP c)")
      (simp_all add: sorted_secrets_def map_sensitive_def put_sensitive_def)
qed

lemma stillSealed_sorted [simp]: "stillSealed (sorted_secrets c) = stillSealed c"
  by (cases "to_Secrets (cf_TOTP c)")
    (simp_all add: stillSealed_def sorted_secrets_def list_ex_iff)

lemma TrimPrefix_marshal [simp]: "TrimPrefix (marshal_config c) bom = marshal_config c"
proof -
  have "byte 0xEF \<noteq> CHR ''{''" by code_simp
  then show ?thesis by (auto simp: TrimPrefix_def HasPrefix_def bom_def marshal_config_def)
qed

text \<open>
  What one node writes, sealed, is what any node with the same key and cryptography reads: over
  the zero configuration (from the backend) or over the defaults (from the file).
\<close>

lemma open_written:
  assumes "draws_ok d kf" "draws_ok d' kf'" "dr_crypto d' = dr_crypto d" "kf_data kf' = kf_data kf"
    "config_ok c" "is_normal c" "\<not> stillSealed c" "nil_map (to_Secrets (cf_TOTP base)) = []"
    "m = marshal_config (map_sensitive (seal_text (ctx d kf)) c)"
  shows "unmarshal_config (TrimPrefix m bom) base =
      Some (map_sensitive (seal_text (ctx d kf)) (sorted_secrets c))"
    and "normalize d' (map_sensitive (seal_text (ctx d kf)) (sorted_secrets c)) =
      Some (map_sensitive (seal_text (ctx d kf)) (sorted_secrets c))"
    and "openSensitive d' (map_sensitive (seal_text (ctx d kf)) (sorted_secrets c)) kf' =
      (sorted_secrets c, kf')"
proof -
  show "unmarshal_config (TrimPrefix m bom) base =
      Some (map_sensitive (seal_text (ctx d kf)) (sorted_secrets c))"
    using assms(5,8,9) by (simp add: unmarshal_marshal_config sorted_map_sensitive)
  show "normalize d' (map_sensitive (seal_text (ctx d kf)) (sorted_secrets c)) =
      Some (map_sensitive (seal_text (ctx d kf)) (sorted_secrets c))"
    by (intro normalize_id is_normal_seal is_normal_sorted assms(1,6))
  have "map_sensitive (\<lambda>l. open_text (ctx d' kf')) = map_sensitive (\<lambda>l. open_text (ctx d kf))"
    using open_text_cong [OF assms(1-4)] by presburger
  then show "openSensitive d' (map_sensitive (seal_text (ctx d kf)) (sorted_secrets c)) kf' =
      (sorted_secrets c, kf')"
    using openSensitive_text [OF assms(2)] open_seal_config [OF assms(1), of "sorted_secrets c"]
      assms(7) by simp
qed

lemma decodeConfig_written:
  assumes "draws_ok d kf" "draws_ok d' kf'" "dr_crypto d' = dr_crypto d" "kf_data kf' = kf_data kf"
    "config_ok c" "is_normal c" "\<not> stillSealed c"
  shows "decodeConfig d' (marshal_config (map_sensitive (seal_text (ctx d kf)) c)) kf' =
     (Inr (sorted_secrets c), kf')"
  using open_written [OF assms, of no_config] assms(7)
  by (simp add: decodeConfig_def)

lemma backupConfig_sel [simp]:
  "s_cfg (backupConfig x s) = s_cfg s" "s_key (backupConfig x s) = s_key s"
  "s_local (backupConfig x s) = s_local s" "s_backend (backupConfig x s) = s_backend s"
  "s_backendOK (backupConfig x s) = s_backendOK s" "s_lastVer (backupConfig x s) = s_lastVer s"
  by (simp_all add: backupConfig_def split: option.split)

section \<open>Properties\<close>

text \<open>
  C12: What a node saves it finds again at its next start: the same configuration, with its
  secrets in the clear in memory (and the TOTP entries in key order), for every configuration in
  normal form whose secrets do not look sealed themselves.
\<close>

theorem save_then_load:
  assumes "draws_ok d (s_key s)" "draws_ok d' (s_key s)" "dr_crypto d' = dr_crypto d"
    "config_ok (s_cfg s)" "is_normal (s_cfg s)" "\<not> stillSealed (s_cfg s)"
    "s_backend s = None" "io_local x" "io_local x'"
  shows "\<exists>s' s''. Save d x s = (None, s') \<and>
     Load d' x' True (s_local s') (s_backups s') (s_key s') = Inr s'' \<and>
     s_cfg s'' = sorted_secrets (s_cfg s) \<and> s_key s'' = s_key s"
proof -
  let ?m = "marshal_config (map_sensitive (seal_text (ctx d (s_key s))) (s_cfg s))"
  have "nil_map (to_Secrets (cf_TOTP load_base)) = []" by (simp add: load_base_def)
  note O = open_written [OF assms(1-3) refl assms(4-6) this refl]
  have "Save d x s = (None, (backupConfig x s)\<lparr>s_local := Some ?m\<rparr>)"
    using sealSensitive_text [OF assms(1)] assms(7,8) by (simp add: Save_def Let_def)
  moreover have "\<exists>s''. Load d' x' True (Some ?m) b (s_key s) = Inr s'' \<and>
      s_cfg s'' = sorted_secrets (s_cfg s) \<and> s_key s'' = s_key s" for b
    using O sealSensitive_text [OF assms(2)] assms(9) by (simp add: Load_def Save_def Let_def)
  ultimately show ?thesis by simp
qed

text \<open>
  C13: What one node of a cluster saves reaches another node that has the same key: reloading the
  bytes it pushed gives the same configuration there, in memory and in the other's file.
\<close>

theorem cluster_propagates:
  assumes "draws_ok d (s_key a)" "draws_ok d' (s_key b)" "dr_crypto d' = dr_crypto d"
    "kf_data (s_key b) = kf_data (s_key a)"
    "config_ok (s_cfg a)" "is_normal (s_cfg a)" "\<not> stillSealed (s_cfg a)"
    "s_backend a = Some r" "io_local x" "io_save x" "io_local x'"
  shows "\<exists>a' r' b'. Save d x a = (None, a') \<and> s_backend a' = Some r' \<and>
     ReloadFromBytes d' x' (rm_data r') b = (None, b') \<and> s_cfg b' = sorted_secrets (s_cfg a) \<and>
     s_backendOK a'"
proof -
  let ?t = "with_tag ''remote|'' d"
  have t: "draws_ok ?t (s_key a)" "dr_crypto d' = dr_crypto ?t"
    using assms(1,3) by simp (simp add: assms(3) with_tag_def)
  note D = decodeConfig_written [OF t(1) assms(2) t(2) assms(4-7)]
  have "\<exists>a'. Save d x a = (None, a') \<and> s_backendOK a' \<and> s_backend a' =
      Some (r\<lparr>rm_data := marshal_config (map_sensitive (seal_text (ctx ?t (s_key a))) (s_cfg a))\<rparr>)"
    using sealSensitive_text [OF assms(1)] sealSensitive_text [OF t(1)] assms(8-10)
    by (simp add: Save_def pushToBackend_def Let_def)
  then show ?thesis
    using D sealSensitive_text [OF assms(2)] assms(11)
    by (auto simp: ReloadFromBytes_def persistLocal_def)
qed


text \<open>
  When the cluster cannot be joined, the store keeps the backend it could not use: from then
  on every save is reported as failed, although the program says it goes on with the file alone.
\<close>

theorem failed_backend_stays:
  assumes "SetBackend d x r s = (Some e, s')"
  shows "s_backend s' \<noteq> None \<and>
     (io_local x' \<and> \<not> io_save x' \<longrightarrow> fst (Save d' x' s') = Some ErrBackendSave)"
proof -
  have b: "s_backend s' = Some r"
    using assms
    by (auto simp: SetBackend_def pushToBackend_def persistLocal_def Let_def
        split: if_splits prod.splits sum.splits)
  then show ?thesis
    by (auto simp: Save_def pushToBackend_def Let_def split: prod.splits)
qed

text \<open>
  C14: A node with the wrong key never takes over a configuration it cannot read: if nothing the
  writer sealed opens under the reader's key, reloading fails with the key mismatch and changes
  neither the memory nor the file of the reader.
\<close>

theorem wrong_key_refused:
  assumes "draws_ok d (s_key a)" "draws_ok d' (s_key b)" "dr_crypto d' = dr_crypto d"
    "\<not> cr_supported (dr_crypto d)"
    "\<forall>nonce pt. cr_open (dr_crypto d) (the (kf_data (s_key b))) nonce
       (cr_seal (dr_crypto d) (the (kf_data (s_key a))) nonce pt) = None"
    "config_ok (s_cfg a)" "is_normal (s_cfg a)" "\<not> stillSealed (s_cfg a)"
    "s_backend a = Some r" "io_local x" "io_save x"
  shows "\<exists>a' r'. Save d x a = (None, a') \<and> s_backend a' = Some r' \<and>
     ReloadFromBytes d' x' (rm_data r') b = (Some ErrKeyMismatch, b)"
proof -
  let ?t = "with_tag ''remote|'' d"
  let ?v = "ctx ?t (s_key a)"
  let ?c = "map_sensitive (seal_text ?v) (sorted_secrets (s_cfg a))"
  have t: "draws_ok ?t (s_key a)" "dr_crypto ?t = dr_crypto d"
    using assms(1) by simp (simp add: with_tag_def)
  have u: "unmarshal_config (TrimPrefix (marshal_config (map_sensitive (seal_text ?v) (s_cfg a))) bom)
      no_config = Some ?c"
    using assms(6) by (simp add: unmarshal_marshal_config sorted_map_sensitive)
  have n: "normalize d' ?c = Some ?c"
    by (intro normalize_id is_normal_seal is_normal_sorted t(1) assms(7))
  have s: "cf_SessionSecret (sorted_secrets (s_cfg a)) \<noteq> []"
    "\<not> IsProtected (cf_SessionSecret (sorted_secrets (s_cfg a)))"
    using assms(7,8) by (simp_all add: is_normal_def stillSealed_def sorted_secrets_def)
  have "open_text (ctx d' (s_key b)) (cf_SessionSecret ?c) = cf_SessionSecret ?c"
    using open_with_other_key [of ?v, OF _ _ s] t assms(2-5)
    by (simp add: open_text_def ctx_def draws_ok_def vault_good_def Open_ready)
  moreover have "IsProtected (cf_SessionSecret ?c)"
    using vt.seal_marks [of ?v, OF _ s(1)] t(1) by (simp add: draws_ok_def)
  ultimately have "decodeConfig d' (marshal_config (map_sensitive (seal_text ?v) (s_cfg a))) (s_key b) =
      (Inl ErrKeyMismatch, s_key b)"
    using u n openSensitive_text [OF assms(2)] by (simp add: decodeConfig_def stillSealed_def)
  moreover have "\<exists>a'. Save d x a = (None, a') \<and> s_backend a' =
      Some (r\<lparr>rm_data := marshal_config (map_sensitive (seal_text ?v) (s_cfg a))\<rparr>)"
    using sealSensitive_text [OF assms(1)] sealSensitive_text [OF t(1)] assms(9-11)
    by (simp add: Save_def pushToBackend_def Let_def)
  ultimately show ?thesis by (auto simp: ReloadFromBytes_def)
qed

definition sealed_or_empty :: "string \<Rightarrow> bool" where
  "sealed_or_empty s \<longleftrightarrow> s = [] \<or> IsProtected s"

definition at_rest :: "Config \<Rightarrow> bool" where
  "at_rest c \<longleftrightarrow>
     sealed_or_empty (cf_SessionSecret c) \<and> sealed_or_empty (az_ClientSecret (cf_Azure c)) \<and>
     sealed_or_empty (sc_DSN (cf_Storage c)) \<and>
     list_all (\<lambda>(k, v). sealed_or_empty (ts_Secret v)) (nil_map (to_Secrets (cf_TOTP c)))"


text \<open>
  \<open>normalize\<close> fills in every default, and normalising twice is normalising once, except for
  automatic backups that are switched off: a negative interval becomes 0, and 0 becomes the
  default of 360 minutes the next time.
\<close>

theorem normalize_twice:
  assumes "normalize d c = Some c'" "dr_raw d \<noteq> []" "dr_hash d \<noteq> Some []"
  shows "is_normal (c'\<lparr>cf_Storage := (cf_Storage c')\<lparr>sc_BackupIntervalMinutes := 360\<rparr>\<rparr>) \<and>
     normalize d' c' = Some (if sc_BackupIntervalMinutes (cf_Storage c) < 0
       then c'\<lparr>cf_Storage := (cf_Storage c')\<lparr>sc_BackupIntervalMinutes := 360\<rparr>\<rparr> else c')"
proof -
  have i: "normalize_interval (normalize_interval i) = (if i < 0 then 360 else normalize_interval i)"
    for i by (simp add: normalize_interval_def)
  have s: "default_str (default_str x y) z = default_str x y" "default_str x y \<noteq> []"
    if "y \<noteq> []" for x y z using that by (simp_all add: default_str_def)
  have p: "default_pos (default_pos x y) z = default_pos x y" "0 < default_pos x y"
    if "0 < y" for x y z using that by (simp_all add: default_pos_def)
  have r: "HexEncode (dr_raw d) \<noteq> []" using assms(2) by (cases "dr_raw d") (simp_all add: HexEncode_def)
  obtain h where h: "c' = with_defaults d h c" "h \<noteq> []"
    using assms(1,3) by (auto simp: normalize_def split: if_splits option.splits)
  have "is_normal (c'\<lparr>cf_Storage := (cf_Storage c')\<lparr>sc_BackupIntervalMinutes := 360\<rparr>\<rparr>)"
    using s(2) [OF r] h(2) by (simp add: h(1) with_defaults_def is_normal_def s p)
  moreover have "normalize d' c' = Some (with_defaults d' h c')"
    by (simp add: h normalize_def) (simp add: h with_defaults_def)
  moreover have "with_defaults d' h c' = (if sc_BackupIntervalMinutes (cf_Storage c) < 0
       then c'\<lparr>cf_Storage := (cf_Storage c')\<lparr>sc_BackupIntervalMinutes := 360\<rparr>\<rparr> else c')"
    using s(1) [OF r] by (simp add: h(1) with_defaults_def i s p)
  ultimately show ?thesis by presburger
qed

text \<open>
  Pruning keeps exactly the ten newest copies, since their names sort by date, and removes
  nothing but copies.
\<close>

theorem prune_keeps_newest:
  assumes "distinct (map fst dir)"
  shows "sort (filter is_backup_name (map fst (pruneBackups dir))) =
     (let names = sort (filter is_backup_name (map fst dir)) in drop (length names - 10) names) \<and>
   filter (\<lambda>e. \<not> is_backup_name (fst e)) (pruneBackups dir) =
     filter (\<lambda>e. \<not> is_backup_name (fst e)) dir"
proof -
  let ?names = "sort (filter is_backup_name (map fst dir))"
  let ?old = "take (length ?names - 10) ?names"
  have *: "filter (\<lambda>n. n \<notin> set (take k ns)) ns = drop k ns" if "distinct ns" for k and ns :: "string list"
  proof -
    have "set (take k ns) \<inter> set (drop k ns) = {}"
      using that append_take_drop_id [of k ns] distinct_append by metis
    then have "filter (\<lambda>n. n \<notin> set (take k ns)) (take k ns @ drop k ns) = drop k ns"
      by (subst filter_append) (auto simp: filter_empty_conv intro!: filter_True)
    then show ?thesis by simp
  qed
  have "filter is_backup_name (map fst (pruneBackups dir)) =
      filter (\<lambda>n. n \<notin> set ?old) (filter is_backup_name (map fst dir))"
    by (simp add: pruneBackups_def Let_def filter_map comp_def conj_commute)
  then have "sort (filter is_backup_name (map fst (pruneBackups dir))) =
      filter (\<lambda>n. n \<notin> set ?old) ?names"
    by (simp only: filter_sort)
  moreover have "set ?old \<subseteq> set ?names" by (rule set_take_subset)
  then have "\<forall>n \<in> set ?old. is_backup_name n" by auto
  then have "fst e \<notin> set ?old \<and> \<not> is_backup_name (fst e) \<longleftrightarrow> \<not> is_backup_name (fst e)" for e :: "string \<times> string"
    by blast
  then have "filter (\<lambda>e. \<not> is_backup_name (fst e)) (pruneBackups dir) =
      filter (\<lambda>e. \<not> is_backup_name (fst e)) dir"
    by (simp only: pruneBackups_def Let_def filter_filter)
  moreover have "distinct ?names" using assms by simp
  ultimately show ?thesis unfolding Let_def using * by presburger
qed

section \<open>Concrete instances\<close>

text \<open>
  A cryptography that satisfies its contract: the sealed text carries the key in front. Two keys,
  one configuration with all defaults and a store that holds it.
\<close>

definition tag_crypto :: crypto where
  "tag_crypto =
     \<lparr>cr_supported = False, cr_dpapiSeal = (\<lambda>pt. None), cr_dpapiOpen = (\<lambda>blob. None),
      cr_seal = (\<lambda>key nonce pt. key @ pt),
      cr_open = (\<lambda>key nonce ct. if take (length key) ct = key then Some (drop (length key) ct) else None)\<rparr>"

definition sample_draws :: draws where
  "sample_draws = \<lparr>dr_crypto = tag_crypto, dr_fresh = replicate 32 CHR ''f'',
     dr_nonce = (\<lambda>l. replicate 12 CHR ''n''), dr_raw = ''r'', dr_hash = Some ''h''\<rparr>"

definition sample_key :: "char \<Rightarrow> keyfile" where
  "sample_key ch = \<lparr>kf_path = ''secrets.key'', kf_data = Some (replicate 32 ch), kf_writable = True\<rparr>"

definition sample_config :: Config where
  "sample_config = with_defaults sample_draws ''h'' no_config"

definition sample_io :: io where
  "sample_io = \<lparr>io_local = True, io_backups = True, io_load = True, io_save = True,
     io_version = Some ''1'', io_stamp = ''20250101-000000''\<rparr>"

definition sample_store :: "char \<Rightarrow> remote option \<Rightarrow> Store" where
  "sample_store ch r = \<lparr>s_cfg = sample_config, s_local = None, s_backups = [], s_key = sample_key ch,
     s_backend = r, s_backendOK = True, s_lastVer = []\<rparr>"

lemma sample_draws_ok [simp]: "draws_ok sample_draws (sample_key ch)"
  by (simp add: draws_ok_def vault_good_def ctx_def sample_draws_def sample_key_def crypto_ok_def
      tag_crypto_def key_ready_def)

lemma sample_config_ok [simp]:
  "config_ok sample_config" "is_normal sample_config" "\<not> stillSealed sample_config"
  "sorted_secrets sample_config = sample_config"
  by code_simp+

lemma sample_store_sel [simp]:
  "s_cfg (sample_store ch r) = sample_config" "s_key (sample_store ch r) = sample_key ch"
  "s_backend (sample_store ch r) = r" "s_local (sample_store ch r) = None"
  "io_local sample_io" "io_save sample_io" "io_load sample_io"
  by (simp_all add: sample_store_def sample_io_def)

theorem save_then_load_witness:
  "\<exists>s' s''. Save sample_draws sample_io (sample_store CHR ''k'' None) = (None, s') \<and>
     Load sample_draws sample_io True (s_local s') (s_backups s') (s_key s') = Inr s'' \<and>
     s_cfg s'' = sample_config \<and> s_key s'' = sample_key CHR ''k''"
  using save_then_load [of sample_draws "sample_store CHR ''k'' None" sample_draws sample_io sample_io]
  by simp

theorem cluster_propagates_witness:
  "\<exists>a' r' b'. Save sample_draws sample_io (sample_store CHR ''k'' (Some \<lparr>rm_name = ''p'', rm_data = []\<rparr>)) =
       (None, a') \<and> s_backend a' = Some r' \<and>
     ReloadFromBytes sample_draws sample_io (rm_data r') (sample_store CHR ''k'' None) = (None, b') \<and>
     s_cfg b' = sample_config \<and> s_backendOK a'"
  using cluster_propagates [of sample_draws
      "sample_store CHR ''k'' (Some \<lparr>rm_name = ''p'', rm_data = []\<rparr>)" sample_draws
      "sample_store CHR ''k'' None" "\<lparr>rm_name = ''p'', rm_data = []\<rparr>" sample_io sample_io]
  by simp

theorem failed_backend_stays_witness:
  "\<exists>s'. SetBackend sample_draws (sample_io\<lparr>io_load := False\<rparr>) \<lparr>rm_name = ''p'', rm_data = []\<rparr>
       (sample_store CHR ''k'' None) = (Some ErrBackendLoad, s') \<and> s_backend s' \<noteq> None \<and>
     fst (Save sample_draws (sample_io\<lparr>io_save := False\<rparr>) s') = Some ErrBackendSave"
proof -
  obtain s' where s: "SetBackend sample_draws (sample_io\<lparr>io_load := False\<rparr>)
      \<lparr>rm_name = ''p'', rm_data = []\<rparr> (sample_store CHR ''k'' None) = (Some ErrBackendLoad, s')"
    by (simp add: SetBackend_def Let_def)
  show ?thesis
    using failed_backend_stays [OF s, of "sample_io\<lparr>io_save := False\<rparr>" sample_draws] s
    by (auto simp: sample_io_def)
qed

theorem wrong_key_refused_witness:
  "\<exists>a' r'. Save sample_draws sample_io (sample_store CHR ''k'' (Some \<lparr>rm_name = ''p'', rm_data = []\<rparr>)) =
       (None, a') \<and> s_backend a' = Some r' \<and>
     ReloadFromBytes sample_draws sample_io (rm_data r') (sample_store CHR ''q'' None) =
       (Some ErrKeyMismatch, sample_store CHR ''q'' None)"
proof -
  have "\<not> cr_supported tag_crypto" by (simp add: tag_crypto_def)
  moreover have "cr_open tag_crypto (replicate 32 CHR ''q'') nonce
      (cr_seal tag_crypto (replicate 32 CHR ''k'') nonce pt) = None" for nonce pt
    by (simp add: tag_crypto_def numeral_eq_Suc)
  ultimately show ?thesis
    using wrong_key_refused [of sample_draws
      "sample_store CHR ''k'' (Some \<lparr>rm_name = ''p'', rm_data = []\<rparr>)" sample_draws
      "sample_store CHR ''q'' None" "\<lparr>rm_name = ''p'', rm_data = []\<rparr>" sample_io sample_io]
    by (simp add: sample_draws_def [symmetric]) (simp add: sample_draws_def sample_key_def)
qed


theorem normalize_twice_witness:
  "normalize sample_draws (with_defaults sample_draws ''h'' sample_config) = Some sample_config"
proof -
  have "normalize sample_draws no_config = Some sample_config" by code_simp
  moreover have "with_defaults sample_draws ''h'' sample_config = sample_config"
    "\<not> sc_BackupIntervalMinutes (cf_Storage no_config) < 0" by code_simp+
  ultimately show ?thesis
    using normalize_twice [of sample_draws no_config sample_config sample_draws]
    by (simp add: sample_draws_def)
qed

theorem prune_keeps_newest_witness:
  "sort (filter is_backup_name (map fst (pruneBackups [(''config-1.json'', ''a''), (''x'', ''b'')]))) =
     [''config-1.json'']"
proof -
  have "sort (filter is_backup_name (map fst [(''config-1.json'', ''a''), (''x'', ''b'')])) =
      [''config-1.json'']" by code_simp
  then show ?thesis
    using prune_keeps_newest [of "[(''config-1.json'', ''a''), (''x'', ''b'')]"] by (simp add: Let_def)
qed

end
