(* ===== verification/Access.thy ===== *)
theory Access
  imports Tokens "HOL-Library.Word"
begin

text \<open>
  Who may do what: the lists of allowed users and groups of \<open>internal/auth/auth.go\<close>, the identities
  of a user and whether a second factor is due (\<open>login_flow.go\<close>), the roles of the panel
  (\<open>isPanelAdmin\<close> of \<open>internal/server/admin.go\<close>) and the list of networks of
  \<open>internal/security/security.go\<close>.

  An IP address is its 16 byte form, a word of 128 bits. Of package \<open>net\<close> the dotted form of IPv4,
  \<open>SplitHostPort\<close>, \<open>ParseCIDR\<close> and \<open>Contains\<close> are modelled; reading the text of an IPv6 address
  is the argument \<open>p6\<close>.
\<close>

unbundle bit_operations_syntax

section \<open>Users and groups\<close>

definition norm :: "string \<Rightarrow> string" where
  "norm s = ToLower (TrimSpace s)"

fun match_list :: "string \<Rightarrow> string list \<Rightarrow> bool" where
  "match_list v [] = False"
| "match_list v (item # items) =
     (let it = norm item
      in if it = [] then match_list v items
         else if HasPrefix it ''@'' then (if HasSuffix v it then True else match_list v items)
         else if v = it then True
         else match_list v items)"

definition matchAllowed :: "string \<Rightarrow> string list \<Rightarrow> bool" where
  "matchAllowed value list = (let v = norm value in if v = [] then False else match_list v list)"

definition userAllowed :: "UserClaims \<Rightarrow> string list \<Rightarrow> string list \<Rightarrow> bool" where
  "userAllowed u allowedEmails allowedGroups =
     (if allowedGroups \<noteq> [] \<and> \<not> list_ex (\<lambda>g. matchAllowed g allowedGroups) (uc_Groups u) then False
      else if allowedEmails = [] then True
      else matchAllowed (uc_Email u) allowedEmails)"

definition identityCandidates :: "UserClaims \<Rightarrow> string list" where
  "identityCandidates u =
     (let e = norm (uc_Email u);
          mail = (if e \<noteq> [] \<and> e \<noteq> ''@''
                  then e # (case IndexByte e (CHR ''@'') of
                              None \<Rightarrow> []
                            | Some at \<Rightarrow> if 0 < at \<and> \<not> HasSuffix e ''@local'' then [take at e] else [])
                  else []);
          sub = (case LastIndexByte (uc_Sub u) (CHR ''|'') of
                   None \<Rightarrow> []
                 | Some i \<Rightarrow>
                     if i + 1 < length (uc_Sub u)
                     then (let suf = norm (drop (i + 1) (uc_Sub u)) in if suf \<noteq> [] then [suf] else [])
                     else [])
      in mail @ sub)"

definition NeedsSecondFactor :: "Config \<Rightarrow> UserClaims \<Rightarrow> bool" where
  "NeedsSecondFactor cfg u =
     (if \<not> to_Enabled (cf_TOTP cfg) then False
      else list_ex (\<lambda>c. matchAllowed c (to_RequireFor (cf_TOTP cfg))) (identityCandidates u))"

definition totpKeyOf :: "UserClaims \<Rightarrow> string" where
  "totpKeyOf u = norm (uc_Email u)"

text \<open>\<open>None\<close> is the nil user.\<close>

definition isPanelAdmin :: "UserClaims option \<Rightarrow> Config \<Rightarrow> bool" where
  "isPanelAdmin u cfg =
     (if cf_PanelAdmins cfg = [] then True
      else (case u of
              None \<Rightarrow> False
            | Some u \<Rightarrow>
                list_ex (\<lambda>cand. list_ex (\<lambda>adm. EqualFold (TrimSpace adm) cand) (cf_PanelAdmins cfg))
                  (identityCandidates u)))"

section \<open>Addresses and networks\<close>

type_synonym ipaddr = "128 word"
type_synonym ip6_parser = "string \<Rightarrow> ipaddr option"

definition mapped :: "32 word \<Rightarrow> ipaddr" where
  "mapped w = push_bit 32 0xFFFF OR ucast w"

text \<open>\<open>ip.To4() != nil\<close>\<close>

definition is4 :: "ipaddr \<Rightarrow> bool" where
  "is4 a \<longleftrightarrow> drop_bit 32 a = 0xFFFF"

definition octet :: "string \<Rightarrow> nat option" where
  "octet s = (if all_digits s \<and> (length s = 1 \<or> hd s \<noteq> CHR ''0'') \<and> str_nat s \<le> 255
     then Some (str_nat s) else None)"

definition parse_ip4 :: "string \<Rightarrow> ipaddr option" where
  "parse_ip4 s =
     (case map octet (Split s (CHR ''.'')) of
        [Some a, Some b, Some c, Some d] \<Rightarrow>
          Some (mapped (word_of_nat (((a * 256 + b) * 256 + c) * 256 + d)))
      | _ \<Rightarrow> None)"

text \<open>The first dot, colon or percent sign decides; the flag tells the dotted form.\<close>

fun parse_addr_at :: "ip6_parser \<Rightarrow> string \<Rightarrow> string \<Rightarrow> (ipaddr \<times> bool) option" where
  "parse_addr_at p6 s [] = None"
| "parse_addr_at p6 s (c # cs) =
     (if c = CHR ''.'' then map_option (\<lambda>a. (a, True)) (parse_ip4 s)
      else if c = CHR '':'' then map_option (\<lambda>a. (a, False)) (p6 s)
      else if c = CHR ''%'' then None
      else parse_addr_at p6 s cs)"

definition ParseAddr :: "ip6_parser \<Rightarrow> string \<Rightarrow> (ipaddr \<times> bool) option" where
  "ParseAddr p6 s = parse_addr_at p6 s s"

definition ParseIP :: "ip6_parser \<Rightarrow> string \<Rightarrow> ipaddr option" where
  "ParseIP p6 s = map_option fst (ParseAddr p6 s)"

text \<open>A network: its address and how many of the 128 bits count.\<close>

record cidrNet =
  cn_ip :: ipaddr
  cn_ones :: nat

definition top_bits :: "nat \<Rightarrow> ipaddr \<Rightarrow> ipaddr" where
  "top_bits n a = push_bit (128 - n) (drop_bit (128 - n) a)"

definition ParseCIDR :: "ip6_parser \<Rightarrow> string \<Rightarrow> cidrNet option" where
  "ParseCIDR p6 s =
     (case IndexByte s (CHR ''/'') of
        None \<Rightarrow> None
      | Some i \<Rightarrow>
          (case ParseAddr p6 (take i s) of
             None \<Rightarrow> None
           | Some (a, dotted) \<Rightarrow>
               let m = drop (i + 1) s; n = str_nat m
               in if all_digits m \<and> n \<le> (if dotted then 32 else 128)
                  then let ones = (if dotted then 96 + n else n)
                       in Some \<lparr>cn_ip = top_bits ones a, cn_ones = ones\<rparr>
                  else None))"

definition net_Contains :: "cidrNet \<Rightarrow> ipaddr \<Rightarrow> bool" where
  "net_Contains net a \<longleftrightarrow> is4 (cn_ip net) = is4 a \<and>
     drop_bit (128 - cn_ones net) a = drop_bit (128 - cn_ones net) (cn_ip net)"

text \<open>One entry of the list: \<open>None\<close> is an empty entry, \<open>Inl\<close> an invalid one.\<close>

definition parse_entry :: "ip6_parser \<Rightarrow> string \<Rightarrow> (string + cidrNet) option" where
  "parse_entry p6 c =
     (let c = TrimSpace c
      in if c = [] then None
         else (case (if CHR ''/'' \<notin> set c
                     then (case ParseIP p6 c of
                             Some ip \<Rightarrow> Inr (c @ ''/'' @ (if is4 ip then ''32'' else ''128''))
                           | None \<Rightarrow> Inl c)
                     else Inr c) of
                 Inl e \<Rightarrow> Some (Inl e)
               | Inr c \<Rightarrow> (case ParseCIDR p6 c of None \<Rightarrow> Some (Inl c) | Some n \<Rightarrow> Some (Inr n))))"

fun ParseCIDRList :: "ip6_parser \<Rightarrow> string list \<Rightarrow> cidrNet list \<times> string list" where
  "ParseCIDRList p6 [] = ([], [])"
| "ParseCIDRList p6 (c # cs) =
     (case ParseCIDRList p6 cs of (nets, errs) \<Rightarrow>
        (case parse_entry p6 c of
           None \<Rightarrow> (nets, errs)
         | Some (Inl e) \<Rightarrow> (nets, e # errs)
         | Some (Inr n) \<Rightarrow> (n # nets, errs)))"

definition IPInNets :: "ip6_parser \<Rightarrow> string \<Rightarrow> cidrNet list \<Rightarrow> bool" where
  "IPInNets p6 ipStr nets =
     (case ParseIP p6 (TrimSpace ipStr) of
        None \<Rightarrow> False
      | Some ip \<Rightarrow> list_ex (\<lambda>n. net_Contains n ip) nets)"

definition SplitHostPort :: "string \<Rightarrow> (string \<times> string) option" where
  "SplitHostPort s =
     (case LastIndexByte s (CHR '':'') of
        None \<Rightarrow> None
      | Some i \<Rightarrow>
          if HasPrefix s ''['' then
            (case IndexByte s (CHR '']'') of
               None \<Rightarrow> None
             | Some e \<Rightarrow>
                 if e + 1 \<noteq> i \<or> CHR ''['' \<in> set (drop 1 s) \<or> CHR '']'' \<in> set (drop (e + 1) s) then None
                 else Some (drop 1 (take e s), drop (i + 1) s))
          else if CHR '':'' \<in> set (take i s) \<or> CHR ''['' \<in> set s \<or> CHR '']'' \<in> set s then None
          else Some (take i s, drop (i + 1) s))"

definition ClientIP :: "string \<Rightarrow> string" where
  "ClientIP remote =
     (case SplitHostPort remote of None \<Rightarrow> TrimSpace remote | Some (host, _) \<Rightarrow> host)"

text \<open>\<open>isLoopback\<close>: 127.0.0.0/8 or \<open>::1\<close>.\<close>

definition isLoopback :: "ip6_parser \<Rightarrow> string \<Rightarrow> bool" where
  "isLoopback p6 remote =
     (case ParseIP p6 (case SplitHostPort remote of None \<Rightarrow> remote | Some (host, _) \<Rightarrow> host) of
        None \<Rightarrow> False
      | Some a \<Rightarrow> (if is4 a then drop_bit 24 a AND 0xFF = 127 else a = 1))"

section \<open>Facts\<close>

definition entry_matches :: "string \<Rightarrow> string \<Rightarrow> bool" where
  "entry_matches it v \<longleftrightarrow> it \<noteq> [] \<and> (if HasPrefix it ''@'' then HasSuffix v it else v = it)"

lemma match_list_Cons:
  "match_list v (item # items) \<longleftrightarrow> entry_matches (norm item) v \<or> match_list v items"
  by (simp add: entry_matches_def Let_def)

lemma match_list_iff: "match_list v list \<longleftrightarrow> (\<exists>item \<in> set list. entry_matches (norm item) v)"
  by (induction list) (simp_all add: match_list_Cons del: match_list.simps(2))

lemma matchAllowed_iff:
  "matchAllowed value list \<longleftrightarrow>
     norm value \<noteq> [] \<and> (\<exists>item \<in> set list. entry_matches (norm item) (norm value))"
  by (simp add: matchAllowed_def match_list_iff Let_def)

lemma dropWhile_stops: "dropWhile P (dropWhile P xs) = dropWhile P xs"
  by (induction xs) auto

lemma TrimSpace_idem [simp]: "TrimSpace (TrimSpace s) = TrimSpace s"
proof -
  let ?l = "dropWhile is_space s" and ?t = "dropWhile is_space (rev (dropWhile is_space s))"
  have "dropWhile is_space (rev ?t) = rev ?t"
  proof (cases "rev ?t")
    case (Cons c cs)
    obtain ws where "rev ?l = ws @ ?t" by (metis takeWhile_dropWhile_id)
    then have "?l = rev ?t @ rev ws" by (metis rev_append rev_rev_ident)
    then have "hd ?l = c" "?l \<noteq> []" using Cons by auto
    then have "\<not> is_space c" using hd_dropWhile by metis
    then show ?thesis using Cons by simp
  next
    case Nil
    then show ?thesis by (simp only: dropWhile.simps)
  qed
  then show ?thesis by (simp add: TrimSpace_def dropWhile_stops)
qed

lemma norm_idem [simp]: "norm (norm s) = norm s"
  by (simp add: norm_def TrimSpace_ToLower)

lemma nets_of_list:
  "n \<in> set (fst (ParseCIDRList p6 l)) \<longleftrightarrow> (\<exists>c \<in> set l. parse_entry p6 c = Some (Inr n))"
  by (induction l) (auto split: prod.splits option.splits sum.splits)

lemma IPInNets_iff:
  "IPInNets p6 s (fst (ParseCIDRList p6 l)) \<longleftrightarrow>
     (\<exists>a n c. ParseIP p6 (TrimSpace s) = Some a \<and> c \<in> set l \<and>
        parse_entry p6 c = Some (Inr n) \<and> net_Contains n a)"
proof (cases "ParseIP p6 (TrimSpace s)")
  case (Some a)
  have "(\<exists>n \<in> set (fst (ParseCIDRList p6 l)). net_Contains n a) \<longleftrightarrow>
      (\<exists>n c. c \<in> set l \<and> parse_entry p6 c = Some (Inr n) \<and> net_Contains n a)"
    using nets_of_list [of _ p6 l] by meson
  with Some show ?thesis by (simp add: IPInNets_def list_ex_iff)
qed (simp add: IPInNets_def)

lemma is4_mapped: "is4 (mapped w)"
proof -
  have "drop_bit 32 (ucast w :: ipaddr) = 0"
    by (rule bit_word_eqI) (auto simp: bit_drop_bit_eq bit_ucast_iff dest: bit_imp_le_length)
  then show ?thesis by (simp add: is4_def mapped_def drop_bit_or drop_bit_push_bit)
qed

lemma dotted_is4: "ParseAddr p6 s = Some (a, True) \<Longrightarrow> is4 a"
proof -
  have "parse_addr_at p6 s cs = Some (a, True) \<Longrightarrow> parse_ip4 s = Some a" for cs
    by (induction p6 s cs rule: parse_addr_at.induct) (auto split: if_splits)
  moreover have "parse_ip4 s = Some a \<Longrightarrow> is4 a"
    using is4_mapped by (auto simp: parse_ip4_def split: list.splits option.splits)
  ultimately show "ParseAddr p6 s = Some (a, True) \<Longrightarrow> is4 a"
    unfolding ParseAddr_def by blast
qed

lemma slash_entry:
  assumes "CHR ''/'' \<notin> set c" "ParseAddr p6 c = Some (a, dotted)"
  shows "ParseCIDR p6 (c @ ''/32'') = Some \<lparr>cn_ip = top_bits (if dotted then 128 else 32) a,
      cn_ones = (if dotted then 128 else 32)\<rparr>"
    and "ParseCIDR p6 (c @ ''/128'') =
      (if dotted then None else Some \<lparr>cn_ip = top_bits 128 a, cn_ones = 128\<rparr>)"
proof -
  have i: "IndexByte (c @ CHR ''/'' # m) (CHR ''/'') = Some (length c)" for m
    using assms(1) by (induction c) auto
  have "all_digits ''32''" "str_nat ''32'' = 32" "all_digits ''128''" "str_nat ''128'' = 128"
    by code_simp+
  then show "ParseCIDR p6 (c @ ''/32'') = Some \<lparr>cn_ip = top_bits (if dotted then 128 else 32) a,
      cn_ones = (if dotted then 128 else 32)\<rparr>"
    "ParseCIDR p6 (c @ ''/128'') =
      (if dotted then None else Some \<lparr>cn_ip = top_bits 128 a, cn_ones = 128\<rparr>)"
    using assms(2) by (simp_all add: ParseCIDR_def i)
qed

section \<open>Properties\<close>

text \<open>
  The list of allowed networks, with an address alone as its only entry, admits this address
  and no other. The exception is an IPv4 address written as an IPv6 one (\<open>::ffff:10.0.0.1\<close>): its
  entry becomes a network of the first 32 bits in IPv6, which does not even contain the address.
\<close>

theorem allowlist_bare_address:
  assumes "TrimSpace c = c" "c \<noteq> []" "CHR ''/'' \<notin> set c" "ParseAddr p6 c = Some (a, dotted)"
  shows "IPInNets p6 s (fst (ParseCIDRList p6 [c])) \<longleftrightarrow>
     (if dotted \<or> \<not> is4 a then ParseIP p6 (TrimSpace s) = Some a
      else \<exists>b. ParseIP p6 (TrimSpace s) = Some b \<and> \<not> is4 b \<and> drop_bit 96 b = 0)"
proof -
  have p: "ParseIP p6 c = Some a" using assms(4) by (simp add: ParseIP_def)
  have t: "top_bits 128 x = x" for x by (simp add: top_bits_def)
  have "drop_bit 96 a = 0" "top_bits 32 a = 0" if "is4 a"
  proof -
    have "drop_bit 96 a = drop_bit 64 (drop_bit 32 a)" by simp
    also have "\<dots> = drop_bit 64 0xFFFF" using that by (simp only: is4_def)
    finally show "drop_bit 96 a = 0" by simp
    then show "top_bits 32 a = 0" by (simp add: top_bits_def)
  qed
  moreover have "\<not> is4 0" by (simp add: is4_def)
  ultimately show ?thesis
    using slash_entry [OF assms(3,4)] dotted_is4 [of p6 c a] assms
    by (cases dotted; cases "is4 a")
      (auto simp: IPInNets_def parse_entry_def p t net_Contains_def split: option.splits)
qed

text \<open>
  Who may use the proxy: with groups listed, a member of one of them; with addresses listed,
  a user whose address matches one exactly or by its domain; letter case and outer spaces do not
  matter, and empty lists restrict nothing.
\<close>

theorem user_allowed_policy:
  "userAllowed u emails groups \<longleftrightarrow>
     (groups = [] \<or> (\<exists>g \<in> set (uc_Groups u). \<exists>item \<in> set groups.
        norm g \<noteq> [] \<and> entry_matches (norm item) (norm g))) \<and>
     (emails = [] \<or> (\<exists>item \<in> set emails.
        norm (uc_Email u) \<noteq> [] \<and> entry_matches (norm item) (norm (uc_Email u))))"
  by (auto simp: userAllowed_def list_ex_iff matchAllowed_iff)

theorem allowlist_bare_address_witness:
  "IPInNets (\<lambda>s. None) '' 10.0.0.1'' (fst (ParseCIDRList (\<lambda>s. None) [''10.0.0.1'']))"
proof -
  have "TrimSpace ''10.0.0.1'' = ''10.0.0.1''" "TrimSpace '' 10.0.0.1'' = ''10.0.0.1''" by code_simp+
  moreover have "map octet (Split ''10.0.0.1'' (CHR ''.'')) = [Some 10, Some 0, Some 0, Some 1]"
    by code_simp
  then have "ParseAddr (\<lambda>s. None) ''10.0.0.1'' = Some (mapped 167772161, True)"
    by (simp add: ParseAddr_def parse_ip4_def)
  ultimately show ?thesis
    using allowlist_bare_address [of "''10.0.0.1''" "\<lambda>s. None" "mapped 167772161" True "'' 10.0.0.1''"]
    by (simp add: ParseIP_def)
qed

end
