(* ===== verification/Totp.thy ===== *)
theory Totp
  imports Decimal "HOL-Library.Word" "HOL-Library.Signed_Division"
begin

text \<open>
  \<open>internal/auth/totp.go\<close>: time-based one-time codes. HMAC-SHA1 is the argument \<open>sha1\<close>, from the
  key and the data to its digest; the counter and the code are words of the widths the source
  uses. \<open>spaced_secret\<close> is the form in which \<open>handle2FAEnrollPage\<close> shows a secret to be typed in.
\<close>

unbundle bit_operations_syntax

section \<open>Operations\<close>

type_synonym digest = "string \<Rightarrow> string \<Rightarrow> string"

text \<open>The 20 random bytes are an argument (\<open>None\<close>: the source of randomness failed).\<close>

definition GenerateTOTPSecret :: "string option \<Rightarrow> string option" where
  "GenerateTOTPSecret raw = map_option B32Encode raw"

definition clean_secret :: "string \<Rightarrow> string" where
  "clean_secret s = ToUpper (ReplaceByte (ReplaceByte s (CHR '' '') []) (CHR ''-'') [])"

definition normalizeSecret :: "string \<Rightarrow> string option" where
  "normalizeSecret secret =
     (let clean = clean_secret secret in if length clean < 16 then None else B32Decode clean)"

definition PutUint64 :: "64 word \<Rightarrow> string" where
  "PutUint64 w = map (\<lambda>i. byte (unat (drop_bit (56 - 8 * i) w AND 0xFF))) [0..<8]"

definition uint32 :: "char \<Rightarrow> 32 word" where
  "uint32 c = word_of_nat (ord c)"

definition hotp :: "digest \<Rightarrow> string \<Rightarrow> 64 word \<Rightarrow> string" where
  "hotp sha1 key counter =
     (let sum = sha1 key (PutUint64 counter);
          offset = ord (last sum) mod 16;
          code = push_bit 24 (uint32 (sum ! offset) AND 0x7F) OR
                 push_bit 16 (uint32 (sum ! (offset + 1))) OR
                 push_bit 8 (uint32 (sum ! (offset + 2))) OR
                 uint32 (sum ! (offset + 3))
      in pad_nat 6 (unat (code mod 1000000)))"

text \<open>\<open>t.Unix() / 30\<close>; Go's division of integers truncates.\<close>

definition totp_counter :: "time \<Rightarrow> 64 word" where
  "totp_counter t = word_of_int ((t div Second) sdiv 30)"

definition TOTPCode :: "digest \<Rightarrow> string \<Rightarrow> time \<Rightarrow> string option" where
  "TOTPCode sha1 secret t =
     (case normalizeSecret secret of
        None \<Rightarrow> None
      | Some key \<Rightarrow> Some (hotp sha1 key (totp_counter t)))"

definition verifyTOTPCodeAt :: "digest \<Rightarrow> string \<Rightarrow> string \<Rightarrow> time \<Rightarrow> bool" where
  "verifyTOTPCodeAt sha1 secret code at =
     (case normalizeSecret secret of
        None \<Rightarrow> False
      | Some key \<Rightarrow>
          (let code = TrimSpace code; now = totp_counter at
           in length code = 6 \<and>
              list_ex (\<lambda>d. list_ex (\<lambda>c. hotp sha1 key c = code) [now + d, now - d]) [0, 1, 2]))"

fun spaced_from :: "nat \<Rightarrow> string \<Rightarrow> string" where
  "spaced_from i [] = []"
| "spaced_from i (c # cs) =
     (if 0 < i \<and> i mod 4 = 0 then [CHR '' '', c] else [c]) @ spaced_from (Suc i) cs"

definition spaced_secret :: "string \<Rightarrow> string" where
  "spaced_secret s = spaced_from 0 s"

section \<open>Facts\<close>

lemma length_hotp [simp]: "length (hotp sha1 key counter) = 6"
proof -
  have "unat (w mod 1000000) < 10 ^ 6" for w :: "32 word"
    using word_mod_less_divisor [of 1000000 w] by (simp add: word_less_nat_alt)
  then show ?thesis by (simp add: hotp_def Let_def length_pad_nat)
qed

lemma pad_nat_digits: "list_all is_digit (pad_nat w n)"
  using nat_str_digits [of n] by (auto simp: pad_nat_def list_all_iff is_digit_def)

lemma TrimSpace_no_space: "list_all (\<lambda>c. \<not> is_space c) s \<Longrightarrow> TrimSpace s = s"
proof -
  assume "list_all (\<lambda>c. \<not> is_space c) s"
  then have d: "dropWhile is_space t = t" if "set t \<subseteq> set s" for t
    using that by (cases t) (auto simp: list_all_iff)
  show ?thesis by (simp add: TrimSpace_def d)
qed

lemma TrimSpace_hotp [simp]: "TrimSpace (hotp sha1 key counter) = hotp sha1 key counter"
proof (rule TrimSpace_no_space)
  have "\<not> is_space c" if "is_digit c" for c using that by (auto simp: is_digit_def is_space_def)
  then show "list_all (\<lambda>c. \<not> is_space c) (hotp sha1 key counter)"
    using pad_nat_digits by (force simp: hotp_def Let_def list_all_iff)
qed

lemma totp_counter_nonneg: "0 \<le> t \<Longrightarrow> totp_counter t = word_of_int (t div Second div 30)"
  by (cases "t div Second = 0")
    (simp_all add: totp_counter_def signed_divide_int_def sgn_if pos_imp_zdiv_nonneg_iff Second_def)

lemma window_list:
  "list_ex (\<lambda>d. list_ex P [now + d, now - d]) [0, 1, 2] \<longleftrightarrow>
     (\<exists>d \<in> {-2..2}. P (now + word_of_int d))" for now :: "64 word"
proof -
  have "{-2..2} = {-2, -1, 0, 1, 2 :: int}" by auto
  then show ?thesis by auto
qed

lemma length_enc32: "length xs \<le> length (enc32 xs)"
  by (induction xs rule: enc32.induct) auto

lemma ReplaceByte_filter: "ReplaceByte s c [] = filter (\<lambda>x. x \<noteq> c) s"
  by (induction s) (auto simp: ReplaceByte_def)

lemma filter_spaced: "CHR '' '' \<notin> set s \<Longrightarrow> filter (\<lambda>x. x \<noteq> CHR '' '') (spaced_from i s) = s"
  by (induction s arbitrary: i) auto

lemma ToUpper_filter: "ToUpper (filter (\<lambda>x. x \<noteq> c) s) = filter (\<lambda>x. x \<noteq> c) (ToUpper s)"
  if "\<And>x. upper_char x = c \<longleftrightarrow> x = c"
  using that by (induction s) (auto simp: ToUpper_def)

lemma b32_letters:
  "c \<in> set b32_alphabet \<Longrightarrow> upper_char c = c \<and> upper_char (lower_char c) = c \<and> c \<noteq> CHR '' '' \<and>
     c \<noteq> CHR ''-'' \<and> lower_char c \<noteq> CHR '' '' \<and> lower_char c \<noteq> CHR ''-''"
proof -
  have "list_all (\<lambda>c. upper_char c = c \<and> upper_char (lower_char c) = c \<and> c \<noteq> CHR '' '' \<and>
     c \<noteq> CHR ''-'' \<and> lower_char c \<noteq> CHR '' '' \<and> lower_char c \<noteq> CHR ''-'') b32_alphabet"
    by code_simp
  then show "c \<in> set b32_alphabet \<Longrightarrow> ?thesis" by (simp add: list_all_iff)
qed

lemma clean_b32:
  assumes "set s \<subseteq> set b32_alphabet"
  shows "clean_secret s = s" "clean_secret (ToLower s) = s"
proof -
  have l: "upper_char c = c" "upper_char (lower_char c) = c" "c \<noteq> CHR '' ''" "c \<noteq> CHR ''-''"
    "lower_char c \<noteq> CHR '' ''" "lower_char c \<noteq> CHR ''-''" if "c \<in> set s" for c
    using b32_letters [of c] assms that by blast+
  have "filter (\<lambda>x. x \<noteq> CHR ''-'') (filter (\<lambda>x. x \<noteq> CHR '' '') s) = s"
    using l(3,4) by (intro filter_True [THEN trans] filter_True) (auto simp: filter_True)
  then show "clean_secret s = s"
    using l(1) by (simp add: clean_secret_def ReplaceByte_filter ToUpper_def map_idI)
  have "filter (\<lambda>x. x \<noteq> CHR '' '') (ToLower s) = ToLower s"
    "filter (\<lambda>x. x \<noteq> CHR ''-'') (ToLower s) = ToLower s"
    using l(5,6) by (auto simp: ToLower_def intro!: filter_True)
  then show "clean_secret (ToLower s) = s"
    using l(2) by (simp add: clean_secret_def ReplaceByte_filter ToUpper_def ToLower_def map_idI)
qed

lemma accepted_codes:
  "verifyTOTPCodeAt sha1 secret code t \<longleftrightarrow>
     (\<exists>key. normalizeSecret secret = Some key \<and>
       (\<exists>d \<in> {-2..2}. hotp sha1 key (totp_counter t + word_of_int d) = TrimSpace code))"
proof -
  have "length (TrimSpace code) = 6" if "hotp sha1 key c = TrimSpace code" for key c
    using that length_hotp by metis
  then show ?thesis
    unfolding verifyTOTPCodeAt_def Let_def window_list
    by (cases "normalizeSecret secret") auto
qed

text \<open>
  The code an authenticator shows is accepted by a server whose clock is up to a minute ahead or
  behind, whatever the moment within the half minute.
\<close>

lemma totp_clock_skew:
  assumes "TOTPCode sha1 secret t = Some code" "0 \<le> t" "0 \<le> t'" "\<bar>t' - t\<bar> \<le> 60 * Second"
  shows "verifyTOTPCodeAt sha1 secret code t'"
proof -
  obtain key where k: "normalizeSecret secret = Some key" "code = hotp sha1 key (totp_counter t)"
    using assms(1) by (auto simp: TOTPCode_def split: option.splits)
  let ?d = "t div Second div 30 - t' div Second div 30"
  have "?d \<in> {-2..2}" using assms(4) unfolding Second_def by auto
  moreover have "totp_counter t' + word_of_int ?d = totp_counter t"
    by (simp add: totp_counter_nonneg assms(2,3) wi_hom_add)
  ultimately show ?thesis unfolding accepted_codes using k by (metis TrimSpace_hotp)
qed

section \<open>Properties\<close>


text \<open>
  A generated secret is understood as its random bytes again in every form a user meets it:
  as it is in the QR code, in the groups of four of the page, and typed in lower case.
\<close>

theorem totp_secret_forms:
  assumes "16 \<le> length raw" "GenerateTOTPSecret (Some raw) = Some s"
  shows "normalizeSecret s = Some raw \<and> normalizeSecret (spaced_secret s) = Some raw \<and>
     normalizeSecret (ToLower s) = Some raw"
proof -
  have s: "s = B32Encode raw" "set s \<subseteq> set b32_alphabet" "16 \<le> length s"
    using assms b32.enc_alph [of raw] length_enc32 [of "map ord raw"]
    by (auto simp: GenerateTOTPSecret_def B32Encode_def)
  have "CHR '' '' \<notin> set s" using s(2) b32_letters by blast
  then have "clean_secret (spaced_secret s) = clean_secret s"
    by (simp add: clean_secret_def spaced_secret_def ReplaceByte_filter filter_spaced)
      (auto intro!: arg_cong [where f = ToUpper] filter_cong)
  then show ?thesis
    using clean_b32 [OF s(2)] s(1,3) b32.dec_enc by (simp add: normalizeSecret_def)
qed

section \<open>Concrete instances\<close>

text \<open>A digest of 20 bytes to evaluate with: the last byte of the counter.\<close>

definition toy_digest :: digest where
  "toy_digest key data = replicate 20 (last data)"


theorem totp_secret_forms_witness:
  "normalizeSecret (spaced_secret (B32Encode ''1234567890123456'')) = Some ''1234567890123456''"
  using totp_secret_forms [of "''1234567890123456''" "B32Encode ''1234567890123456''"]
  by (simp add: GenerateTOTPSecret_def)

end
