(* ===== verification/Http.thy ===== *)
theory Http
  imports ConfigData Json
begin

text \<open>
  What the handlers use of \<open>net/http\<close> and \<open>net/url\<close>: the parts of a request they read, the
  response they write, cookies, and the escaping of query values. A response is a value; what a
  handler does to the state is the other component of its result.

  Whether reading a body runs into \<open>BodyLimit\<close> before its JSON value is complete is a fact about the
  request (\<open>rq_TooLarge\<close>), and so is whether its form can be parsed (\<open>None\<close> in \<open>rq_Form\<close>).
\<close>

record request =
  rq_Method :: string
  rq_Host :: string
  rq_Path :: string
  rq_URI :: string
  rq_RemoteAddr :: string
  rq_TLS :: bool
  rq_Header :: "string \<Rightarrow> string"
  rq_Cookie :: "string \<Rightarrow> string option"
  rq_Query :: "string \<Rightarrow> string option"
  rq_Form :: "(string \<Rightarrow> string option) option"
  rq_Body :: string
  rq_TooLarge :: bool

record cookie =
  ck_Name :: string
  ck_Value :: string
  ck_Path :: string
  ck_HttpOnly :: bool
  ck_Secure :: bool
  ck_Lax :: bool
  ck_MaxAge :: int

text \<open>
  What the login page shows: the error, whether Microsoft is offered, the directory pane and the
  local pane (with the user name it proposes), each with whether it is the active one, and the
  address to return to. The HTML around these texts is constant.
\<close>

record loginPage =
  lp_error :: "string option"
  lp_entra :: bool
  lp_tabs :: bool
  lp_ldap :: "bool option"
  lp_local :: "(bool \<times> string) option"
  lp_return :: string

datatype body = Empty | Plain string | Data json | Page string | LoginForm loginPage

record response =
  rs_Status :: int
  rs_Location :: string
  rs_Cookies :: "cookie list"
  rs_Body :: body

definition QueryGet :: "request \<Rightarrow> string \<Rightarrow> string" where
  "QueryGet r k = (case rq_Query r k of None \<Rightarrow> [] | Some v \<Rightarrow> v)"

definition PostFormValue :: "request \<Rightarrow> string \<Rightarrow> string" where
  "PostFormValue r k =
     (case rq_Form r of None \<Rightarrow> [] | Some f \<Rightarrow> (case f k of None \<Rightarrow> [] | Some v \<Rightarrow> v))"

text \<open>\<open>FormValue\<close>: the body of the form comes before the query.\<close>

definition FormValue :: "request \<Rightarrow> string \<Rightarrow> string" where
  "FormValue r k =
     (case (case rq_Form r of None \<Rightarrow> None | Some f \<Rightarrow> f k) of
        Some v \<Rightarrow> v
      | None \<Rightarrow> QueryGet r k)"

definition http_error :: "string \<Rightarrow> int \<Rightarrow> response" where
  "http_error msg status = \<lparr>rs_Status = status, rs_Location = [], rs_Cookies = [], rs_Body = Plain msg\<rparr>"

definition redirect :: "string \<Rightarrow> response" where
  "redirect url = \<lparr>rs_Status = 302, rs_Location = url, rs_Cookies = [], rs_Body = Empty\<rparr>"

definition writeJSON :: "int \<Rightarrow> json \<Rightarrow> response" where
  "writeJSON status v = \<lparr>rs_Status = status, rs_Location = [], rs_Cookies = [], rs_Body = Data v\<rparr>"

definition jsonErr :: "int \<Rightarrow> string \<Rightarrow> response" where
  "jsonErr status msg = writeJSON status (JObj [(''error'', JStr msg)])"

text \<open>Cookies set before the answer is written come first.\<close>

definition set_cookies :: "cookie list \<Rightarrow> response \<Rightarrow> response" where
  "set_cookies cs w = w\<lparr>rs_Cookies := cs @ rs_Cookies w\<rparr>"

section \<open>Bodies\<close>

datatype decode_error = BadBody | BodyTooLarge

text \<open>\<open>Decoder.Decode\<close> reads one value and leaves what follows it.\<close>

definition Decode :: "string \<Rightarrow> json option" where
  "Decode s = map_option fst (parse_val (2 * length s + 2) s)"

definition decodeJSON ::
  "request \<Rightarrow> (string \<Rightarrow> json \<Rightarrow> 'a \<Rightarrow> 'a option) \<Rightarrow> 'a \<Rightarrow> decode_error + 'a" where
  "decodeJSON r f zero =
     (if rq_TooLarge r then Inl BodyTooLarge
      else (case Decode (rq_Body r) of
              None \<Rightarrow> Inl BadBody
            | Some v \<Rightarrow> (case dec_struct f v zero of None \<Rightarrow> Inl BadBody | Some a \<Rightarrow> Inr a)))"

definition writeDecodeErr :: "decode_error \<Rightarrow> response" where
  "writeDecodeErr e =
     (case e of
        BodyTooLarge \<Rightarrow> jsonErr 413 ''cuerpo demasiado grande''
      | BadBody \<Rightarrow> jsonErr 400 ''json invalido'')"

section \<open>Escaping\<close>

definition EscapeString :: "string \<Rightarrow> string" where
  "EscapeString s = concat (map (\<lambda>c.
     if c = CHR ''&'' then ''&amp;''
     else if c = CHR 0x27 then ''&#39;''
     else if c = CHR ''<'' then ''&lt;''
     else if c = CHR ''>'' then ''&gt;''
     else if c = CHR 0x22 then ''&#34;''
     else [c]) s)"

definition unreserved :: "char \<Rightarrow> bool" where
  "unreserved c \<longleftrightarrow> is_upper c \<or> is_lower c \<or> is_digit c \<or> c \<in> set ''-_.~''"

definition QueryEscape :: "string \<Rightarrow> string" where
  "QueryEscape s = concat (map (\<lambda>c.
     if unreserved c then [c]
     else if c = CHR '' '' then ''+''
     else CHR ''%'' # ToUpper [letter hex_alphabet (ord c div 16), letter hex_alphabet (ord c mod 16)]) s)"

lemma response_sel [simp]:
  "rs_Status (redirect u) = 302" "rs_Location (redirect u) = u" "rs_Cookies (redirect u) = []"
  "rs_Status (http_error m st) = st" "rs_Location (http_error m st) = []"
  "rs_Cookies (http_error m st) = []"
  "rs_Status (writeJSON st v) = st" "rs_Cookies (writeJSON st v) = []"
  "rs_Status (jsonErr st m) = st" "rs_Cookies (jsonErr st m) = []"
  "rs_Status (set_cookies cs w) = rs_Status w" "rs_Location (set_cookies cs w) = rs_Location w"
  "rs_Cookies (set_cookies cs w) = cs @ rs_Cookies w" "rs_Body (set_cookies cs w) = rs_Body w"
  "rs_Body (jsonErr st m) = Data (JObj [(''error'', JStr m)])" "rs_Body (writeJSON st v) = Data v"
  by (simp_all add: redirect_def http_error_def writeJSON_def jsonErr_def set_cookies_def)

lemma EscapeString_safe:
  "CHR ''<'' \<notin> set (EscapeString s)" "CHR ''>'' \<notin> set (EscapeString s)"
  "CHR 0x22 \<notin> set (EscapeString s)" "CHR 0x27 \<notin> set (EscapeString s)"
  by (auto simp: EscapeString_def split: if_splits)

lemma QueryEscape_unreserved: "list_all unreserved s \<Longrightarrow> QueryEscape s = s"
  by (induction s) (auto simp: QueryEscape_def)

lemma writeDecodeErr_sel [simp]:
  "rs_Cookies (writeDecodeErr e) = []" "rs_Status (writeDecodeErr e) \<in> {400, 413}"
  by (cases e; simp add: writeDecodeErr_def)+

end
