(* ===== verification/Login.thy ===== *)
theory Login
  imports Http Access Totp Limiter Config
begin

text \<open>
  Logging in: \<open>internal/auth/auth.go\<close> (Entra, tickets, logout), \<open>login_flow.go\<close> (second factor),
  \<open>local.go\<close>, \<open>ldap.go\<close>, and the login handlers of \<open>internal/server/admin.go\<close>.

  A handler takes the environment, the request and the panel's state and gives the response and the
  new state. The environment holds what is not under the program's control: the clock, random
  bytes, the outcomes of file and network operations, and the code that is not under \<open>src\<close> or not
  modelled (HMAC, bcrypt, the directory server, the identity provider). \<open>e_other\<close> is what the handlers of
  the panel with a state of their own answer (\<open>AdminRoutes\<close>). A request is one step at one instant.
\<close>

section \<open>State and environment\<close>

record AuditEntry =
  ae_Event :: string
  ae_IP :: string
  ae_User :: string
  ae_Detail :: string

record Panel =
  pn_store :: Store
  pn_oauth :: bool
  pn_limIP :: limiter
  pn_limUser :: limiter
  pn_limTOTP :: limiter
  pn_audit :: "AuditEntry list"

record ldap_entry =
  le_displayName :: string
  le_mail :: string
  le_memberOf :: "string list"

record directory =
  dir_dial :: "LDAPConfig \<Rightarrow> bool"
  dir_bind :: "string \<Rightarrow> string \<Rightarrow> bool"
  dir_escape :: "string \<Rightarrow> string"
  dir_search :: "string \<Rightarrow> string \<Rightarrow> ldap_entry option"

text \<open>The claims of an ID token: e-mail, preferred user name, name, subject, groups.\<close>

record id_claims =
  ic_Email :: string
  ic_PreferredUsername :: string
  ic_Name :: string
  ic_Sub :: string
  ic_Groups :: "string list"

text \<open>
  What the panel asks of the certificate manager: cleaning a host name, storing, deleting and
  renewing a certificate (\<open>Some\<close>: the error), what it knows of a list of domains (each with the JSON
  members of its \<open>Info\<close>), and a live probe. Its package is not in the repository.
\<close>

record certInfo =
  ci_Domain :: string
  ci_members :: "(string \<times> json) list"

record certificates =
  ct_sanitize :: "string \<Rightarrow> string"
  ct_put :: "string \<Rightarrow> string \<Rightarrow> string \<Rightarrow> string option"
  ct_delete :: "string \<Rightarrow> string option"
  ct_renew :: "string \<Rightarrow> string option"
  ct_list :: "string list \<Rightarrow> certInfo list"
  ct_probe :: "string \<Rightarrow> json"

datatype exchange_result = ExchangeFailed | NoIdToken | BadIdToken | BadClaims | Claims id_claims

record env =
  e_now :: time
  e_mac :: mac
  e_sha1 :: digest
  e_sha256 :: "string \<Rightarrow> string"
  e_url :: url_parser
  e_p6 :: ip6_parser
  e_check :: "string \<Rightarrow> string \<Rightarrow> bool"
  e_hash :: "string \<Rightarrow> string option"
  e_dir :: directory
  e_exchange :: "string \<Rightarrow> string \<Rightarrow> exchange_result"
  e_rand :: "string \<Rightarrow> string"
  e_authURL :: "string \<Rightarrow> string \<Rightarrow> string"
  e_oidc :: "Config \<Rightarrow> bool"
  e_totpRaw :: "string option"
  e_qr :: "string \<Rightarrow> string \<Rightarrow> bool"
  e_certs :: certificates
  e_draws :: draws
  e_io :: io
  e_other :: "request \<Rightarrow> response \<times> AuditEntry list"

abbreviation panel_cfg :: "Panel \<Rightarrow> Config" where
  "panel_cfg p \<equiv> s_cfg (pn_store p)"

definition audit_log :: "string \<Rightarrow> string \<Rightarrow> string \<Rightarrow> string \<Rightarrow> Panel \<Rightarrow> Panel" where
  "audit_log event ip user detail p =
     p\<lparr>pn_audit := pn_audit p @ [\<lparr>ae_Event = event, ae_IP = ip, ae_User = user, ae_Detail = detail\<rparr>]\<rparr>"

definition update_store :: "env \<Rightarrow> (Config \<Rightarrow> Config) \<Rightarrow> Panel \<Rightarrow> config_error option \<times> Panel" where
  "update_store e f p =
     (case Update (e_draws e) (e_io e) f (pn_store p) of (err, s) \<Rightarrow> (err, p\<lparr>pn_store := s\<rparr>))"

section \<open>Cookies\<close>

definition sessionCookieName :: string where "sessionCookieName = ''px_session''"
definition stateCookieName :: string where "stateCookieName = ''px_state''"
definition pendingCookieName :: string where "pendingCookieName = ''px_pending''"

definition isSecure :: "request \<Rightarrow> bool \<Rightarrow> bool" where
  "isSecure r force \<longleftrightarrow> force \<or> rq_TLS r \<or> EqualFold (rq_Header r ''X-Forwarded-Proto'') ''https''"

definition WriteSessionCookie :: "request \<Rightarrow> Config \<Rightarrow> string \<Rightarrow> cookie" where
  "WriteSessionCookie r cfg token =
     \<lparr>ck_Name = sessionCookieName, ck_Value = token, ck_Path = ''/'', ck_HttpOnly = True,
      ck_Secure = isSecure r (cf_SecureCookies cfg), ck_Lax = True,
      ck_MaxAge = wrap64 (session_hours cfg * 3600)\<rparr>"

definition ClearSessionCookie :: cookie where
  "ClearSessionCookie =
     \<lparr>ck_Name = sessionCookieName, ck_Value = [], ck_Path = ''/'', ck_HttpOnly = True,
      ck_Secure = False, ck_Lax = False, ck_MaxAge = -1\<rparr>"

definition ClearStateCookie :: "request \<Rightarrow> Config \<Rightarrow> cookie" where
  "ClearStateCookie r cfg =
     \<lparr>ck_Name = stateCookieName, ck_Value = [], ck_Path = ''/auth'', ck_HttpOnly = True,
      ck_Secure = isSecure r (cf_SecureCookies cfg), ck_Lax = True, ck_MaxAge = -1\<rparr>"

definition WritePendingCookie :: "request \<Rightarrow> Config \<Rightarrow> string \<Rightarrow> cookie" where
  "WritePendingCookie r cfg token =
     \<lparr>ck_Name = pendingCookieName, ck_Value = token, ck_Path = ''/'', ck_HttpOnly = True,
      ck_Secure = isSecure r (cf_SecureCookies cfg), ck_Lax = True, ck_MaxAge = 300\<rparr>"

definition ClearPendingCookie :: "request \<Rightarrow> Config \<Rightarrow> cookie" where
  "ClearPendingCookie r cfg =
     \<lparr>ck_Name = pendingCookieName, ck_Value = [], ck_Path = ''/'', ck_HttpOnly = True,
      ck_Secure = isSecure r (cf_SecureCookies cfg), ck_Lax = True, ck_MaxAge = -1\<rparr>"

definition SessionFromRequest :: "env \<Rightarrow> Config \<Rightarrow> request \<Rightarrow> UserClaims option" where
  "SessionFromRequest e cfg r =
     (case rq_Cookie r sessionCookieName of
        None \<Rightarrow> None
      | Some token \<Rightarrow>
          (case ValidateSession (e_mac e) cfg (e_now e) token of Inl err \<Rightarrow> None | Inr u \<Rightarrow> Some u))"

definition PendingFromRequest :: "env \<Rightarrow> Config \<Rightarrow> request \<Rightarrow> pendingPayload option" where
  "PendingFromRequest e cfg r =
     (case rq_Cookie r pendingCookieName of
        None \<Rightarrow> None
      | Some token \<Rightarrow>
          (case ValidatePending (e_mac e) cfg (e_now e) token of Inl err \<Rightarrow> None | Inr pp \<Rightarrow> Some pp))"

section \<open>Where a login leads\<close>

definition SanitizeReturnURL :: "url_parser \<Rightarrow> string \<Rightarrow> string" where
  "SanitizeReturnURL up raw =
     (let raw = TrimSpace raw
      in if raw = [] then []
         else (case up raw of
                 None \<Rightarrow> []
               | Some u \<Rightarrow>
                   if u_Scheme u \<noteq> ''http'' \<and> u_Scheme u \<noteq> ''https'' \<or> u_Host u = [] then []
                   else u_String u))"

definition RedirectAfterAuth :: "env \<Rightarrow> Config \<Rightarrow> UserClaims \<Rightarrow> string \<Rightarrow> string" where
  "RedirectAfterAuth e cfg u returnURL =
     (if returnURL = [] then ''/''
      else (case e_url e returnURL of
              None \<Rightarrow> ''/''
            | Some t \<Rightarrow>
                if u_Host t = [] then
                  (if HasPrefix returnURL ''/'' \<and> \<not> HasPrefix returnURL ''//'' then returnURL else ''/'')
                else
                  (let ticket = createTicket (e_mac e) cfg (e_now e) u (u_Hostname t);
                       scheme = (if u_Scheme t = ''https'' then ''https'' else ''http'')
                   in scheme @ ''://'' @ u_Host t @ ''/auth/attach?t='' @ QueryEscape ticket @
                      ''&rd='' @ QueryEscape (u_RequestURI t))))"

section \<open>The second factor\<close>

definition put_secret :: "string \<Rightarrow> TOTPSecret \<Rightarrow> Config \<Rightarrow> Config" where
  "put_secret key v c =
     c\<lparr>cf_TOTP := (cf_TOTP c)
       \<lparr>to_Secrets := Some (AList.update key v (nil_map (to_Secrets (cf_TOTP c))))\<rparr>\<rparr>"

definition no_totp :: TOTPSecret where
  "no_totp = \<lparr>ts_Secret = [], ts_Confirmed = False\<rparr>"

definition has_secret :: "Config \<Rightarrow> string \<Rightarrow> bool" where
  "has_secret c key \<longleftrightarrow> (case totp_secret c key of None \<Rightarrow> False | Some v \<Rightarrow> ts_Secret v \<noteq> [])"

text \<open>The change \<open>EnsureUnconfirmedSecret\<close> makes, and the secret it leaves in \<open>sec\<close>.\<close>

definition ensure_change :: "env \<Rightarrow> string \<Rightarrow> Config \<Rightarrow> TOTPSecret \<times> Config" where
  "ensure_change e key c =
     (if has_secret c key then (the (totp_secret c key), c)
      else (case GenerateTOTPSecret (e_totpRaw e) of
              None \<Rightarrow> (no_totp, c)
            | Some s \<Rightarrow>
                (let sec = \<lparr>ts_Secret = s, ts_Confirmed = False\<rparr> in (sec, put_secret key sec c))))"

definition EnsureUnconfirmedSecret :: "env \<Rightarrow> string \<Rightarrow> Panel \<Rightarrow> (TOTPSecret \<times> bool) \<times> Panel" where
  "EnsureUnconfirmedSecret e key p =
     (let sec = fst (ensure_change e key (panel_cfg p))
      in case update_store e (\<lambda>c. snd (ensure_change e key c)) p of (err, p') \<Rightarrow>
           ((sec, err = None \<and> \<not> (ts_Secret sec = [] \<and> totp_secret (panel_cfg p') key = None)), p'))"

definition ConfirmSecret :: "env \<Rightarrow> string \<Rightarrow> string \<Rightarrow> Panel \<Rightarrow> string option \<times> Panel" where
  "ConfirmSecret e key code p =
     (case totp_secret (panel_cfg p) key of
        None \<Rightarrow> (Some ''no hay inscripcion pendiente'', p)
      | Some sec \<Rightarrow>
          if ts_Secret sec = [] then (Some ''no hay inscripcion pendiente'', p)
          else if ts_Confirmed sec \<and> \<not> verifyTOTPCodeAt (e_sha1 e) (ts_Secret sec) code (e_now e)
            then (Some ''codigo incorrecto'', p)
          else if \<not> ts_Confirmed sec \<and> \<not> verifyTOTPCodeAt (e_sha1 e) (ts_Secret sec) code (e_now e)
            then (Some ''codigo incorrecto; escanea el QR y vuelve a intentar'', p)
          else (case update_store e (\<lambda>c. put_secret key
                  ((case totp_secret c key of None \<Rightarrow> no_totp | Some v \<Rightarrow> v)\<lparr>ts_Confirmed := True\<rparr>) c) p of
                  (None, p') \<Rightarrow> (None, p')
                | (Some err, p') \<Rightarrow> (Some ''no se pudo guardar'', p')))"

definition CompleteLogin ::
  "env \<Rightarrow> request \<Rightarrow> UserClaims \<Rightarrow> string \<Rightarrow> Panel \<Rightarrow> response \<times> Panel" where
  "CompleteLogin e r u returnURL p =
     (let cfg = panel_cfg p; clear = ClearStateCookie r cfg
      in if NeedsSecondFactor cfg u then
           (let key = totpKeyOf u;
                pend = IssuePending (e_mac e) cfg (e_now e) u (SanitizeReturnURL (e_url e) returnURL);
                cookies = [clear, WritePendingCookie r cfg pend]
            in if (case totp_secret cfg key of None \<Rightarrow> False | Some sec \<Rightarrow> ts_Confirmed sec)
               then (set_cookies cookies (redirect ''/auth/2fa''), p)
               else (case EnsureUnconfirmedSecret e key p of ((sec, ok), p') \<Rightarrow>
                       (set_cookies cookies
                          (if \<not> ok then http_error ''error generando secreto TOTP'' 500
                           else redirect ''/auth/2fa/enroll''), p')))
         else
           (set_cookies [clear, WriteSessionCookie r cfg (IssueSession (e_mac e) cfg (e_now e) u)]
              (redirect (RedirectAfterAuth e cfg u returnURL)), p))"

section \<open>Accounts\<close>

definition LocalLogin ::
  "(string \<Rightarrow> string \<Rightarrow> bool) \<Rightarrow> LocalAdminConfig \<Rightarrow> string \<Rightarrow> string \<Rightarrow> string + UserClaims" where
  "LocalLogin check la username password =
     (if \<not> la_Enabled la then Inl ''la cuenta local esta deshabilitada''
      else if TrimSpace username = [] \<or> password = [] then Inl ''usuario y contrasena requeridos''
      else if \<not> EqualFold (TrimSpace username) (la_Username la) then Inl ''credenciales invalidas''
      else if \<not> check (la_PasswordHash la) password then Inl ''credenciales invalidas''
      else Inr \<lparr>uc_Sub = ''local|'' @ ToLower (la_Username la), uc_Email = la_Username la @ ''@local'',
                uc_Name = ''Administrador local'', uc_Groups = []\<rparr>)"

definition LDAPLogin :: "directory \<Rightarrow> LDAPConfig \<Rightarrow> string \<Rightarrow> string \<Rightarrow> string + UserClaims" where
  "LDAPLogin dir cfg username password =
     (if username = [] \<or> password = [] then Inl ''usuario y contrasena requeridos''
      else if \<not> dir_dial dir cfg then Inl ''conexion al servidor LDAP''
      else
        (let upn = TrimSpace username;
             upn = (if ld_BindUPNSuffix cfg \<noteq> [] \<and> CHR ''@'' \<notin> set upn
                    then upn @ ''@'' @ ld_BindUPNSuffix cfg else upn)
         in if \<not> dir_bind dir upn password then Inl ''credenciales invalidas''
            else
              (let found = (if ld_BaseDN cfg = [] then None
                     else dir_search dir (ld_BaseDN cfg)
                       (ReplaceAll (if ld_UserFilter cfg = [] then ''(sAMAccountName=%s)'' else ld_UserFilter cfg)
                          ''%s'' (dir_escape dir (hd (SplitN username (CHR ''@'') 2)))));
                   u = (case found of
                          None \<Rightarrow> \<lparr>uc_Sub = ''ldap|'' @ upn, uc_Email = upn, uc_Name = upn, uc_Groups = []\<rparr>
                        | Some en \<Rightarrow>
                            \<lparr>uc_Sub = ''ldap|'' @ upn,
                             uc_Email = (if le_mail en \<noteq> [] then le_mail en else upn),
                             uc_Name = (if le_displayName en \<noteq> [] then le_displayName en else upn),
                             uc_Groups = le_memberOf en\<rparr>)
               in if \<not> userAllowed u (ld_AllowedEmails cfg) (ld_AllowedGroups cfg)
                  then Inl ''usuario no autorizado para este proxy'' else Inr u)))"

end
