(* ===== verification/LoginHandlers.thy ===== *)
theory LoginHandlers
  imports Login
begin

text \<open>
  The handlers of a login: Entra and tickets (\<open>internal/auth/auth.go\<close>), password and second factor
  (\<open>internal/server/admin.go\<close>), and what holds of them.
\<close>

section \<open>Entra\<close>

text \<open>\<open>Reload\<close>: \<open>e_oidc\<close> is whether the discovery of the provider succeeds.\<close>

definition Reload :: "env \<Rightarrow> Panel \<Rightarrow> bool \<times> Panel" where
  "Reload e p =
     (let az = cf_Azure (panel_cfg p)
      in if az_TenantID az = [] \<or> az_ClientID az = [] \<or> az_ClientSecret az = []
         then (True, p\<lparr>pn_oauth := False\<rparr>)
         else if \<not> e_oidc e (panel_cfg p) then (False, p\<lparr>pn_oauth := False\<rparr>)
         else (True, p\<lparr>pn_oauth := True\<rparr>))"

definition pkceS256 :: "env \<Rightarrow> string \<Rightarrow> string" where
  "pkceS256 e verifier = RawURLEncode (e_sha256 e verifier)"

definition randHex :: "env \<Rightarrow> string \<Rightarrow> string" where
  "randHex e label = HexEncode (e_rand e label)"

definition entra_state :: "env \<Rightarrow> request \<Rightarrow> string" where
  "entra_state e r =
     randHex e ''state'' @ ''|'' @ SanitizeReturnURL (e_url e) (QueryGet r ''return'') @ ''|'' @
     randHex e ''verifier''"

text \<open>The value the provider is given as \<open>state\<close>, and which it sends back.\<close>

definition sent_state :: "env \<Rightarrow> request \<Rightarrow> string" where
  "sent_state e r = randHex e ''nonce'' @ ''.'' @ entra_state e r"

definition StartEntraLogin :: "env \<Rightarrow> request \<Rightarrow> Panel \<Rightarrow> response" where
  "StartEntraLogin e r p =
     (if \<not> pn_oauth p then http_error ''inicio de sesion con Microsoft no configurado'' 503
      else
        set_cookies
          [\<lparr>ck_Name = stateCookieName, ck_Value = entra_state e r, ck_Path = ''/auth'', ck_HttpOnly = True,
            ck_Secure = isSecure r (cf_SecureCookies (panel_cfg p)), ck_Lax = True, ck_MaxAge = 600\<rparr>]
          (redirect (e_authURL e (sent_state e r) (pkceS256 e (randHex e ''verifier'')))))"

definition HandleCallback :: "env \<Rightarrow> request \<Rightarrow> Panel \<Rightarrow> response \<times> Panel" where
  "HandleCallback e r p =
     (if \<not> pn_oauth p then (http_error ''inicio de sesion con Microsoft no configurado'' 503, p)
      else if QueryGet r ''error'' \<noteq> [] then
        (http_error (''Microsoft devolvio un error: '' @ QueryGet r ''error_description'') 400, p)
      else (case rq_Cookie r stateCookieName of
              None \<Rightarrow> (http_error ''estado ausente; inicia de nuevo desde /auth/login'' 400, p)
            | Some sc \<Rightarrow>
                if sc = [] then (http_error ''estado ausente; inicia de nuevo desde /auth/login'' 400, p)
                else (case SplitN sc (CHR ''|'') 3 of
                        nonce # ret # rest \<Rightarrow>
                          let returnURL = SanitizeReturnURL (e_url e) ret;
                              verifier = (case rest of [v] \<Rightarrow> v | _ \<Rightarrow> [])
                          in if nonce = [] \<or> \<not> HasSuffix sc (''.'' @ QueryGet r ''state'') then
                               (http_error ''estado invalido (posible CSRF)'' 400, p)
                             else if QueryGet r ''code'' = [] then
                               (http_error ''codigo de autorizacion ausente'' 400, p)
                             else (case e_exchange e (QueryGet r ''code'') verifier of
                                     ExchangeFailed \<Rightarrow> (http_error ''fallo al intercambiar el codigo'' 502, p)
                                   | NoIdToken \<Rightarrow> (http_error ''respuesta sin id_token'' 502, p)
                                   | BadIdToken \<Rightarrow> (http_error ''id_token invalido'' 401, p)
                                   | BadClaims \<Rightarrow> (http_error ''no se pudieron leer las claims'' 401, p)
                                   | Claims ic \<Rightarrow>
                                       (let email = (if ic_Email ic = [] then ic_PreferredUsername ic
                                                     else ic_Email ic);
                                            u = \<lparr>uc_Sub = ic_Sub ic, uc_Email = email, uc_Name = ic_Name ic,
                                                 uc_Groups = ic_Groups ic\<rparr>;
                                            az = cf_Azure (panel_cfg p)
                                        in if \<not> userAllowed u (az_AllowedEmails az) (az_AllowedGroups az)
                                           then (http_error ''usuario no autorizado para usar este proxy'' 403, p)
                                           else CompleteLogin e r u returnURL p))
                      | _ \<Rightarrow> (http_error ''estado invalido'' 400, p))))"

definition HandleAttach :: "env \<Rightarrow> Config \<Rightarrow> request \<Rightarrow> response" where
  "HandleAttach e cfg r =
     (case verifyTicket (e_mac e) cfg (e_now e) (QueryGet r ''t'') (rq_Host r) of
        Inl err \<Rightarrow> http_error ''no se pudo validar el inicio de sesion'' 401
      | Inr u \<Rightarrow>
          (let rd = QueryGet r ''rd'';
               rd = (if \<not> HasPrefix rd ''/'' \<or> HasPrefix rd ''//'' then ''/'' else rd)
           in set_cookies [WriteSessionCookie r cfg (IssueSession (e_mac e) cfg (e_now e) u)] (redirect rd)))"

definition HandleLogout :: response where
  "HandleLogout = set_cookies [ClearSessionCookie] (redirect ''/auth/login'')"

section \<open>Passwords\<close>

definition loginBlocked ::
  "env \<Rightarrow> request \<Rightarrow> string \<Rightarrow> time \<Rightarrow> string \<Rightarrow> Panel \<Rightarrow> response \<times> Panel" where
  "loginBlocked e r userKey until method p =
     (let mins = time_sub until (e_now e) div Minute + 1
      in (redirect (''/auth/login?error='' @ QueryEscape
            (''Demasiados intentos fallidos. Espera '' @ Itoa mins @ '' minuto(s).'')),
          audit_log ''login_blocked'' (ClientIP (rq_RemoteAddr r)) userKey (''metodo='' @ method) p))"

text \<open>
  \<open>handleLocalLogin\<close> and \<open>handleLDAPLogin\<close> are the same but for the account they ask and the names
  they log under; \<open>password_login\<close> is their common body after the method has been found enabled.
\<close>

definition password_login ::
  "(string \<Rightarrow> string \<Rightarrow> string + UserClaims) \<Rightarrow> string \<Rightarrow> env \<Rightarrow> request \<Rightarrow> Panel \<Rightarrow> response \<times> Panel" where
  "password_login account method e r p =
     (let ip = ClientIP (rq_RemoteAddr r);
          username = TrimSpace (PostFormValue r ''username'');
          ipKey = ''ip|'' @ ip;
          userKey = ''u|'' @ method @ ''|'' @ ToLower username
      in case Allowed (e_now e) ipKey (pn_limIP p) of ((ok, until), lip) \<Rightarrow>
           (let p = p\<lparr>pn_limIP := lip\<rparr>
            in if \<not> ok then loginBlocked e r ipKey until method p
               else (case Allowed (e_now e) userKey (pn_limUser p) of ((ok, until), lu) \<Rightarrow>
                 (let p = p\<lparr>pn_limUser := lu\<rparr>
                  in if \<not> ok then loginBlocked e r username until method p
                     else (case account username (PostFormValue r ''password'') of
                             Inl err \<Rightarrow>
                               (redirect (''/auth/login?error='' @ QueryEscape err),
                                audit_log ''login_failed'' ip username (''metodo='' @ method)
                                  (p\<lparr>pn_limIP := snd (Fail (e_now e) ipKey (pn_limIP p)),
                                     pn_limUser := snd (Fail (e_now e) userKey (pn_limUser p))\<rparr>))
                           | Inr u \<Rightarrow>
                               CompleteLogin e r u (FormValue r ''return'')
                                 (audit_log ''login_success'' ip (uc_Email u) (''metodo='' @ method)
                                    (p\<lparr>pn_limIP := Reset ipKey (pn_limIP p),
                                       pn_limUser := Reset userKey (pn_limUser p)\<rparr>)))))))"

definition NotFound :: response where
  "NotFound = http_error ''404 page not found'' 404"

definition handleLocalLogin :: "env \<Rightarrow> request \<Rightarrow> Panel \<Rightarrow> response \<times> Panel" where
  "handleLocalLogin e r p =
     (if \<not> la_Enabled (cf_LocalAdmin (panel_cfg p)) then (NotFound, p)
      else if rq_Form r = None then (jsonErr 400 ''formulario invalido'', p)
      else password_login (LocalLogin (e_check e) (cf_LocalAdmin (panel_cfg p))) ''local'' e r p)"

definition handleLDAPLogin :: "env \<Rightarrow> request \<Rightarrow> Panel \<Rightarrow> response \<times> Panel" where
  "handleLDAPLogin e r p =
     (if \<not> ld_Enabled (cf_LDAP (panel_cfg p)) then (NotFound, p)
      else if rq_Form r = None then (jsonErr 400 ''formulario invalido'', p)
      else password_login (LDAPLogin (e_dir e) (cf_LDAP (panel_cfg p))) ''ldap'' e r p)"

section \<open>The second factor\<close>

definition expired_pending :: response where
  "expired_pending = redirect (''/auth/login?error='' @ QueryEscape ''sesion de verificacion expirada'')"

text \<open>The pages themselves are constant HTML around the texts given here.\<close>

definition handle2FAPage :: "env \<Rightarrow> request \<Rightarrow> Panel \<Rightarrow> response" where
  "handle2FAPage e r p =
     (case PendingFromRequest e (panel_cfg p) r of
        None \<Rightarrow> redirect ''/auth/login''
      | Some pend \<Rightarrow>
          (case totp_secret (panel_cfg p) (totpKeyOf (pp_User pend)) of
             None \<Rightarrow> redirect ''/auth/2fa/enroll''
           | Some sec \<Rightarrow>
               if \<not> ts_Confirmed sec then redirect ''/auth/2fa/enroll''
               else \<lparr>rs_Status = 200, rs_Location = [], rs_Cookies = [],
                     rs_Body = Page (QueryGet r ''error'')\<rparr>))"

definition logged_in :: "env \<Rightarrow> request \<Rightarrow> Config \<Rightarrow> pendingPayload \<Rightarrow> response" where
  "logged_in e r cfg pend =
     set_cookies [ClearPendingCookie r cfg,
        WriteSessionCookie r cfg (IssueSession (e_mac e) cfg (e_now e) (pp_User pend))]
       (redirect (RedirectAfterAuth e cfg (pp_User pend) (pp_Return pend)))"

definition handle2FAVerify :: "env \<Rightarrow> request \<Rightarrow> Panel \<Rightarrow> response \<times> Panel" where
  "handle2FAVerify e r p =
     (let cfg = panel_cfg p; ip = ClientIP (rq_RemoteAddr r)
      in case PendingFromRequest e cfg r of
           None \<Rightarrow> (expired_pending, p)
         | Some pend \<Rightarrow>
             (let key = totpKeyOf (pp_User pend); email = uc_Email (pp_User pend); tKey = ''totp|'' @ key
              in case totp_secret cfg key of
                   None \<Rightarrow> (redirect ''/auth/2fa/enroll'', p)
                 | Some sec \<Rightarrow>
                     if \<not> ts_Confirmed sec then (redirect ''/auth/2fa/enroll'', p)
                     else (case Allowed (e_now e) tKey (pn_limTOTP p) of ((ok, until), lt) \<Rightarrow>
                       (let p = p\<lparr>pn_limTOTP := lt\<rparr>
                        in if \<not> ok then
                             (redirect (''/auth/2fa?error='' @ QueryEscape (''Demasiados intentos. Espera '' @
                                Itoa (time_sub until (e_now e) div Minute + 1) @ '' minuto(s).'')),
                              audit_log ''totp_blocked'' ip email [] p)
                           else if \<not> verifyTOTPCodeAt (e_sha1 e) (ts_Secret sec)
                                     (TrimSpace (PostFormValue r ''code'')) (e_now e) then
                             (redirect (''/auth/2fa?error='' @ QueryEscape ''codigo incorrecto''),
                              audit_log ''totp_failed'' ip email []
                                (p\<lparr>pn_limTOTP := snd (Fail (e_now e) tKey (pn_limTOTP p))\<rparr>))
                           else
                             (logged_in e r cfg pend,
                              audit_log ''totp_success'' ip email ''segundo factor aceptado''
                                (p\<lparr>pn_limTOTP := Reset tKey (pn_limTOTP p)\<rparr>))))))"

definition handle2FAEnrollPage :: "env \<Rightarrow> request \<Rightarrow> Panel \<Rightarrow> response \<times> Panel" where
  "handle2FAEnrollPage e r p =
     (case PendingFromRequest e (panel_cfg p) r of
        None \<Rightarrow> (expired_pending, p)
      | Some pend \<Rightarrow>
          (let key = totpKeyOf (pp_User pend)
           in if (case totp_secret (panel_cfg p) key of None \<Rightarrow> False | Some sec \<Rightarrow> ts_Confirmed sec)
              then (redirect ''/auth/2fa'', p)
              else (case EnsureUnconfirmedSecret e key p of ((sec, ok), p') \<Rightarrow>
                      if \<not> ok then (http_error ''error generando secreto TOTP'' 500, p')
                      else if \<not> e_qr e (uc_Email (pp_User pend)) (ts_Secret sec)
                        then (http_error ''error generando QR'' 500, p')
                      else (\<lparr>rs_Status = 200, rs_Location = [], rs_Cookies = [],
                             rs_Body = Page (spaced_secret (ts_Secret sec))\<rparr>, p'))))"

definition handle2FAEnrollConfirm :: "env \<Rightarrow> request \<Rightarrow> Panel \<Rightarrow> response \<times> Panel" where
  "handle2FAEnrollConfirm e r p =
     (let ip = ClientIP (rq_RemoteAddr r)
      in case PendingFromRequest e (panel_cfg p) r of
           None \<Rightarrow> (expired_pending, p)
         | Some pend \<Rightarrow>
             (let key = totpKeyOf (pp_User pend); email = uc_Email (pp_User pend)
              in case ConfirmSecret e key (TrimSpace (PostFormValue r ''code'')) p of
                   (Some err, p') \<Rightarrow>
                     (redirect (''/auth/2fa/enroll?error='' @ QueryEscape err),
                      audit_log ''totp_enroll_failed'' ip email err p')
                 | (None, p') \<Rightarrow>
                     (logged_in e r (panel_cfg p') pend,
                      audit_log ''totp_enrolled'' ip email ''inscripcion completada'' p')))"

lemmas login_defs [step_defs] =
  handleLocalLogin_def handleLDAPLogin_def handle2FAVerify_def handle2FAEnrollConfirm_def

section \<open>Facts\<close>

definition grants_session :: "response \<Rightarrow> bool" where
  "grants_session w \<longleftrightarrow> list_ex (\<lambda>c. ck_Name c = sessionCookieName) (rs_Cookies w)"

definition local_user :: "LocalAdminConfig \<Rightarrow> UserClaims" where
  "local_user la =
     \<lparr>uc_Sub = ''local|'' @ ToLower (la_Username la), uc_Email = la_Username la @ ''@local'',
      uc_Name = ''Administrador local'', uc_Groups = []\<rparr>"

definition local_username :: "request \<Rightarrow> string" where
  "local_username r = TrimSpace (PostFormValue r ''username'')"

definition local_key :: "string \<Rightarrow> string" where
  "local_key username = ''u|local|'' @ ToLower username"

definition ip_key :: "request \<Rightarrow> string" where
  "ip_key r = ''ip|'' @ ClientIP (rq_RemoteAddr r)"

lemma cookie_names [simp]:
  "ck_Name (WriteSessionCookie r cfg t) = sessionCookieName" "ck_Value (WriteSessionCookie r cfg t) = t"
  "ck_Name (ClearStateCookie r cfg) = stateCookieName" "ck_Name (WritePendingCookie r cfg t) = pendingCookieName"
  "ck_Value (WritePendingCookie r cfg t) = t"
  "ck_Name (ClearPendingCookie r cfg) = pendingCookieName" "stateCookieName \<noteq> sessionCookieName"
  "pendingCookieName \<noteq> sessionCookieName"
  by (simp_all add: WriteSessionCookie_def ClearStateCookie_def WritePendingCookie_def
      ClearPendingCookie_def sessionCookieName_def stateCookieName_def pendingCookieName_def)

lemma grants_session_simps [simp]:
  "grants_session (redirect u) = False" "grants_session (http_error m st) = False"
  "grants_session (jsonErr st m) = False"
  "grants_session (set_cookies cs w) \<longleftrightarrow>
     list_ex (\<lambda>c. ck_Name c = sessionCookieName) cs \<or> grants_session w"
  by (simp_all add: grants_session_def)

lemma Allowed_sel [simp]:
  "l_max (snd (Allowed t k l)) = l_max l" "l_window (snd (Allowed t k l)) = l_window l"
  "l_lockout (snd (Allowed t k l)) = l_lockout l"
  by (auto simp: Allowed_def split: option.splits)

lemma Fail_after_Allowed: "snd (Fail t k (snd (Allowed t k l))) = snd (Fail t k l)"
  by (cases "l_entries l k") (auto simp: Allowed_def Fail_def Let_def)

lemma panel_audit [simp]:
  "pn_store (audit_log ev ip u d p) = pn_store p" "pn_limTOTP (audit_log ev ip u d p) = pn_limTOTP p"
  "pn_limUser (audit_log ev ip u d p) = pn_limUser p" "pn_limIP (audit_log ev ip u d p) = pn_limIP p"
  "pn_oauth (audit_log ev ip u d p) = pn_oauth p"
  by (simp_all add: audit_log_def)

lemma loginBlocked_sel [simp]:
  "rs_Cookies (fst (loginBlocked e r k until m p)) = []"
  "grants_session (fst (loginBlocked e r k until m p)) = False"
  "pn_store (snd (loginBlocked e r k until m p)) = pn_store p"
  "pn_limUser (snd (loginBlocked e r k until m p)) = pn_limUser p"
  by (simp_all add: loginBlocked_def Let_def)

lemma CompleteLogin_session:
  "grants_session (fst (CompleteLogin e r u ret p)) \<longleftrightarrow> \<not> NeedsSecondFactor (panel_cfg p) u"
  by (auto simp: CompleteLogin_def Let_def split: prod.splits)

lemma LocalLogin_ok:
  "LocalLogin check la username password = Inr u \<longleftrightarrow>
     la_Enabled la \<and> TrimSpace username \<noteq> [] \<and> password \<noteq> [] \<and>
     EqualFold (TrimSpace username) (la_Username la) \<and> check (la_PasswordHash la) password \<and>
     u = local_user la"
  by (auto simp: LocalLogin_def local_user_def)

text \<open>The body of a password login, by its three outcomes.\<close>

lemma password_login_eq:
  assumes "ik = ''ip|'' @ ClientIP (rq_RemoteAddr r)"
    and "name = TrimSpace (PostFormValue r ''username'')" "uk = ''u|'' @ method @ ''|'' @ ToLower name"
    and "Allowed (e_now e) ik (pn_limIP p) = ((ok1, until1), l1)"
    and "Allowed (e_now e) uk (pn_limUser p) = ((ok2, until2), l2)"
  shows "password_login account method e r p =
     (let p1 = p\<lparr>pn_limIP := l1\<rparr>; p2 = p1\<lparr>pn_limUser := l2\<rparr>; ip = ClientIP (rq_RemoteAddr r)
      in if \<not> ok1 then loginBlocked e r ik until1 method p1
         else if \<not> ok2 then loginBlocked e r name until2 method p2
         else (case account name (PostFormValue r ''password'') of
            Inl err \<Rightarrow> (redirect (''/auth/login?error='' @ QueryEscape err),
              audit_log ''login_failed'' ip name (''metodo='' @ method)
                (p2\<lparr>pn_limIP := snd (Fail (e_now e) ik l1), pn_limUser := snd (Fail (e_now e) uk l2)\<rparr>))
          | Inr u \<Rightarrow> CompleteLogin e r u (FormValue r ''return'')
              (audit_log ''login_success'' ip (uc_Email u) (''metodo='' @ method)
                (p2\<lparr>pn_limIP := Reset ik l1, pn_limUser := Reset uk l2\<rparr>))))"
  using assms(4,5) by (simp add: password_login_def Let_def assms(1-3) split: sum.split)

lemma password_login_blocked:
  assumes "ik = ''ip|'' @ ClientIP (rq_RemoteAddr r)"
    and "name = TrimSpace (PostFormValue r ''username'')" "uk = ''u|'' @ method @ ''|'' @ ToLower name"
    and "\<not> fst (fst (Allowed (e_now e) ik (pn_limIP p))) \<or> \<not> fst (fst (Allowed (e_now e) uk (pn_limUser p)))"
  shows "\<exists>key until p'. password_login account method e r p = loginBlocked e r key until method p' \<and>
     pn_store p' = pn_store p"
proof -
  obtain ok1 u1 l1 where a: "Allowed (e_now e) ik (pn_limIP p) = ((ok1, u1), l1)"
    by (metis prod.collapse)
  obtain ok2 u2 l2 where b: "Allowed (e_now e) uk (pn_limUser p) = ((ok2, u2), l2)"
    by (metis prod.collapse)
  show ?thesis
    using assms(4) unfolding password_login_eq [OF assms(1-3) a b] Let_def a b
    by (cases ok1; cases ok2) (simp_all; fastforce)+
qed

lemma password_login_failed:
  assumes "ik = ''ip|'' @ ClientIP (rq_RemoteAddr r)"
    and "name = TrimSpace (PostFormValue r ''username'')" "uk = ''u|'' @ method @ ''|'' @ ToLower name"
    and "fst (fst (Allowed (e_now e) ik (pn_limIP p)))" "fst (fst (Allowed (e_now e) uk (pn_limUser p)))"
    and "account name (PostFormValue r ''password'') = Inl err"
  shows "\<exists>p'. password_login account method e r p =
       (redirect (''/auth/login?error='' @ QueryEscape err), p') \<and>
     pn_store p' = pn_store p \<and> pn_limUser p' = snd (Fail (e_now e) uk (pn_limUser p)) \<and>
     pn_limIP p' = snd (Fail (e_now e) ik (pn_limIP p))"
proof -
  obtain u1 l1 where a: "Allowed (e_now e) ik (pn_limIP p) = ((True, u1), l1)"
    using assms(4) by (metis (full_types) prod.collapse)
  obtain u2 l2 where b: "Allowed (e_now e) uk (pn_limUser p) = ((True, u2), l2)"
    using assms(5) by (metis (full_types) prod.collapse)
  have "snd (Fail (e_now e) ik l1) = snd (Fail (e_now e) ik (pn_limIP p))"
    "snd (Fail (e_now e) uk l2) = snd (Fail (e_now e) uk (pn_limUser p))"
    using Fail_after_Allowed a b by (metis snd_conv)+
  then show ?thesis
    by (simp add: password_login_eq [OF assms(1-3) a b] assms(6))
qed

lemma password_login_accepted:
  assumes "ik = ''ip|'' @ ClientIP (rq_RemoteAddr r)"
    and "name = TrimSpace (PostFormValue r ''username'')" "uk = ''u|'' @ method @ ''|'' @ ToLower name"
    and "fst (fst (Allowed (e_now e) ik (pn_limIP p)))" "fst (fst (Allowed (e_now e) uk (pn_limUser p)))"
    and "account name (PostFormValue r ''password'') = Inr u"
  shows "\<exists>p'. password_login account method e r p = CompleteLogin e r u (FormValue r ''return'') p' \<and>
     pn_store p' = pn_store p"
proof -
  obtain u1 l1 where a: "Allowed (e_now e) ik (pn_limIP p) = ((True, u1), l1)"
    using assms(4) by (metis (full_types) prod.collapse)
  obtain u2 l2 where b: "Allowed (e_now e) uk (pn_limUser p) = ((True, u2), l2)"
    using assms(5) by (metis (full_types) prod.collapse)
  show ?thesis
    unfolding password_login_eq [OF assms(1-3) a b] Let_def
    using assms(6) by simp (intro exI conjI, rule refl, simp)
qed

section \<open>Properties\<close>

text \<open>
  C18: The local account gives a session exactly to who names it and knows its password, while
  neither the address nor the name is locked out, and only if the account needs no second factor.
\<close>

theorem local_login_session:
  "grants_session (fst (handleLocalLogin e r p)) \<longleftrightarrow>
     (let la = cf_LocalAdmin (panel_cfg p); pw = PostFormValue r ''password''
      in la_Enabled la \<and> rq_Form r \<noteq> None \<and>
         fst (fst (Allowed (e_now e) (ip_key r) (pn_limIP p))) \<and>
         fst (fst (Allowed (e_now e) (local_key (local_username r)) (pn_limUser p))) \<and>
         local_username r \<noteq> [] \<and> pw \<noteq> [] \<and> EqualFold (local_username r) (la_Username la) \<and>
         e_check e (la_PasswordHash la) pw \<and> \<not> NeedsSecondFactor (panel_cfg p) (local_user la))"
proof -
  let ?name = "local_username r" and ?pw = "PostFormValue r ''password''"
  let ?acc = "LocalLogin (e_check e) (cf_LocalAdmin (panel_cfg p))"
  have k: "ip_key r = ''ip|'' @ ClientIP (rq_RemoteAddr r)"
    "?name = TrimSpace (PostFormValue r ''username'')" "TrimSpace ?name = ?name"
    "local_key ?name = ''u|'' @ ''local'' @ ''|'' @ ToLower ?name"
    by (simp_all add: ip_key_def local_username_def local_key_def)
  have "grants_session (fst (password_login ?acc ''local'' e r p)) \<longleftrightarrow>
      fst (fst (Allowed (e_now e) (ip_key r) (pn_limIP p))) \<and>
      fst (fst (Allowed (e_now e) (local_key ?name) (pn_limUser p))) \<and>
      (\<exists>u. ?acc ?name ?pw = Inr u \<and> \<not> NeedsSecondFactor (panel_cfg p) u)"
  proof (cases "fst (fst (Allowed (e_now e) (ip_key r) (pn_limIP p))) \<and>
      fst (fst (Allowed (e_now e) (local_key ?name) (pn_limUser p)))")
    case False
    then show ?thesis using password_login_blocked [OF k(1,2,4), of e p ?acc] by auto
  next
    case True
    then show ?thesis
    proof (cases "?acc ?name ?pw")
      case (Inl err)
      then show ?thesis using password_login_failed [OF k(1,2,4), of e p ?acc err] True by auto
    next
      case (Inr u)
      then show ?thesis
        using password_login_accepted [OF k(1,2,4), of e p ?acc u] True CompleteLogin_session by auto
    qed
  qed
  then show ?thesis
    by (auto simp: handleLocalLogin_def NotFound_def Let_def LocalLogin_ok k(3))
qed

text \<open>
  C19: The second factor gives a session exactly to who holds an unexpired challenge, whose secret
  has been confirmed, while its code is right and the identity is not locked out.
\<close>

theorem second_factor_session:
  "grants_session (fst (handle2FAVerify e r p)) \<longleftrightarrow>
     (\<exists>pend sec. PendingFromRequest e (panel_cfg p) r = Some pend \<and>
        totp_secret (panel_cfg p) (totpKeyOf (pp_User pend)) = Some sec \<and> ts_Confirmed sec \<and>
        fst (fst (Allowed (e_now e) (''totp|'' @ totpKeyOf (pp_User pend)) (pn_limTOTP p))) \<and>
        verifyTOTPCodeAt (e_sha1 e) (ts_Secret sec) (TrimSpace (PostFormValue r ''code'')) (e_now e))"
proof (cases "PendingFromRequest e (panel_cfg p) r")
  case None
  then show ?thesis by (simp add: handle2FAVerify_def expired_pending_def Let_def)
next
  case (Some pend)
  obtain ok u l where a:
    "Allowed (e_now e) (''totp|'' @ totpKeyOf (pp_User pend)) (pn_limTOTP p) = ((ok, u), l)"
    by (metis prod.collapse)
  show ?thesis
    using Some a by (simp add: handle2FAVerify_def Let_def logged_in_def split: option.split)
qed

text \<open>
  Confirming an enrolment is not rate limited: the limiter of the second factor decides nothing
  there and is never told. With a challenge in hand, the handler takes any number of guesses at a
  secret that has long been confirmed, and a right one gives a session even while the
  verification page is locked.
\<close>

theorem enrol_confirm_unlimited:
  "handle2FAEnrollConfirm e r (p\<lparr>pn_limTOTP := l\<rparr>) =
     (fst (handle2FAEnrollConfirm e r p), (snd (handle2FAEnrollConfirm e r p))\<lparr>pn_limTOTP := l\<rparr>) \<and>
   pn_limTOTP (snd (handle2FAEnrollConfirm e r p)) = pn_limTOTP p \<and>
   grants_session (fst (handle2FAEnrollConfirm e r p)) =
     (\<exists>pend sec. PendingFromRequest e (panel_cfg p) r = Some pend \<and>
        totp_secret (panel_cfg p) (totpKeyOf (pp_User pend)) = Some sec \<and> ts_Secret sec \<noteq> [] \<and>
        verifyTOTPCodeAt (e_sha1 e) (ts_Secret sec) (TrimSpace (PostFormValue r ''code'')) (e_now e) \<and>
        fst (update_store e (put_secret (totpKeyOf (pp_User pend)) (sec\<lparr>ts_Confirmed := True\<rparr>)) p) = None)"
proof (cases "PendingFromRequest e (panel_cfg p) r")
  case None
  then show ?thesis by (simp add: handle2FAEnrollConfirm_def expired_pending_def Let_def)
next
  case (Some pend)
  let ?k = "totpKeyOf (pp_User pend)"
  have u: "update_store e f (p\<lparr>pn_limTOTP := l\<rparr>) =
      (fst (update_store e f p), (snd (update_store e f p))\<lparr>pn_limTOTP := l\<rparr>)"
    "pn_limTOTP (snd (update_store e f p)) = pn_limTOTP p" for f l
    by (simp_all add: update_store_def split: prod.split)
  have v: "update_store e f p = update_store e g p" if "f (panel_cfg p) = g (panel_cfg p)" for f g
    using that by (simp add: update_store_def Update_def)
  show ?thesis
  proof (cases "totp_secret (panel_cfg p) ?k")
    case None
    then show ?thesis
      using Some by (simp add: handle2FAEnrollConfirm_def ConfirmSecret_def audit_log_def Let_def)
  next
    case S: (Some sec)
    let ?f = "\<lambda>c. put_secret ?k ((case totp_secret c ?k of None \<Rightarrow> no_totp | Some v \<Rightarrow> v)\<lparr>ts_Confirmed := True\<rparr>) c"
    obtain err p' where w: "update_store e ?f p = (err, p')" by (cases "update_store e ?f p")
    have "update_store e (put_secret ?k (sec\<lparr>ts_Confirmed := True\<rparr>)) p = (err, p')"
      using v [of "put_secret ?k (sec\<lparr>ts_Confirmed := True\<rparr>)" ?f] S w by simp
    moreover have "update_store e ?f (p\<lparr>pn_limTOTP := l\<rparr>) = (err, p'\<lparr>pn_limTOTP := l\<rparr>)"
      "pn_limTOTP p' = pn_limTOTP p"
      using u [of ?f] w by simp_all
    ultimately show ?thesis
      using Some S w
      by (cases err) (simp_all add: handle2FAEnrollConfirm_def ConfirmSecret_def audit_log_def
          logged_in_def Let_def)
  qed
qed

text \<open>
  The way back from Entra is always refused. The handler asks whether the cookie ends with the
  state that came back, but it is the state that ends with the cookie: whatever the provider and the
  code, the answer to a login begun by \<open>StartEntraLogin\<close> is 400.
\<close>

theorem entra_callback_refused:
  assumes "pn_oauth p" "rq_Cookie r stateCookieName = Some (entra_state e0 r0)"
    "rq_Query r ''state'' = Some (sent_state e0 r0)"
  shows "rs_Status (fst (HandleCallback e r p)) = 400 \<and> snd (HandleCallback e r p) = p"
proof -
  have "\<not> HasSuffix (entra_state e0 r0) (''.'' @ QueryGet r ''state'')"
    using assms(3) HasSuffix_length [of "entra_state e0 r0" "''.'' @ sent_state e0 r0"]
    by (auto simp: QueryGet_def sent_state_def)
  moreover have "entra_state e0 r0 \<noteq> []" by (simp add: entra_state_def)
  ultimately show ?thesis
    using assms(1,2)
    by (auto simp: HandleCallback_def Let_def split: list.split)
qed

text \<open>
  A login carries over to any other host: for whatever host the return address names (no rule
  has to mention it), the user is sent there with a ticket, and within a minute anybody who
  presents it with that host in the request is given a session of the user.
\<close>

theorem login_carries_over:
  assumes "e_url e ret = Some t" "u_Host t \<noteq> []" "ret \<noteq> []" "\<not> NeedsSecondFactor (panel_cfg p) u"
    "int64 (Unix (e_now e + 60 * Second))" "Unix (e_now e') < Unix (e_now e + 60 * Second)"
    "e_mac e' = e_mac e" "NormalizeAudience (rq_Host r') = NormalizeAudience (u_Hostname t)"
    "rq_Query r' ''t'' = Some ticket" "ticket = createTicket (e_mac e) (panel_cfg p) (e_now e) u (u_Hostname t)"
  shows "rs_Location (fst (CompleteLogin e r u ret p)) =
       (if u_Scheme t = ''https'' then ''https'' else ''http'') @ ''://'' @ u_Host t @ ''/auth/attach?t='' @
       QueryEscape ticket @ ''&rd='' @ QueryEscape (u_RequestURI t) \<and>
     (\<exists>c \<in> set (rs_Cookies (HandleAttach e' (panel_cfg p) r')). ck_Name c = sessionCookieName \<and>
        ck_Value c = IssueSession (e_mac e) (panel_cfg p) (e_now e') u)"
proof -
  have "verifyTicket (e_mac e') (panel_cfg p) (e_now e') (QueryGet r' ''t'') (rq_Host r') = Inr u"
    using ticket_verdict [OF assms(5), of "e_mac e" "panel_cfg p" "e_now e'" u "u_Hostname t" "rq_Host r'"]
      assms(6-10) by (simp add: QueryGet_def)
  then show ?thesis
    using assms(1-4,7,10)
    by (simp add: CompleteLogin_def RedirectAfterAuth_def HandleAttach_def Let_def)
qed

section \<open>Guessing a password\<close>

definition wrong_attempt :: "string \<Rightarrow> env \<Rightarrow> request \<Rightarrow> Panel \<Rightarrow> bool" where
  "wrong_attempt user e r p \<longleftrightarrow>
     la_Enabled (cf_LocalAdmin (panel_cfg p)) \<and> rq_Form r \<noteq> None \<and>
     ToLower (local_username r) = ToLower user \<and>
     fst (fst (Allowed (e_now e) (ip_key r) (pn_limIP p))) \<and>
     fst (fst (Allowed (e_now e) (local_key user) (pn_limUser p))) \<and>
     isl (LocalLogin (e_check e) (cf_LocalAdmin (panel_cfg p)) (local_username r)
       (PostFormValue r ''password''))"

fun wrong_run :: "string \<Rightarrow> (env \<times> request) list \<Rightarrow> Panel \<Rightarrow> bool" where
  "wrong_run user [] p = True"
| "wrong_run user ((e, r) # xs) p =
     (wrong_attempt user e r p \<and> wrong_run user xs (snd (handleLocalLogin e r p)))"

fun after_attempts :: "(env \<times> request) list \<Rightarrow> Panel \<Rightarrow> Panel" where
  "after_attempts [] p = p"
| "after_attempts ((e, r) # xs) p = after_attempts xs (snd (handleLocalLogin e r p))"

lemma local_key_cong: "ToLower a = ToLower b \<Longrightarrow> local_key a = local_key b"
  by (simp add: local_key_def)

lemma wrong_attempt_step:
  assumes "wrong_attempt user e r p"
  shows "pn_store (snd (handleLocalLogin e r p)) = pn_store p \<and>
     pn_limUser (snd (handleLocalLogin e r p)) = snd (Fail (e_now e) (local_key user) (pn_limUser p))"
proof -
  have k: "local_key user = ''u|'' @ ''local'' @ ''|'' @ ToLower (local_username r)"
    using assms by (simp add: wrong_attempt_def local_key_def)
  obtain err where "LocalLogin (e_check e) (cf_LocalAdmin (panel_cfg p)) (local_username r)
      (PostFormValue r ''password'') = Inl err"
    using assms by (auto simp: wrong_attempt_def isl_def)
  then show ?thesis
    using password_login_failed [OF ip_key_def local_username_def k, of e p
        "LocalLogin (e_check e) (cf_LocalAdmin (panel_cfg p))" err] assms
    by (auto simp: wrong_attempt_def handleLocalLogin_def)
qed

lemma wrong_run_after:
  "wrong_run user xs p \<Longrightarrow> pn_store (after_attempts xs p) = pn_store p \<and>
     pn_limUser (after_attempts xs p) = fail_run (map (\<lambda>x. e_now (fst x)) xs) (local_key user) (pn_limUser p)"
  by (induction user xs p rule: wrong_run.induct) (auto dest: wrong_attempt_step)

text \<open>
  C20: Guessing the password of an account is bounded, from however many addresses it is tried:
  after as many wrong attempts within one window as the limiter allows, every further attempt until
  the lockout has passed is turned away without the password being looked at.
\<close>

theorem password_guessing_bounded:
  assumes "wrong_run user xs p" "xs \<noteq> []" "sorted ts" "ts = map (\<lambda>x. e_now (fst x)) xs"
    and "last ts - hd ts \<le> l_window (pn_limUser p)" "l_max (pn_limUser p) \<le> int (length xs)"
    and "\<forall>en. l_entries (pn_limUser p) (local_key user) = Some en \<longrightarrow> spent (l_window (pn_limUser p)) (hd ts) en"
    and "zero_time \<le> hd ts" "last ts \<le> e_now e" "e_now e < last ts + l_lockout (pn_limUser p)"
    and "ToLower (local_username r) = ToLower user" "la_Enabled (cf_LocalAdmin (panel_cfg p))" "rq_Form r \<noteq> None"
  shows "\<exists>key until p'. handleLocalLogin e r (after_attempts xs p) = loginBlocked e r key until ''local'' p' \<and>
     pn_store p' = pn_store p"
proof -
  note A = wrong_run_after [OF assms(1)]
  have "\<not> fst (fst (Allowed (e_now e) (local_key user) (pn_limUser (after_attempts xs p))))"
    using after_failures [OF assms(7) _ assms(3,5,8,9)] A assms(2,4,6,10) by simp
  moreover have "local_key user = ''u|'' @ ''local'' @ ''|'' @ ToLower (local_username r)"
    using assms(11) by (simp add: local_key_def)
  ultimately show ?thesis
    using password_login_blocked [OF ip_key_def local_username_def, where uk = "local_key user" and
        p = "after_attempts xs p" and account = "LocalLogin (e_check e) (cf_LocalAdmin (panel_cfg p))"]
      A assms(12,13)
    by (metis handleLocalLogin_def)
qed

section \<open>Concrete instances\<close>

definition sample_url :: url_parser where
  "sample_url s = (if s = ''https://app.test/x'' then
     Some \<lparr>u_Scheme = ''https'', u_Host = ''app.test'', u_Hostname = ''app.test'', u_RequestURI = ''/x'',
       u_String = s\<rparr> else None)"

definition sample_env :: "time \<Rightarrow> env" where
  "sample_env t =
     \<lparr>e_now = t, e_mac = plain_mac, e_sha1 = toy_digest, e_sha256 = (\<lambda>s. s), e_url = sample_url,
      e_p6 = (\<lambda>s. None), e_check = (\<lambda>h pw. pw = ''secret''), e_hash = Some,
      e_dir = \<lparr>dir_dial = (\<lambda>c. True), dir_bind = (\<lambda>u pw. True), dir_escape = (\<lambda>s. s),
        dir_search = (\<lambda>b f. None)\<rparr>,
      e_exchange = (\<lambda>c v. ExchangeFailed), e_rand = (\<lambda>l. l), e_authURL = (\<lambda>s c. s), e_oidc = (\<lambda>c. True),
      e_totpRaw = None, e_qr = (\<lambda>a s. True),
      e_certs = \<lparr>ct_sanitize = (\<lambda>h. h), ct_put = (\<lambda>h c k. None), ct_delete = (\<lambda>h. None),
        ct_renew = (\<lambda>h. None), ct_list = map (\<lambda>d. \<lparr>ci_Domain = d, ci_members = []\<rparr>),
        ct_probe = (\<lambda>d. JNull)\<rparr>,
      e_draws = sample_draws, e_io = sample_io, e_other = (\<lambda>r. (writeJSON 200 JNull, []))\<rparr>"

definition sample_panel :: Panel where
  "sample_panel =
     \<lparr>pn_store = (sample_store CHR ''k'' None)
        \<lparr>s_cfg := sample_config\<lparr>cf_LocalAdmin :=
           \<lparr>la_Enabled = True, la_Username = ''admin'', la_PasswordHash = ''h''\<rparr>\<rparr>\<rparr>,
      pn_oauth = True, pn_limIP = NewLimiter 5 (15 * Minute) (15 * Minute),
      pn_limUser = NewLimiter 1 (15 * Minute) (15 * Minute),
      pn_limTOTP = NewLimiter 6 (10 * Minute) (10 * Minute), pn_audit = []\<rparr>"

definition sample_request :: "string \<Rightarrow> request" where
  "sample_request pw =
     \<lparr>rq_Method = ''POST'', rq_Host = ''app.test'', rq_Path = ''/auth/login/local'',
      rq_URI = ''/auth/login/local'', rq_RemoteAddr = ''10.0.0.1:5000'', rq_TLS = True,
      rq_Header = (\<lambda>h. []), rq_Cookie = (\<lambda>c. None), rq_Query = (\<lambda>q. None),
      rq_Form = Some (map_of [(''username'', ''admin''), (''password'', pw)]), rq_Body = [],
      rq_TooLarge = False\<rparr>"

lemma sample_panel_sel [simp]:
  "e_now (sample_env t) = t" "e_mac (sample_env t) = plain_mac" "e_url (sample_env t) = sample_url"
  "pn_limUser sample_panel = NewLimiter 1 (15 * Minute) (15 * Minute)"
  "pn_limIP sample_panel = NewLimiter 5 (15 * Minute) (15 * Minute)" "pn_oauth sample_panel"
  "cf_LocalAdmin (panel_cfg sample_panel) =
     \<lparr>la_Enabled = True, la_Username = ''admin'', la_PasswordHash = ''h''\<rparr>"
  "rq_Form (sample_request pw) = Some (map_of [(''username'', ''admin''), (''password'', pw)])"
  "PostFormValue (sample_request pw) ''password'' = pw"
  by (simp_all add: sample_env_def sample_panel_def sample_request_def PostFormValue_def)

lemma trim_admin [simp]: "TrimSpace ''admin'' = ''admin''"
  by code_simp

lemma sample_username [simp]: "local_username (sample_request pw) = ''admin''"
  by (simp add: local_username_def PostFormValue_def)

theorem password_guessing_bounded_witness:
  "\<exists>key until p'. handleLocalLogin (sample_env 20) (sample_request ''secret'')
       (after_attempts [(sample_env 10, sample_request ''wrong'')] sample_panel) =
     loginBlocked (sample_env 20) (sample_request ''secret'') key until ''local'' p' \<and>
     pn_store p' = pn_store sample_panel"
proof -
  have "LocalLogin (e_check (sample_env 10)) \<lparr>la_Enabled = True, la_Username = ''admin'', la_PasswordHash = ''h''\<rparr>
      ''admin'' ''wrong'' = Inl ''credenciales invalidas''"
    by (simp add: LocalLogin_def sample_env_def)
  then have w: "wrong_run ''admin'' [(sample_env 10, sample_request ''wrong'')] sample_panel"
    by (simp add: wrong_attempt_def Allowed_def NewLimiter_def)
  have n: "l_window (NewLimiter 1 (15 * Minute) (15 * Minute)) = 900000000000"
    "l_lockout (NewLimiter 1 (15 * Minute) (15 * Minute)) = 900000000000"
    "l_max (NewLimiter 1 (15 * Minute) (15 * Minute)) = 1"
    "l_entries (NewLimiter 1 (15 * Minute) (15 * Minute)) = Map.empty"
    by (simp_all add: NewLimiter_def Minute_def Second_def)
  show ?thesis
    by (rule password_guessing_bounded [OF w, of "[10]"])
      (simp_all add: n zero_time_def Second_def)
qed

theorem entra_callback_refused_witness:
  "rs_Status (fst (HandleCallback (sample_env 0)
     (sample_request []\<lparr>rq_Cookie := (\<lambda>c. Some (entra_state (sample_env 0) (sample_request []))),
        rq_Query := [''state'' \<mapsto> sent_state (sample_env 0) (sample_request [])]\<rparr>) sample_panel)) = 400"
  using entra_callback_refused [of sample_panel "sample_request []\<lparr>rq_Cookie :=
      (\<lambda>c. Some (entra_state (sample_env 0) (sample_request []))),
      rq_Query := [''state'' \<mapsto> sent_state (sample_env 0) (sample_request [])]\<rparr>" "sample_env 0"
      "sample_request []" "sample_env 0"]
  by simp

theorem login_carries_over_witness:
  "\<exists>c \<in> set (rs_Cookies (HandleAttach (sample_env Second) (panel_cfg sample_panel)
      (sample_request []\<lparr>rq_Query := [''t'' \<mapsto>
         createTicket plain_mac (panel_cfg sample_panel) 0 alice ''app.test'']\<rparr>))).
     ck_Name c = sessionCookieName \<and>
     ck_Value c = IssueSession plain_mac (panel_cfg sample_panel) Second alice"
proof -
  have "\<not> NeedsSecondFactor (panel_cfg sample_panel) alice" by code_simp
  moreover have "NormalizeAudience (rq_Host (sample_request [])) = NormalizeAudience ''app.test''"
    by (simp add: sample_request_def)
  ultimately show ?thesis
    using login_carries_over [of "sample_env 0" "''https://app.test/x''" "\<lparr>u_Scheme = ''https'',
      u_Host = ''app.test'', u_Hostname = ''app.test'', u_RequestURI = ''/x'', u_String = ''https://app.test/x''\<rparr>"
      sample_panel alice "sample_env Second" "sample_request []\<lparr>rq_Query := [''t'' \<mapsto>
         createTicket plain_mac (panel_cfg sample_panel) 0 alice ''app.test'']\<rparr>"]
    by (simp add: sample_url_def int64_def min_int64_def max_int64_def Unix_def Second_def)
qed

end
