(* ===== verification/Forms.thy ===== *)
theory Forms
  imports Access Config
begin

text \<open>
  The pure parts of \<open>internal/server/admin.go\<close>: cleaning the values of a form, masking secrets, the
  grammar of a host name, the strength of a password, and the quoting of the arguments of the
  restart script. Passwords are taken as ASCII, where the punctuation and symbols of package
  \<open>unicode\<close> are the printable characters that are neither letters nor digits.
\<close>

section \<open>Values of a form\<close>

definition secretMask :: string where
  "secretMask = ''***SET***''"

definition cleanList :: "string list \<Rightarrow> string list" where
  "cleanList l = filter (\<lambda>v. v \<noteq> []) (map TrimSpace l)"

definition splitCSV :: "string \<Rightarrow> string list" where
  "splitCSV s = (if TrimSpace s = [] then [] else map TrimSpace (Split s (CHR '','')))"

definition pickSecret :: "string \<Rightarrow> string \<Rightarrow> string" where
  "pickSecret current incoming =
     (let v = TrimSpace incoming in if v = [] \<or> v = secretMask then current else v)"

definition pickString :: "string \<Rightarrow> string \<Rightarrow> string" where
  "pickString current incoming = (let v = TrimSpace incoming in if v = [] then current else v)"

text \<open>The masking that \<open>handleConfigGet\<close> and \<open>handleConfigPost\<close> do on the copy they answer with.\<close>

definition mask_str :: "string \<Rightarrow> string" where
  "mask_str s = (if s \<noteq> [] then secretMask else s)"

definition masked :: "Config \<Rightarrow> Config" where
  "masked c =
     c\<lparr>cf_Azure := (cf_Azure c)\<lparr>az_ClientSecret := mask_str (az_ClientSecret (cf_Azure c))\<rparr>,
       cf_SessionSecret := mask_str (cf_SessionSecret c),
       cf_LocalAdmin := (cf_LocalAdmin c)\<lparr>la_PasswordHash := mask_str (la_PasswordHash (cf_LocalAdmin c))\<rparr>\<rparr>"

section \<open>Host names\<close>

text \<open>\<open>hostRE\<close>: an optional \<open>*.\<close> and at least two labels of lower-case letters, digits and inner hyphens.\<close>

definition alnum :: "char \<Rightarrow> bool" where
  "alnum c \<longleftrightarrow> is_lower c \<or> is_digit c"

definition is_label :: "string \<Rightarrow> bool" where
  "is_label l \<longleftrightarrow> l \<noteq> [] \<and> alnum (hd l) \<and> alnum (last l) \<and> list_all (\<lambda>c. alnum c \<or> c = CHR ''-'') l"

definition hostRE :: "string \<Rightarrow> bool" where
  "hostRE s =
     (let labels = Split (TrimPrefix s ''*.'') (CHR ''.'')
      in 2 \<le> length labels \<and> list_all is_label labels)"

section \<open>Passwords\<close>

definition is_special :: "char \<Rightarrow> bool" where
  "is_special c \<longleftrightarrow> (33 \<le> ord c \<and> ord c \<le> 126) \<and> \<not> is_upper c \<and> \<not> is_lower c \<and> \<not> is_digit c"

definition leet :: "char \<Rightarrow> char" where
  "leet c =
     (if c = CHR ''0'' then CHR ''o'' else if c = CHR ''1'' then CHR ''i''
      else if c = CHR ''3'' then CHR ''e'' else if c = CHR ''4'' then CHR ''a''
      else if c = CHR ''5'' then CHR ''s'' else if c = CHR ''7'' then CHR ''t''
      else if c = CHR ''@'' then CHR ''a'' else if c = CHR ''$'' then CHR ''s'' else c)"

definition weak_words :: "string list" where
  "weak_words = [''password'', ''contrasena'', ''123456'', ''qwerty'', ''admin'', ''pxproxy'']"

text \<open>\<open>None\<close> is the empty message: the password is accepted.\<close>

definition validatePasswordStrength :: "string \<Rightarrow> string option" where
  "validatePasswordStrength pw =
     (if length pw < 12 then Some ''la contrasena debe tener al menos 12 caracteres''
      else if \<not> list_ex is_upper pw \<or> \<not> list_ex is_lower pw \<or> \<not> list_ex is_digit pw \<or> \<not> list_ex is_special pw
        then Some ''la contrasena debe incluir mayusculas, minusculas, numeros y simbolos''
      else (let lower = ToLower pw; nrm = map leet lower
            in if list_ex (\<lambda>weak. Contains lower weak \<or> Contains nrm weak) weak_words
               then Some ''la contrasena contiene patrones demasiado comunes'' else None))"

section \<open>The restart script\<close>

definition squote :: char where "squote = CHR 0x27"

definition shArgs :: "string list \<Rightarrow> string" where
  "shArgs args = concat (map (\<lambda>a. [CHR '' '', squote] @ ReplaceByte a squote [squote, CHR 0x5C, squote, squote] @
     [squote]) args)"

definition cmdArgs :: "string list \<Rightarrow> string" where
  "cmdArgs args = concat (map (\<lambda>a. [CHR '' '', CHR 0x22] @ ReplaceByte a (CHR 0x22) [CHR 0x22, CHR 0x22] @
     [CHR 0x22]) args)"

text \<open>
  How a POSIX shell splits a line into words, as far as single quotes, backslashes and blanks go:
  \<open>cur\<close> is the word being read, if any.
\<close>

fun sh_words :: "bool \<Rightarrow> string option \<Rightarrow> string \<Rightarrow> string list option" where
  "sh_words True cur [] = None"
| "sh_words False cur [] = Some (case cur of None \<Rightarrow> [] | Some w \<Rightarrow> [w])"
| "sh_words True cur (c # cs) =
     (if c = squote then sh_words False cur cs
      else sh_words True (Some ((case cur of None \<Rightarrow> [] | Some w \<Rightarrow> w) @ [c])) cs)"
| "sh_words False cur (c # cs) =
     (if c = squote then sh_words True (Some (case cur of None \<Rightarrow> [] | Some w \<Rightarrow> w)) cs
      else if c = CHR 0x5C then
        (case cs of [] \<Rightarrow> None
         | d # ds \<Rightarrow> sh_words False (Some ((case cur of None \<Rightarrow> [] | Some w \<Rightarrow> w) @ [d])) ds)
      else if c = CHR '' '' then
        (case cur of
           None \<Rightarrow> sh_words False None cs
         | Some w \<Rightarrow> map_option (\<lambda>ws. w # ws) (sh_words False None cs))
      else sh_words False (Some ((case cur of None \<Rightarrow> [] | Some w \<Rightarrow> w) @ [c])) cs)"

section \<open>Facts\<close>

lemma cleanList_idem: "cleanList (cleanList l) = cleanList l"
  by (induction l) (simp_all add: cleanList_def)

lemma pickSecret_mask [simp]: "pickSecret c (mask_str s) = (if s = [] then c else c)"
proof -
  have "TrimSpace secretMask = secretMask" by code_simp
  then show ?thesis by (simp add: pickSecret_def mask_str_def Let_def)
qed

lemma sh_quoted:
  "sh_words True (Some w) (ReplaceByte a squote [squote, CHR 0x5C, squote, squote] @ squote # rest) =
     sh_words False (Some (w @ a)) rest"
proof (induction a arbitrary: w)
  case Nil
  then show ?case by (simp add: ReplaceByte_def)
next
  case (Cons c cs)
  have "ReplaceByte (c # cs) squote [squote, CHR 0x5C, squote, squote] =
      (if c = squote then [squote, CHR 0x5C, squote, squote] else [c]) @
      ReplaceByte cs squote [squote, CHR 0x5C, squote, squote]"
    by (simp add: ReplaceByte_def)
  then show ?case using Cons [of "w @ [c]"] by (auto simp: squote_def)
qed

section \<open>Properties\<close>

text \<open>
  The arguments of the process come back unchanged when the restart script starts it again:
  whatever bytes they hold, the shell reads the quoted line as exactly these words.
\<close>

theorem restart_args_quoted:
  "sh_words False None (shArgs args) = Some args"
proof -
  have q: "sh_words False (Some w) (shArgs as) = Some (w # as)" for w as
  proof (induction as arbitrary: w)
    case Nil
    then show ?case by (simp add: shArgs_def)
  next
    case (Cons a as)
    have "shArgs (a # as) = [CHR '' '', squote] @
        ReplaceByte a squote [squote, CHR 0x5C, squote, squote] @ squote # shArgs as"
      by (simp add: shArgs_def)
    then show ?case using Cons [of a] sh_quoted [of "[]" a "shArgs as"] by (simp add: squote_def)
  qed
  then show ?thesis
  proof (cases args)
    case (Cons a as)
    have "shArgs args = [CHR '' '', squote] @
        ReplaceByte a squote [squote, CHR 0x5C, squote, squote] @ squote # shArgs as"
      using Cons by (simp add: shArgs_def)
    then show ?thesis using Cons q [of a as] sh_quoted [of "[]" a "shArgs as"] by (simp add: squote_def)
  qed (simp add: shArgs_def)
qed

end
