(* ===== verification/Streams.thy ===== *)
theory Streams
  imports Access
begin

text \<open>
  \<open>internal/stream/stream.go\<close>: the manager of the TCP listeners. Its two maps are maps here; the
  order in which Go visits a map does not matter, since each key is treated on its own. Whether a
  port can be listened on is the argument \<open>listen\<close> (\<open>Some\<close>: the error). A listener is known here by the
  rule it was started with, which is the rule its connections are relayed by; its goroutines are in \<open>Relay\<close>.
\<close>

section \<open>Operations\<close>

record Manager =
  sm_running :: "string \<rightharpoonup> StreamRule"
  sm_lastErrs :: "string \<rightharpoonup> string"
  sm_getCert :: bool

definition NewManager :: "bool \<Rightarrow> Manager" where
  "NewManager getCert = \<lparr>sm_running = Map.empty, sm_lastErrs = Map.empty, sm_getCert = getCert\<rparr>"

definition ruleKey :: "StreamRule \<Rightarrow> string" where
  "ruleKey r = ToLower (TrimSpace (sr_Listen r))"

fun wanted_rules :: "StreamRule list \<Rightarrow> (string \<rightharpoonup> StreamRule) \<Rightarrow> (string \<rightharpoonup> StreamRule)" where
  "wanted_rules [] w = w"
| "wanted_rules (r # rs) w =
     (if \<not> sr_Enabled r \<or> TrimSpace (sr_Listen r) = [] \<or> TrimSpace (sr_Target r) = []
      then wanted_rules rs w
      else wanted_rules rs (w(ruleKey r \<mapsto> r)))"

definition startLocked :: "(string \<Rightarrow> string option) \<Rightarrow> Manager \<Rightarrow> StreamRule \<Rightarrow> string option" where
  "startLocked listen m r =
     (case listen (sr_Listen r) of
        Some err \<Rightarrow> Some err
      | None \<Rightarrow>
          if sr_TLS r \<and> \<not> sm_getCert m then Some ''no hay resolver de certificados para TLS'' else None)"

definition Apply :: "(string \<Rightarrow> string option) \<Rightarrow> StreamRule list \<Rightarrow> Manager \<Rightarrow> Manager" where
  "Apply listen rules m =
     (let wanted = wanted_rules rules Map.empty;
          kept = map_keep (\<lambda>k l. wanted k \<noteq> None) (sm_running m);
          starting = (\<lambda>k. if kept k = None then wanted k else None)
      in m\<lparr>sm_running := (\<lambda>k. case starting k of
               None \<Rightarrow> kept k
             | Some r \<Rightarrow> if startLocked listen m r = None then Some r else None),
           sm_lastErrs := (\<lambda>k. case starting k of
               None \<Rightarrow> sm_lastErrs m k
             | Some r \<Rightarrow> startLocked listen m r)\<rparr>)"

definition Close :: "Manager \<Rightarrow> Manager" where
  "Close m = m\<lparr>sm_running := Map.empty\<rparr>"

record Status =
  lst_Listen :: string
  lst_Target :: string
  lst_TLS :: bool
  lst_SNIHost :: string
  lst_Enabled :: bool
  lst_Running :: bool
  lst_Error :: string

definition rule_status :: "Manager \<Rightarrow> StreamRule \<Rightarrow> Status" where
  "rule_status m r =
     (let st = \<lparr>lst_Listen = TrimSpace (sr_Listen r), lst_Target = TrimSpace (sr_Target r), lst_TLS = sr_TLS r,
                lst_SNIHost = sr_SNIHost r, lst_Enabled = sr_Enabled r, lst_Running = False, lst_Error = []\<rparr>
      in if \<not> sr_Enabled r then st
         else if sm_running m (ruleKey r) \<noteq> None then st\<lparr>lst_Running := True\<rparr>
         else st\<lparr>lst_Error := (case sm_lastErrs m (ruleKey r) of None \<Rightarrow> [] | Some err \<Rightarrow> err)\<rparr>)"

definition ManagerStatus :: "StreamRule list \<Rightarrow> Manager \<Rightarrow> Status list" where
  "ManagerStatus rules m = map (rule_status m) rules"

text \<open>\<open>None\<close>: the address is valid.\<close>

definition ValidateAddress :: "string \<Rightarrow> string option" where
  "ValidateAddress addr =
     (let a = TrimSpace addr
      in if a = [] then Some ''direccion vacia''
         else (case SplitHostPort a of
                 None \<Rightarrow> Some ''forma esperada host:puerto''
               | Some (host, port) \<Rightarrow>
                   if host = [] \<or> port = [] then Some ''host y puerto requeridos'' else None))"

section \<open>Facts\<close>

definition usable :: "StreamRule \<Rightarrow> bool" where
  "usable r \<longleftrightarrow> sr_Enabled r \<and> TrimSpace (sr_Listen r) \<noteq> [] \<and> TrimSpace (sr_Target r) \<noteq> []"

definition last_rule :: "StreamRule list \<Rightarrow> string \<rightharpoonup> StreamRule" where
  "last_rule rules k = List.find (\<lambda>r. usable r \<and> ruleKey r = k) (rev rules)"

lemma wanted_rules_last:
  "wanted_rules rules w k = (case last_rule rules k of None \<Rightarrow> w k | Some r \<Rightarrow> Some r)"
  by (induction rules arbitrary: w) (auto simp: last_rule_def usable_def find_append split: option.split)

lemma last_rule_key: "last_rule rules k = Some r \<Longrightarrow> ruleKey r = k \<and> usable r \<and> r \<in> set rules"
  by (auto simp: last_rule_def find_Some_iff) (metis nth_mem set_rev length_rev)

lemma Apply_running:
  "sm_running (Apply listen rules m) k =
     (case last_rule rules k of
        None \<Rightarrow> None
      | Some r \<Rightarrow> (case sm_running m k of
                     Some l \<Rightarrow> Some l
                   | None \<Rightarrow> if startLocked listen m r = None then Some r else None))"
  by (auto simp: Apply_def Let_def map_keep_def wanted_rules_last split: option.splits)

lemma Apply_errs:
  "sm_lastErrs (Apply listen rules m) k =
     (case last_rule rules k of
        Some r \<Rightarrow> if sm_running m k = None then startLocked listen m r else sm_lastErrs m k
      | None \<Rightarrow> sm_lastErrs m k)"
  by (auto simp: Apply_def Let_def map_keep_def wanted_rules_last split: option.splits)

lemma startLocked_cong: "sm_getCert m' = sm_getCert m \<Longrightarrow> startLocked listen m' r = startLocked listen m r"
  by (cases "listen (sr_Listen r)") (simp_all add: startLocked_def)

lemma Apply_getCert [simp]: "sm_getCert (Apply listen rules m) = sm_getCert m"
  by (simp add: Apply_def Let_def)

section \<open>The manager as a reconciler\<close>

text \<open>
  What the callers of a reconciler rely on: it is driven to what is wanted and no further, and once
  there, driving it again changes nothing.
\<close>

locale reconciler =
  fixes drive :: "'w \<Rightarrow> 's \<Rightarrow> 's" and active :: "'s \<Rightarrow> 'k set" and wants :: "'w \<Rightarrow> 'k set"
    and can :: "'w \<Rightarrow> 's \<Rightarrow> 'k set"
  assumes active_drive: "active (drive w s) = wants w \<inter> (active s \<union> can w s)"
    and can_drive: "can w (drive w s) = can w s"
    and drive_active: "wants w \<inter> can w s \<subseteq> active s \<Longrightarrow> active s \<subseteq> wants w \<Longrightarrow> drive w s = s"
begin

lemma drive_twice: "drive w (drive w s) = drive w s"
  by (rule drive_active) (auto simp: active_drive can_drive)

lemma nothing_unwanted: "active (drive w s) \<subseteq> wants w"
  by (simp add: active_drive)

lemma all_possible: "wants w \<inter> can w s \<subseteq> active (drive w s)"
  by (auto simp: active_drive)

end

text \<open>The program's manager, by whether it has certificates and what it runs.\<close>

definition run_manager :: "bool \<times> (string \<rightharpoonup> StreamRule) \<Rightarrow> Manager" where
  "run_manager s = \<lparr>sm_running = snd s, sm_lastErrs = Map.empty, sm_getCert = fst s\<rparr>"

definition run_step ::
  "(string \<Rightarrow> string option) \<times> StreamRule list \<Rightarrow> bool \<times> (string \<rightharpoonup> StreamRule) \<Rightarrow>
   bool \<times> (string \<rightharpoonup> StreamRule)" where
  "run_step w s = (fst s, sm_running (Apply (fst w) (snd w) (run_manager s)))"

definition startable ::
  "(string \<Rightarrow> string option) \<times> StreamRule list \<Rightarrow> bool \<times> (string \<rightharpoonup> StreamRule) \<Rightarrow> string set" where
  "startable w s =
     {k. \<exists>r. last_rule (snd w) k = Some r \<and> startLocked (fst w) (run_manager s) r = None}"

lemma startLocked_run [simp]:
  "startLocked listen (run_manager (sm_getCert m, run)) r = startLocked listen m r"
  by (rule startLocked_cong) (simp add: run_manager_def)

lemma run_step_Apply:
  "run_step (listen, rules) (sm_getCert m, sm_running m) = (sm_getCert m, sm_running (Apply listen rules m))"
proof -
  have "sm_running (Apply listen rules (run_manager (sm_getCert m, sm_running m))) k =
      sm_running (Apply listen rules m) k" for k
  proof -
    have "sm_running (run_manager (sm_getCert m, sm_running m)) = sm_running m"
      by (simp add: run_manager_def)
    then show ?thesis
      by (cases "last_rule rules k"; cases "sm_running m k") (simp_all add: Apply_running)
  qed
  then show ?thesis by (auto simp: run_step_def)
qed

interpretation sr: reconciler run_step "\<lambda>s. dom (snd s)" "\<lambda>w. dom (last_rule (snd w))" startable
proof (unfold_locales, goal_cases)
  case (1 w s)
  have "sm_running (run_manager s) = snd s" by (simp add: run_manager_def)
  then show ?case
    by (auto simp: run_step_def startable_def Apply_running split: option.splits if_splits)
next
  case (2 w s)
  have "startLocked (fst w) (run_manager (run_step w s)) r = startLocked (fst w) (run_manager s) r" for r
    by (rule startLocked_cong) (simp add: run_manager_def run_step_def)
  then show ?case by (simp add: startable_def)
next
  case (3 w s)
  have "sm_running (Apply (fst w) (snd w) (run_manager s)) k = snd s k" for k
  proof -
    have "sm_running (run_manager s) = snd s" by (simp add: run_manager_def)
    moreover have "snd s k = None \<Longrightarrow> last_rule (snd w) k = Some r \<Longrightarrow>
        startLocked (fst w) (run_manager s) r \<noteq> None" for r
      using 3(1) by (auto simp: startable_def)
    moreover have "last_rule (snd w) k = None \<Longrightarrow> snd s k = None" using 3(2) by auto
    ultimately show ?thesis by (auto simp: Apply_running split: option.splits)
  qed
  then show ?case by (cases s) (auto simp: run_step_def)
qed

section \<open>Properties\<close>


text \<open>
  A rule that is edited while its listener runs is not applied: the connections go on being
  relayed by the old rule, to the old target, while the status shows the new target as running.
\<close>

theorem stream_edit_ignored:
  assumes "sm_running m (ruleKey r) = Some old" "last_rule rules (ruleKey r) = Some r"
  shows "sm_running (Apply listen rules m) (ruleKey r) = Some old \<and>
     (\<exists>st \<in> set (ManagerStatus rules (Apply listen rules m)).
        lst_Listen st = TrimSpace (sr_Listen r) \<and> lst_Target st = TrimSpace (sr_Target r) \<and> lst_Running st)"
proof -
  have k: "sm_running (Apply listen rules m) (ruleKey r) = Some old"
    using assms by (simp add: Apply_running)
  moreover have "r \<in> set rules" "sr_Enabled r" using last_rule_key [OF assms(2)] by (simp_all add: usable_def)
  ultimately show ?thesis
    by (intro conjI bexI [of _ "rule_status (Apply listen rules m) r"])
      (simp_all add: ManagerStatus_def rule_status_def Let_def)
qed

theorem stream_edit_ignored_witness:
  "\<exists>old new. sr_Target old \<noteq> sr_Target new \<and>
     sm_running (Apply (\<lambda>l. None) [new] (Apply (\<lambda>l. None) [old] (NewManager True))) '':9000'' = Some old"
proof -
  let ?r = "\<lambda>t. \<lparr>sr_Listen = '':9000'', sr_Target = t, sr_TLS = False, sr_SNIHost = [], sr_TimeoutSec = 0,
     sr_Enabled = True\<rparr>"
  have k: "ruleKey (?r t) = '':9000''" for t by (simp add: ruleKey_def) code_simp
  have t: "TrimSpace '':9000'' \<noteq> []" "TrimSpace ''a:1'' \<noteq> []" "TrimSpace ''b:2'' \<noteq> []" by code_simp+
  have "last_rule [?r ''a:1''] '':9000'' = Some (?r ''a:1'')" "last_rule [?r ''b:2''] '':9000'' = Some (?r ''b:2'')"
    using k t by (simp_all add: last_rule_def usable_def)
  moreover from this(1) have
    "sm_running (Apply (\<lambda>l. None) [?r ''a:1''] (NewManager True)) '':9000'' = Some (?r ''a:1'')"
    by (simp add: Apply_running NewManager_def startLocked_def)
  ultimately have "sm_running (Apply (\<lambda>l. None) [?r ''b:2''] (Apply (\<lambda>l. None) [?r ''a:1''] (NewManager True)))
      '':9000'' = Some (?r ''a:1'')"
    using stream_edit_ignored [of "Apply (\<lambda>l. None) [?r ''a:1''] (NewManager True)" "?r ''b:2''" "?r ''a:1''"
        "[?r ''b:2'']" "\<lambda>l. None"] k by simp
  moreover have "sr_Target (?r ''a:1'') \<noteq> sr_Target (?r ''b:2'')" by simp
  ultimately show ?thesis by blast
qed

end
