(* ===== verification/Admin.thy ===== *)
theory Admin
  imports LoginHandlers Forms Streams Engine
begin

text \<open>
  The panel of \<open>internal/server/admin.go\<close>: its routes, the middlewares in front of them and the
  handlers behind them, over the state of the logins (\<open>Panel\<close>) and the routing engine.

  This theory has the state and the handlers of rules and listeners; \<open>AdminPages\<close> and \<open>AdminRoutes\<close> have the
  other handlers, the guards and the routes, \<open>BackupFiles\<close> those of the database copies, \<open>Update\<close> those of
  updates. A handler is called with the user \<open>requireAPI\<close> found. Package \<open>certs\<close> is not in the repository:
  what the handlers of certificates use of it is in the environment. The pages, constant HTML, are left out.
\<close>

section \<open>State\<close>

record Admin =
  ad_panel :: Panel
  ad_engine :: Engine
  ad_streams :: "Manager option option"

abbreviation admin_cfg :: "Admin \<Rightarrow> Config" where
  "admin_cfg a \<equiv> panel_cfg (ad_panel a)"

definition admin_update :: "env \<Rightarrow> (Config \<Rightarrow> Config) \<Rightarrow> Admin \<Rightarrow> config_error option \<times> Admin" where
  "admin_update e f a =
     (case update_store e f (ad_panel a) of (err, p) \<Rightarrow> (err, a\<lparr>ad_panel := p\<rparr>))"

definition admin_audit :: "string \<Rightarrow> request \<Rightarrow> string \<Rightarrow> string \<Rightarrow> Admin \<Rightarrow> Admin" where
  "admin_audit event r user detail a =
     a\<lparr>ad_panel := audit_log event (ClientIP (rq_RemoteAddr r)) user detail (ad_panel a)\<rparr>"

definition rebuild :: "env \<Rightarrow> Admin \<Rightarrow> Admin" where
  "rebuild e a =
     a\<lparr>ad_engine := Rebuild (e_url e) (cf_Rules (admin_cfg a))
         (SetTLSLax (cf_InsecureUpstream (admin_cfg a)) (ad_engine a))\<rparr>"

definition admin_reload :: "env \<Rightarrow> Admin \<Rightarrow> bool \<times> Admin" where
  "admin_reload e a = (case Reload e (ad_panel a) of (ok, p) \<Rightarrow> (ok, a\<lparr>ad_panel := p\<rparr>))"

definition not_saved :: response where
  "not_saved = jsonErr 500 ''no se pudo guardar''"

definition JOk :: json where
  "JOk = JObj [(''ok'', JBool True)]"

definition JRules :: "Rule list \<Rightarrow> json" where
  "JRules rs = JArr (map (\<lambda>rl. JObj (rule_json rl)) rs)"

text \<open>What a handler does to the panel that does nothing but log.\<close>

definition logged :: "AuditEntry list \<Rightarrow> Admin \<Rightarrow> Admin" where
  "logged es a = a\<lparr>ad_panel := (ad_panel a)\<lparr>pn_audit := pn_audit (ad_panel a) @ es\<rparr>\<rparr>"

lemma logged_nothing [simp]: "logged [] a = a"
  by (simp add: logged_def)

lemma logged_entry: "\<exists>es. a\<lparr>ad_panel := audit_log ev ip u d (ad_panel a)\<rparr> = logged es a" "\<exists>es. admin_audit ev r u d a = logged es a"
  "\<exists>es. a = logged es a"
  by (auto simp: admin_audit_def logged_def audit_log_def intro: exI [of _ "[]"])

section \<open>Rules\<close>

definition valid_url :: "env \<Rightarrow> string \<Rightarrow> bool" where
  "valid_url e raw =
     (case e_url e (TrimSpace raw) of
        None \<Rightarrow> False
      | Some t \<Rightarrow> (u_Scheme t = ''http'' \<or> u_Scheme t = ''https'') \<and> u_Host t \<noteq> [])"

text \<open>The targets with their URLs trimmed, or the number of the first invalid one.\<close>

fun check_targets :: "env \<Rightarrow> nat \<Rightarrow> BackendTarget list \<Rightarrow> nat + BackendTarget list" where
  "check_targets e i [] = Inr []"
| "check_targets e i (bt # bts) =
     (if \<not> valid_url e (bt_URL bt) then Inl (i + 1)
      else (case check_targets e (i + 1) bts of
              Inl n \<Rightarrow> Inl n
            | Inr bts' \<Rightarrow> Inr (bt\<lparr>bt_URL := TrimSpace (bt_URL bt)\<rparr> # bts')))"

definition check_rule :: "env \<Rightarrow> Rule \<Rightarrow> string + Rule" where
  "check_rule e rl =
     (let rl = rl\<lparr>r_Host := NormalizeHost (r_Host rl)\<rparr>
      in if r_Host rl \<noteq> ''localhost'' \<and> \<not> hostRE (r_Host rl) then
           Inl ''dominio invalido (ejemplo: app.midominio.local o *.midominio.local)''
         else if r_Targets rl \<noteq> [] then
           (if r_LoadBalancing rl \<noteq> [] \<and>
               r_LoadBalancing rl \<notin> {''round-robin'', ''weighted'', ''least-connections''}
            then Inl ''load_balancing invalido: round-robin, weighted, least-connections''
            else (case check_targets e 0 (r_Targets rl) of
                    Inl n \<Rightarrow> Inl (''backend '' @ Itoa (int n) @ '': destino invalido'')
                  | Inr bts \<Rightarrow> Inr (rl\<lparr>r_Targets := bts\<rparr>)))
         else if \<not> valid_url e (r_Target rl) then Inl ''destino invalido, debe ser una URL http(s)''
         else Inr rl)"

fun upsert_rule :: "Rule \<Rightarrow> Rule list \<Rightarrow> Rule list" where
  "upsert_rule rl [] = [rl]"
| "upsert_rule rl (x # xs) =
     (if NormalizeHost (r_Host x) = r_Host rl then rl # xs else x # upsert_rule rl xs)"

definition remove_rule :: "string \<Rightarrow> Rule list \<Rightarrow> Rule list" where
  "remove_rule host rs = filter (\<lambda>rl. NormalizeHost (r_Host rl) \<noteq> host) rs"

definition one_field :: "string \<Rightarrow> string \<Rightarrow> json \<Rightarrow> string \<Rightarrow> string option" where
  "one_field name k v s = (if k = name then dec_str v s else Some s)"

definition handleRulesGet :: "Admin \<Rightarrow> response" where
  "handleRulesGet a = writeJSON 200 (JObj [(''rules'', JRules (cf_Rules (admin_cfg a)))])"

definition handleRulesPost :: "env \<Rightarrow> string \<Rightarrow> request \<Rightarrow> Admin \<Rightarrow> response \<times> Admin" where
  "handleRulesPost e user r a =
     (case decodeJSON r rule_field no_rule of
        Inl d \<Rightarrow> (writeDecodeErr d, a)
      | Inr rl \<Rightarrow>
          (case check_rule e rl of
             Inl msg \<Rightarrow> (jsonErr 400 msg, a)
           | Inr rl \<Rightarrow>
               (case admin_update e (\<lambda>c. c\<lparr>cf_Rules := upsert_rule rl (cf_Rules c)\<rparr>) a of
                  (Some err, a) \<Rightarrow> (not_saved, a)
                | (None, a) \<Rightarrow>
                    (let a = admin_audit ''rule_upsert'' r user (r_Host rl @ '' -> '' @ r_Target rl) (rebuild e a)
                     in (writeJSON 200 (JObj [(''ok'', JBool True), (''rules'', JRules (cf_Rules (admin_cfg a)))]),
                         a)))))"

definition handleRulesDelete :: "env \<Rightarrow> string \<Rightarrow> request \<Rightarrow> Admin \<Rightarrow> response \<times> Admin" where
  "handleRulesDelete e user r a =
     (case decodeJSON r (one_field ''host'') [] of
        Inl d \<Rightarrow> (writeDecodeErr d, a)
      | Inr host \<Rightarrow>
          (let target = NormalizeHost host
           in case admin_update e (\<lambda>c. c\<lparr>cf_Rules := remove_rule target (cf_Rules c)\<rparr>) a of
                (Some err, a) \<Rightarrow> (not_saved, a)
              | (None, a) \<Rightarrow>
                  (let a = admin_audit ''rule_delete'' r user target (rebuild e a)
                   in (writeJSON 200 (JObj [(''ok'', JBool True), (''rules'', JRules (cf_Rules (admin_cfg a)))]),
                       a))))"

section \<open>Streams\<close>

fun check_streams :: "string list \<Rightarrow> StreamRule list \<Rightarrow> string + StreamRule list" where
  "check_streams seen [] = Inr []"
| "check_streams seen (s # ss) =
     (let s = s\<lparr>sr_Listen := TrimSpace (sr_Listen s), sr_Target := TrimSpace (sr_Target s)\<rparr>;
          key = ToLower (sr_Listen s)
      in case ValidateAddress (sr_Listen s) of
           Some err \<Rightarrow> Inl (''listen invalido: '' @ err)
         | None \<Rightarrow>
             (case ValidateAddress (sr_Target s) of
                Some err \<Rightarrow> Inl (''target invalido: '' @ err)
              | None \<Rightarrow>
                  if key \<in> set seen then Inl (''listen duplicado: '' @ sr_Listen s)
                  else (case check_streams (key # seen) ss of Inl m \<Rightarrow> Inl m | Inr ss' \<Rightarrow> Inr (s # ss'))))"

definition streams_field :: "string \<Rightarrow> json \<Rightarrow> StreamRule list \<Rightarrow> StreamRule list option" where
  "streams_field k v ss =
     (if k = ''stream_rules'' then dec_list (\<lambda>x. dec_struct stream_field x no_stream) v else Some ss)"

definition handleStreamPost :: "env \<Rightarrow> string \<Rightarrow> request \<Rightarrow> Admin \<Rightarrow> response \<times> Admin" where
  "handleStreamPost e user r a =
     (case decodeJSON r streams_field [] of
        Inl d \<Rightarrow> (writeDecodeErr d, a)
      | Inr ss \<Rightarrow>
          (case check_streams [] ss of
             Inl msg \<Rightarrow> (jsonErr 400 msg, a)
           | Inr ss \<Rightarrow>
               (case admin_update e (\<lambda>c. c\<lparr>cf_StreamRules := ss\<rparr>) a of
                  (Some err, a) \<Rightarrow> (not_saved, a)
                | (None, a) \<Rightarrow>
                    (writeJSON 200 (JObj [(''ok'', JBool True),
                       (''note'', JStr ''cambios de listeners requieren reinicio para aplicarse'')]),
                     admin_audit ''stream_update'' r user
                       (Itoa (int (length ss)) @ '' reglas ('' @ Itoa (int (length (filter sr_Enabled ss))) @
                        '' activas); reinicio requerido para aplicar listeners'') a))))"

section \<open>Configuration\<close>

definition handleConfigGet :: "Admin \<Rightarrow> response" where
  "handleConfigGet a = writeJSON 200 (JObj (config_json (masked (admin_cfg a))))"

definition pick_port :: "int \<Rightarrow> int \<Rightarrow> int" where
  "pick_port current incoming = (if 0 < incoming \<and> incoming < 65536 then incoming else current)"

definition pick_range :: "int \<Rightarrow> int \<Rightarrow> int \<Rightarrow> int \<Rightarrow> int" where
  "pick_range lo hi current incoming = (if lo \<le> incoming \<and> incoming \<le> hi then incoming else current)"

definition pick_list :: "string list \<Rightarrow> string list \<Rightarrow> string list" where
  "pick_list current incoming = (let l = cleanList incoming in if l \<noteq> [] then l else current)"

text \<open>
  The one place where a nil list is told from an empty one: whether the list \<open>name\<close> of the object
  \<open>ldap\<close> is there and not null, as far as the last of its occurrences says.
\<close>

fun given_in :: "string \<Rightarrow> (string \<times> json) list \<Rightarrow> bool \<Rightarrow> bool" where
  "given_in name [] b = b"
| "given_in name ((k, v) # kvs) b = given_in name kvs (if ToLower k = name then v \<noteq> JNull else b)"

fun ldap_given :: "string \<Rightarrow> (string \<times> json) list \<Rightarrow> bool \<Rightarrow> bool" where
  "ldap_given name [] b = b"
| "ldap_given name ((k, v) # kvs) b =
     ldap_given name kvs
       (if ToLower k = ''ldap'' then (case v of JObj m \<Rightarrow> given_in name m b | _ \<Rightarrow> b) else b)"

definition body_gives :: "request \<Rightarrow> string \<Rightarrow> bool" where
  "body_gives r name =
     (case Decode (rq_Body r) of Some (JObj kvs) \<Rightarrow> ldap_given name kvs False | _ \<Rightarrow> False)"

definition apply_azure :: "AzureConfig \<Rightarrow> AzureConfig \<Rightarrow> AzureConfig" where
  "apply_azure req az =
     az\<lparr>az_TenantID := TrimSpace (az_TenantID req), az_ClientID := TrimSpace (az_ClientID req),
       az_ClientSecret := pickSecret (az_ClientSecret az) (az_ClientSecret req),
       az_RedirectURL := TrimSpace (az_RedirectURL req),
       az_AllowedEmails := cleanList (az_AllowedEmails req),
       az_AllowedGroups := cleanList (az_AllowedGroups req)\<rparr>"

definition apply_ldap :: "bool \<Rightarrow> bool \<Rightarrow> LDAPConfig \<Rightarrow> LDAPConfig \<Rightarrow> LDAPConfig" where
  "apply_ldap emails_given groups_given req ld =
     ld\<lparr>ld_Enabled := ld_Enabled req, ld_URL := pickString (ld_URL ld) (ld_URL req),
       ld_InsecureTLS := ld_InsecureTLS req, ld_BaseDN := pickString (ld_BaseDN ld) (ld_BaseDN req),
       ld_BindUPNSuffix := pickString (ld_BindUPNSuffix ld) (ld_BindUPNSuffix req),
       ld_UserFilter := pickString (ld_UserFilter ld) (ld_UserFilter req),
       ld_AllowedEmails := (if cleanList (ld_AllowedEmails req) \<noteq> [] \<or> emails_given
          then cleanList (ld_AllowedEmails req) else ld_AllowedEmails ld),
       ld_AllowedGroups := (if cleanList (ld_AllowedGroups req) \<noteq> [] \<or> groups_given
          then cleanList (ld_AllowedGroups req) else ld_AllowedGroups ld)\<rparr>"

definition apply_config :: "bool \<Rightarrow> bool \<Rightarrow> Config \<Rightarrow> Config \<Rightarrow> Config" where
  "apply_config emails_given groups_given req c =
     c\<lparr>cf_AdminPort := pick_port (cf_AdminPort c) (cf_AdminPort req),
       cf_ProxyHTTPPort := pick_port (cf_ProxyHTTPPort c) (cf_ProxyHTTPPort req),
       cf_ProxyHTTPSPort := pick_port (cf_ProxyHTTPSPort c) (cf_ProxyHTTPSPort req),
       cf_TLSCertFile := pickString (cf_TLSCertFile c) (cf_TLSCertFile req),
       cf_TLSKeyFile := pickString (cf_TLSKeyFile c) (cf_TLSKeyFile req),
       cf_PanelTLSCertFile := pickString (cf_PanelTLSCertFile c) (cf_PanelTLSCertFile req),
       cf_PanelTLSKeyFile := pickString (cf_PanelTLSKeyFile c) (cf_PanelTLSKeyFile req),
       cf_SessionHours := pick_range 1 720 (cf_SessionHours c) (cf_SessionHours req),
       cf_InsecureUpstream := cf_InsecureUpstream req,
       cf_PanelPublicURL := TrimSpace (cf_PanelPublicURL req),
       cf_Azure := apply_azure (cf_Azure req) (cf_Azure c),
       cf_LDAP := apply_ldap emails_given groups_given (cf_LDAP req) (cf_LDAP c),
       cf_LocalAdmin := (cf_LocalAdmin c)
         \<lparr>la_Enabled := la_Enabled (cf_LocalAdmin req),
          la_Username := pickString (la_Username (cf_LocalAdmin c)) (la_Username (cf_LocalAdmin req)),
          la_PasswordHash := pickSecret (la_PasswordHash (cf_LocalAdmin c)) (la_PasswordHash (cf_LocalAdmin req))\<rparr>,
       cf_SessionSecret := pickSecret (cf_SessionSecret c) (cf_SessionSecret req),
       cf_SecureCookies := cf_SecureCookies req,
       cf_AdminAllowedCIDRs := pick_list (cf_AdminAllowedCIDRs c) (cf_AdminAllowedCIDRs req),
       cf_PanelAdmins := pick_list (cf_PanelAdmins c) (cf_PanelAdmins req),
       cf_LoginMaxFails := pick_range 1 100 (cf_LoginMaxFails c) (cf_LoginMaxFails req),
       cf_LockoutMinutes := pick_range 1 1440 (cf_LockoutMinutes c) (cf_LockoutMinutes req),
       cf_ACME := (cf_ACME c)
         \<lparr>ac_Enabled := ac_Enabled (cf_ACME req), ac_Domains := cleanList (ac_Domains (cf_ACME req)),
          ac_CacheDir := pickString (ac_CacheDir (cf_ACME c)) (ac_CacheDir (cf_ACME req)),
          ac_RedirectHTTP := ac_RedirectHTTP (cf_ACME req)\<rparr>\<rparr>"

text \<open>The warning is the text of the error \<open>Reload\<close> gives; the model keeps whether there is one.\<close>

definition reload_warning :: "bool \<Rightarrow> string" where
  "reload_warning ok = (if ok then [] else ''descubrimiento OIDC'')"

definition handleConfigPost :: "env \<Rightarrow> string \<Rightarrow> request \<Rightarrow> Admin \<Rightarrow> response \<times> Admin" where
  "handleConfigPost e user r a =
     (case decodeJSON r config_field no_config of
        Inl d \<Rightarrow> (writeDecodeErr d, a)
      | Inr req \<Rightarrow>
          (case admin_update e (apply_config (body_gives r ''allowed_emails'')
                  (body_gives r ''allowed_groups'') req) a of
             (Some err, a) \<Rightarrow> (not_saved, a)
           | (None, a) \<Rightarrow>
               (case admin_reload e a of (ok, a) \<Rightarrow>
                  (let a = admin_audit ''config_update'' r user (reload_warning ok) (rebuild e a)
                   in (writeJSON 200 (JObj [(''ok'', JBool True), (''warning'', JStr (reload_warning ok)),
                         (''config'', JObj (config_json (masked (admin_cfg a))))]), a)))))"

end
