(* ===== verification/AdminPages.thy ===== *)
theory AdminPages
  imports Admin
begin

text \<open>
  The login page, and the handlers of \<open>internal/server/admin.go\<close> that show state (listeners, load
  balancing) or pass a request on to the certificate manager.
\<close>

section \<open>The login page\<close>

definition handleLoginPage :: "env \<Rightarrow> request \<Rightarrow> Admin \<Rightarrow> response \<times> Admin" where
  "handleLoginPage e r a =
     (let a = (if pn_oauth (ad_panel a) then a else snd (admin_reload e a));
          cfg = admin_cfg a;
          en = pn_oauth (ad_panel a); lp = ld_Enabled (cf_LDAP cfg); lo = la_Enabled (cf_LocalAdmin cfg)
      in if en \<and> \<not> lp \<and> \<not> lo then (StartEntraLogin e r (ad_panel a), a)
         else if \<not> en \<and> \<not> lp \<and> \<not> lo then
           (\<lparr>rs_Status = 503, rs_Location = [], rs_Cookies = [],
             rs_Body = Page ''No hay ningun metodo de autenticacion configurado.''\<rparr>, a)
         else
           (let msg = QueryGet r ''error''; user = EscapeString (la_Username (cf_LocalAdmin cfg))
            in (\<lparr>rs_Status = 200, rs_Location = [], rs_Cookies = [],
                 rs_Body = LoginForm
                   \<lparr>lp_error = (if msg \<noteq> [] then Some (EscapeString msg) else None),
                    lp_entra = en, lp_tabs = (lp \<and> lo),
                    lp_ldap = (if lp \<and> lo then Some (\<not> en) else if lp then Some True else None),
                    lp_local = (if lp \<and> lo then Some (en, user)
                                else if lp then None
                                else if lo then Some (True, user) else None),
                    lp_return = EscapeString (SanitizeReturnURL (e_url e) (QueryGet r ''return''))\<rparr>\<rparr>, a)))"

section \<open>What runs\<close>

text \<open>The listeners as the manager reports them, or from the configuration while there is none.\<close>

definition stream_status_json :: "Streams.Status \<Rightarrow> json" where
  "stream_status_json s = JObj
     ([(''listen'', JStr (lst_Listen s)), (''target'', JStr (lst_Target s)), (''tls'', JBool (lst_TLS s)),
       (''sni_host'', JStr (lst_SNIHost s)), (''enabled'', JBool (lst_Enabled s)),
       (''running'', JBool (lst_Running s))] @
      (if lst_Error s = [] then [] else [(''error'', JStr (lst_Error s))]))"

definition configured_status :: "StreamRule \<Rightarrow> Streams.Status" where
  "configured_status s =
     \<lparr>lst_Listen = sr_Listen s, lst_Target = sr_Target s, lst_TLS = sr_TLS s, lst_SNIHost = sr_SNIHost s,
      lst_Enabled = sr_Enabled s, lst_Running = False, lst_Error = []\<rparr>"

text \<open>
  \<open>None\<close>: no status function has been registered. \<open>main\<close> registers one before it makes the manager
  (\<open>Some None\<close>); until then the function returns nil, which is written as null.
\<close>

definition handleStreamGet :: "Admin \<Rightarrow> response" where
  "handleStreamGet a =
     writeJSON 200 (JObj [(''stream_rules'',
       case ad_streams a of
         None \<Rightarrow> JArr (map (\<lambda>s. stream_status_json (configured_status s)) (cf_StreamRules (admin_cfg a)))
       | Some None \<Rightarrow> JNull
       | Some (Some m) \<Rightarrow> JArr (map stream_status_json (ManagerStatus (cf_StreamRules (admin_cfg a)) m)))])"

definition lb_json :: "BackendLBInfo \<Rightarrow> json" where
  "lb_json b = JObj
     [(''host'', JStr (bi_Host b)), (''strategy'', JStr (bi_Strategy b)),
      (''backends'', JInt (int (bi_Backends b))), (''healthy'', JInt (int (bi_Healthy b))),
      (''total_conns'', JInt (bi_TotalConns b))]"

definition handleLoadBalancing :: "Admin \<Rightarrow> response" where
  "handleLoadBalancing a =
     (let l = LoadBalancingInfo (ad_engine a)
      in writeJSON 200 (JObj [(''load_balancing'', if l = [] then JNull else JArr (map lb_json l))]))"

section \<open>Certificates\<close>

definition certDomains :: "Config \<Rightarrow> string list" where
  "certDomains c =
     cleanList (ac_Domains (cf_ACME c)) @
     filter (\<lambda>h. h \<noteq> []) (map (\<lambda>rl. NormalizeHost (r_Host rl)) (cf_Rules c))"

definition handleCertsGet :: "env \<Rightarrow> Admin \<Rightarrow> response" where
  "handleCertsGet e a =
     (let cfg = admin_cfg a; ac = cf_ACME cfg
      in writeJSON 200 (JObj
           [(''acme'', JObj [(''cache_dir'', JStr (ac_CacheDir ac)), (''domains'', JStrs (ac_Domains ac)),
              (''enabled'', JBool (ac_Enabled ac)), (''redirect_http'', JBool (ac_RedirectHTTP ac))]),
            (''domains'', JArr (map (\<lambda>i. JObj (ci_members i)) (ct_list (e_certs e) (certDomains cfg))))]))"

text \<open>The probes run at the same time, each into its own row.\<close>

definition handleCertsStatus :: "env \<Rightarrow> Admin \<Rightarrow> response" where
  "handleCertsStatus e a =
     writeJSON 200 (JObj [(''domains'',
       JArr (map (\<lambda>i. JObj (ci_members i @ [(''live'', ct_probe (e_certs e) (ci_Domain i))]))
         (ct_list (e_certs e) (certDomains (admin_cfg a)))))])"

record certReq =
  cq_Domain :: string
  cq_CertPEM :: string
  cq_KeyPEM :: string

definition cert_req_field :: "string \<Rightarrow> json \<Rightarrow> certReq \<Rightarrow> certReq option" where
  "cert_req_field k v s =
     (if k = ''domain'' then map_option (\<lambda>x. s\<lparr>cq_Domain := x\<rparr>) (dec_str v (cq_Domain s))
      else if k = ''cert_pem'' then map_option (\<lambda>x. s\<lparr>cq_CertPEM := x\<rparr>) (dec_str v (cq_CertPEM s))
      else if k = ''key_pem'' then map_option (\<lambda>x. s\<lparr>cq_KeyPEM := x\<rparr>) (dec_str v (cq_KeyPEM s))
      else Some s)"

definition handleCertCustomPut :: "env \<Rightarrow> string \<Rightarrow> request \<Rightarrow> Admin \<Rightarrow> response \<times> Admin" where
  "handleCertCustomPut e user r a =
     (case decodeJSON r cert_req_field \<lparr>cq_Domain = [], cq_CertPEM = [], cq_KeyPEM = []\<rparr> of
        Inl d \<Rightarrow> (writeDecodeErr d, a)
      | Inr q \<Rightarrow>
          (let host = ct_sanitize (e_certs e) (cq_Domain q)
           in if host = [] \<or> \<not> hostRE host \<and> \<not> HasPrefix host ''*.'' then (jsonErr 400 ''dominio invalido'', a)
              else (case ct_put (e_certs e) host (cq_CertPEM q) (cq_KeyPEM q) of
                      Some err \<Rightarrow> (jsonErr 400 err, a)
                    | None \<Rightarrow> (writeJSON 200 JOk, admin_audit ''cert_custom_upload'' r user host a))))"

definition handleCertCustomDelete :: "env \<Rightarrow> string \<Rightarrow> request \<Rightarrow> Admin \<Rightarrow> response \<times> Admin" where
  "handleCertCustomDelete e user r a =
     (case decodeJSON r (one_field ''domain'') [] of
        Inl d \<Rightarrow> (writeDecodeErr d, a)
      | Inr domain \<Rightarrow>
          (case ct_delete (e_certs e) domain of
             Some err \<Rightarrow> (jsonErr 500 err, a)
           | None \<Rightarrow> (writeJSON 200 JOk, admin_audit ''cert_custom_delete'' r user domain a)))"

definition handleCertRenew :: "env \<Rightarrow> string \<Rightarrow> request \<Rightarrow> Admin \<Rightarrow> response \<times> Admin" where
  "handleCertRenew e user r a =
     (case decodeJSON r (one_field ''domain'') [] of
        Inl d \<Rightarrow> (writeDecodeErr d, a)
      | Inr domain \<Rightarrow>
          (case ct_renew (e_certs e) domain of
             Some err \<Rightarrow> (jsonErr 400 err, a)
           | None \<Rightarrow>
               (writeJSON 200 (JObj [(''detail'', JStr (''cache invalidada; el certificado se emitira/renovara en '' @
                  ''el proximo acceso HTTPS o verificacion'')), (''ok'', JBool True)]),
                admin_audit ''cert_renew'' r user domain a)))"

end
