(* ===== verification/AdminRoutes.thy ===== *)
theory AdminRoutes
  imports AdminPages
begin

text \<open>
  The rest of the panel's handlers, the guards in front of them and the routes
  (\<open>internal/server/admin.go\<close>, \<open>CheckOrigin\<close> and \<open>Chain\<close> of \<open>internal/security/security.go\<close>).
  \<open>serve\<close> is the handler \<open>Routes\<close> returns.
\<close>

section \<open>Setup and accounts\<close>

record setupLDAP =
  sl_URL :: string
  sl_BaseDN :: string
  sl_BindUPNSuffix :: string
  sl_UserFilter :: string
  sl_InsecureTLS :: bool
  sl_AllowedGroups :: "string list"

record setupReq =
  su_TenantID :: string
  su_ClientID :: string
  su_ClientSecret :: string
  su_RedirectURL :: string
  su_AllowedEmails :: "string list"
  su_AllowedGroups :: "string list"
  su_EnableLDAP :: bool
  su_LDAP :: "setupLDAP option"

definition no_setupLDAP :: setupLDAP where
  "no_setupLDAP = \<lparr>sl_URL = [], sl_BaseDN = [], sl_BindUPNSuffix = [], sl_UserFilter = [],
     sl_InsecureTLS = False, sl_AllowedGroups = []\<rparr>"

definition no_setup :: setupReq where
  "no_setup = \<lparr>su_TenantID = [], su_ClientID = [], su_ClientSecret = [], su_RedirectURL = [],
     su_AllowedEmails = [], su_AllowedGroups = [], su_EnableLDAP = False, su_LDAP = None\<rparr>"

definition setupLDAP_field :: "string \<Rightarrow> json \<Rightarrow> setupLDAP \<Rightarrow> setupLDAP option" where
  "setupLDAP_field k v s =
     (if k = ''url'' then map_option (\<lambda>x. s\<lparr>sl_URL := x\<rparr>) (dec_str v (sl_URL s))
      else if k = ''base_dn'' then map_option (\<lambda>x. s\<lparr>sl_BaseDN := x\<rparr>) (dec_str v (sl_BaseDN s))
      else if k = ''bind_upn_suffix''
        then map_option (\<lambda>x. s\<lparr>sl_BindUPNSuffix := x\<rparr>) (dec_str v (sl_BindUPNSuffix s))
      else if k = ''user_filter'' then map_option (\<lambda>x. s\<lparr>sl_UserFilter := x\<rparr>) (dec_str v (sl_UserFilter s))
      else if k = ''insecure_tls'' then map_option (\<lambda>x. s\<lparr>sl_InsecureTLS := x\<rparr>) (dec_bool v (sl_InsecureTLS s))
      else if k = ''allowed_groups'' then map_option (\<lambda>x. s\<lparr>sl_AllowedGroups := x\<rparr>) (dec_strs v)
      else Some s)"

text \<open>A null leaves the pointer nil; an object is read into what the pointer has, or a new struct.\<close>

definition setup_field :: "string \<Rightarrow> json \<Rightarrow> setupReq \<Rightarrow> setupReq option" where
  "setup_field k v s =
     (if k = ''tenant_id'' then map_option (\<lambda>x. s\<lparr>su_TenantID := x\<rparr>) (dec_str v (su_TenantID s))
      else if k = ''client_id'' then map_option (\<lambda>x. s\<lparr>su_ClientID := x\<rparr>) (dec_str v (su_ClientID s))
      else if k = ''client_secret''
        then map_option (\<lambda>x. s\<lparr>su_ClientSecret := x\<rparr>) (dec_str v (su_ClientSecret s))
      else if k = ''redirect_url'' then map_option (\<lambda>x. s\<lparr>su_RedirectURL := x\<rparr>) (dec_str v (su_RedirectURL s))
      else if k = ''allowed_emails'' then map_option (\<lambda>x. s\<lparr>su_AllowedEmails := x\<rparr>) (dec_strs v)
      else if k = ''allowed_groups'' then map_option (\<lambda>x. s\<lparr>su_AllowedGroups := x\<rparr>) (dec_strs v)
      else if k = ''enable_ldap'' then map_option (\<lambda>x. s\<lparr>su_EnableLDAP := x\<rparr>) (dec_bool v (su_EnableLDAP s))
      else if k = ''ldap'' then
        (if v = JNull then Some (s\<lparr>su_LDAP := None\<rparr>)
         else map_option (\<lambda>x. s\<lparr>su_LDAP := Some x\<rparr>)
           (dec_struct setupLDAP_field v (case su_LDAP s of None \<Rightarrow> no_setupLDAP | Some l \<Rightarrow> l)))
      else Some s)"

definition apply_setup :: "setupReq \<Rightarrow> Config \<Rightarrow> Config" where
  "apply_setup req c =
     (let az = cf_Azure c;
          c = c\<lparr>cf_Azure := az
            \<lparr>az_TenantID := TrimSpace (su_TenantID req), az_ClientID := TrimSpace (su_ClientID req),
             az_ClientSecret := TrimSpace (su_ClientSecret req),
             az_RedirectURL := pickString (az_RedirectURL az) (su_RedirectURL req),
             az_AllowedEmails := cleanList (su_AllowedEmails req),
             az_AllowedGroups := cleanList (su_AllowedGroups req)\<rparr>\<rparr>
      in (case su_LDAP req of
            None \<Rightarrow> c
          | Some l \<Rightarrow>
              if \<not> su_EnableLDAP req then c
              else c\<lparr>cf_LDAP := (cf_LDAP c)
                \<lparr>ld_Enabled := True, ld_URL := TrimSpace (sl_URL l), ld_BaseDN := TrimSpace (sl_BaseDN l),
                 ld_BindUPNSuffix := TrimSpace (sl_BindUPNSuffix l),
                 ld_UserFilter := pickString (ld_UserFilter (cf_LDAP c)) (sl_UserFilter l),
                 ld_InsecureTLS := sl_InsecureTLS l, ld_AllowedGroups := cleanList (sl_AllowedGroups l)\<rparr>\<rparr>))"

definition handleSetup :: "env \<Rightarrow> request \<Rightarrow> Admin \<Rightarrow> response \<times> Admin" where
  "handleSetup e r a =
     (let cfg = admin_cfg a;
          anyEnabled = (pn_oauth (ad_panel a) \<or> ld_Enabled (cf_LDAP cfg) \<or> la_Enabled (cf_LocalAdmin cfg))
      in if SessionFromRequest e cfg r = None \<and> \<not> (isLoopback (e_p6 e) (rq_RemoteAddr r) \<and> \<not> anyEnabled)
         then (jsonErr 403 ''requiere una sesion iniciada'', a)
         else (case decodeJSON r setup_field no_setup of
                 Inl d \<Rightarrow> (writeDecodeErr d, a)
               | Inr req \<Rightarrow>
                   if su_EnableLDAP req \<and> su_LDAP req = None
                   then (jsonErr 400 ''faltan los datos del servidor LDAP'', a)
                   else (case admin_update e (apply_setup req) a of
                           (Some err, a) \<Rightarrow> (not_saved, a)
                         | (None, a) \<Rightarrow>
                             (case admin_reload e a of (ok, a) \<Rightarrow>
                                (writeJSON 200 (JObj [(''ok'', JBool True), (''warning'', JStr (reload_warning ok))]),
                                 admin_audit ''setup_completed'' r [] (reload_warning ok) a)))))"

definition credentials_field :: "string \<Rightarrow> string \<Rightarrow> string \<Rightarrow> json \<Rightarrow> string \<times> string \<Rightarrow> (string \<times> string) option" where
  "credentials_field k1 k2 k v s =
     (if k = k1 then map_option (\<lambda>x. (x, snd s)) (dec_str v (fst s))
      else if k = k2 then map_option (\<lambda>x. (fst s, x)) (dec_str v (snd s))
      else Some s)"

definition handleLDAPTest :: "env \<Rightarrow> request \<Rightarrow> Admin \<Rightarrow> response" where
  "handleLDAPTest e r a =
     (if \<not> ld_Enabled (cf_LDAP (admin_cfg a)) then jsonErr 400 ''ldap no esta habilitado''
      else (case decodeJSON r (credentials_field ''username'' ''password'') ([], []) of
              Inl d \<Rightarrow> writeDecodeErr d
            | Inr (username, password) \<Rightarrow>
                (case LDAPLogin (e_dir e) (cf_LDAP (admin_cfg a)) username password of
                   Inl err \<Rightarrow> writeJSON 200 (JObj [(''ok'', JBool False), (''error'', JStr err)])
                 | Inr u \<Rightarrow> writeJSON 200 (JObj [(''ok'', JBool True),
                     (''user'', JObj [(''email'', JStr (uc_Email u)), (''name'', JStr (uc_Name u))])]))))"

definition handleLocalPassword :: "env \<Rightarrow> request \<Rightarrow> Admin \<Rightarrow> response \<times> Admin" where
  "handleLocalPassword e r a =
     (let la = cf_LocalAdmin (admin_cfg a)
      in if \<not> la_Enabled la then (jsonErr 400 ''la cuenta local esta deshabilitada'', a)
         else (case decodeJSON r (credentials_field ''current_password'' ''new_password'') ([], []) of
                 Inl d \<Rightarrow> (writeDecodeErr d, a)
               | Inr (current, new) \<Rightarrow>
                   (case validatePasswordStrength new of
                      Some msg \<Rightarrow> (jsonErr 400 msg, a)
                    | None \<Rightarrow>
                        if \<not> e_check e (la_PasswordHash la) current then
                          (jsonErr 400 ''la contrasena actual no es correcta'',
                           admin_audit ''password_change_failed'' r (la_Username la) ''contrasena actual incorrecta'' a)
                        else (case e_hash e new of
                                None \<Rightarrow> (jsonErr 500 ''no se pudo generar el hash'', a)
                              | Some h \<Rightarrow>
                                  (case admin_update e (\<lambda>c. c\<lparr>cf_LocalAdmin :=
                                          (cf_LocalAdmin c)\<lparr>la_PasswordHash := h\<rparr>\<rparr>) a of
                                     (Some err, a) \<Rightarrow> (not_saved, a)
                                   | (None, a) \<Rightarrow>
                                       (writeJSON 200 JOk, admin_audit ''password_changed'' r (la_Username la) [] a))))))"

section \<open>The second factor\<close>

text \<open>The entries in the order of the association list; Go's order is not fixed.\<close>

definition handleTOTPGet :: "Admin \<Rightarrow> response" where
  "handleTOTPGet a =
     (let t = cf_TOTP (admin_cfg a)
      in writeJSON 200 (JObj
           [(''enabled'', JBool (to_Enabled t)),
            (''enrolled'', JArr (map (\<lambda>(k, s). JObj [(''confirmed'', JBool (ts_Confirmed s)), (''identity'', JStr k)])
               (nil_map (to_Secrets t)))),
            (''require_for'', JStrs (to_RequireFor t))]))"

definition require_field :: "string \<Rightarrow> json \<Rightarrow> string list \<Rightarrow> string list option" where
  "require_field k v l = (if k = ''require_for'' then dec_strs v else Some l)"

definition handleTOTPSettings :: "env \<Rightarrow> string \<Rightarrow> request \<Rightarrow> Admin \<Rightarrow> response \<times> Admin" where
  "handleTOTPSettings e user r a =
     (case decodeJSON r require_field [] of
        Inl d \<Rightarrow> (writeDecodeErr d, a)
      | Inr l \<Rightarrow>
          (case admin_update e (\<lambda>c. c\<lparr>cf_TOTP := (cf_TOTP c)\<lparr>to_Enabled := True, to_RequireFor := cleanList l\<rparr>\<rparr>) a of
             (Some err, a) \<Rightarrow> (not_saved, a)
           | (None, a) \<Rightarrow>
               (writeJSON 200 JOk, admin_audit ''totp_settings'' r user (''usuarios='' @ Itoa (int (length l))) a)))"

definition delete_secret :: "string \<Rightarrow> Config \<Rightarrow> Config" where
  "delete_secret k c =
     c\<lparr>cf_TOTP := (cf_TOTP c)\<lparr>to_Secrets := map_option (AList.delete k) (to_Secrets (cf_TOTP c))\<rparr>\<rparr>"

definition handleTOTPReset :: "env \<Rightarrow> string \<Rightarrow> request \<Rightarrow> Admin \<Rightarrow> response \<times> Admin" where
  "handleTOTPReset e user r a =
     (case decodeJSON r (one_field ''identity'') [] of
        Inl d \<Rightarrow> (writeDecodeErr d, a)
      | Inr identity \<Rightarrow>
          (let k = ToLower (TrimSpace identity)
           in case admin_update e (\<lambda>c. delete_secret (k @ ''@local'') (delete_secret k c)) a of
                (Some err, a) \<Rightarrow> (not_saved, a)
              | (None, a) \<Rightarrow> (writeJSON 200 JOk, admin_audit ''totp_reset'' r user k a)))"

section \<open>ACME domains and sessions\<close>

record acmeReq =
  aq_Enabled :: bool
  aq_Domains :: "string list"
  aq_RedirectHTTP :: bool

definition acme_req_field :: "string \<Rightarrow> json \<Rightarrow> acmeReq \<Rightarrow> acmeReq option" where
  "acme_req_field k v s =
     (if k = ''enabled'' then map_option (\<lambda>x. s\<lparr>aq_Enabled := x\<rparr>) (dec_bool v (aq_Enabled s))
      else if k = ''domains'' then map_option (\<lambda>x. s\<lparr>aq_Domains := x\<rparr>) (dec_strs v)
      else if k = ''redirect_http'' then map_option (\<lambda>x. s\<lparr>aq_RedirectHTTP := x\<rparr>) (dec_bool v (aq_RedirectHTTP s))
      else Some s)"

fun check_domains :: "string list \<Rightarrow> string + string list" where
  "check_domains [] = Inr []"
| "check_domains (d # ds) =
     (let d = ToLower (TrimSpace d)
      in if d = [] then check_domains ds
         else if \<not> hostRE d \<and> \<not> HasPrefix d ''*.'' \<and> \<not> hostRE (TrimPrefix d ''*.'')
           then Inl (''dominio invalido: '' @ d)
         else (case check_domains ds of Inl m \<Rightarrow> Inl m | Inr ds' \<Rightarrow> Inr (d # ds')))"

definition bool_text :: "bool \<Rightarrow> string" where
  "bool_text b = (if b then ''true'' else ''false'')"

definition handleCertACMESet :: "env \<Rightarrow> string \<Rightarrow> request \<Rightarrow> Admin \<Rightarrow> response \<times> Admin" where
  "handleCertACMESet e user r a =
     (case decodeJSON r acme_req_field \<lparr>aq_Enabled = False, aq_Domains = [], aq_RedirectHTTP = False\<rparr> of
        Inl d \<Rightarrow> (writeDecodeErr d, a)
      | Inr q \<Rightarrow>
          (case check_domains (aq_Domains q) of
             Inl msg \<Rightarrow> (jsonErr 400 msg, a)
           | Inr domains \<Rightarrow>
               (case admin_update e (\<lambda>c. c\<lparr>cf_ACME := (cf_ACME c)
                       \<lparr>ac_Enabled := aq_Enabled q, ac_Domains := domains, ac_RedirectHTTP := aq_RedirectHTTP q\<rparr>\<rparr>) a of
                  (Some err, a) \<Rightarrow> (not_saved, a)
                | (None, a) \<Rightarrow>
                    (writeJSON 200 JOk, admin_audit ''cert_acme_update'' r user
                       (''enabled='' @ bool_text (aq_Enabled q) @ '' dominios='' @ Itoa (int (length domains)) @
                        '' redirect='' @ bool_text (aq_RedirectHTTP q) @
                        '' (cambio de listener requiere reinicio)'') a))))"

definition handleRevokeSessions :: "env \<Rightarrow> request \<Rightarrow> Admin \<Rightarrow> response \<times> Admin" where
  "handleRevokeSessions e r a =
     (let who = (case SessionFromRequest e (admin_cfg a) r of None \<Rightarrow> [] | Some u \<Rightarrow> uc_Email u)
      in case admin_update e (RevokeAllSessions (e_rand e ''secret'')) a of
           (Some err, a) \<Rightarrow> (jsonErr 500 ''no se pudo revocar'', a)
         | (None, a) \<Rightarrow>
             (writeJSON 200 (JObj [(''ok'', JStr ''true'')]),
              admin_audit ''sessions_revoked'' r who ''todas las sesiones fueron invalidadas'' a))"

definition handleSecurityInfo :: "env \<Rightarrow> Admin \<Rightarrow> response" where
  "handleSecurityInfo e a =
     (let cfg = admin_cfg a; clock = (\<lambda>k. e_now e)
      in writeJSON 200 (JObj
           [(''active_lockouts'', JInt (int (ActiveLocks clock (pn_limUser (ad_panel a)) +
               ActiveLocks clock (pn_limIP (ad_panel a))))),
            (''admin_allowed_cidrs'', JStrs (cf_AdminAllowedCIDRs cfg)),
            (''default_password'', JBool (IsDefaultPassword (e_check e) (cf_LocalAdmin cfg))),
            (''lockout_minutes'', JInt (cf_LockoutMinutes cfg)),
            (''login_max_fails'', JInt (cf_LoginMaxFails cfg)),
            (''secure_cookies'', JBool (cf_SecureCookies cfg)),
            (''session_epoch'', JInt (cf_SessionEpoch cfg))]))"

definition handleSession :: "env \<Rightarrow> request \<Rightarrow> Admin \<Rightarrow> response" where
  "handleSession e r a =
     (let cfg = admin_cfg a; u = SessionFromRequest e cfg r; oauth = pn_oauth (ad_panel a)
      in writeJSON 200 (JObj
           ([(''authenticated'', JBool (u \<noteq> None))] @
            (case u of None \<Rightarrow> [] | Some u \<Rightarrow> [(''user'', JObj (claims_json u))]) @
            [(''setup_required'', JBool (\<not> oauth \<and> \<not> ld_Enabled (cf_LDAP cfg))),
             (''entra_enabled'', JBool oauth),
             (''ldap_enabled'', JBool (ld_Enabled (cf_LDAP cfg))),
             (''local_enabled'', JBool (la_Enabled (cf_LocalAdmin cfg))),
             (''default_password'', JBool (u \<noteq> None \<and> IsDefaultPassword (e_check e) (cf_LocalAdmin cfg))),
             (''is_admin'', JBool (u \<noteq> None \<and> isPanelAdmin u cfg))])))"

section \<open>Guards and routes\<close>

datatype endpoint =
    LoginPage | LoginLDAP | LoginLocal | Callback | Logout | TwoFAPage | TwoFAVerify | EnrollPage | EnrollConfirm
  | SessionInfo | RulesGet | RulesPost | RulesDelete | ConfigGet | ConfigPost | Setup | LDAPTest
  | LocalPassword | RevokeSessions | SecurityInfo | TOTPGet | TOTPSettings | TOTPReset | StreamGet
  | StreamPost | LoadBalancing | CertsGet | CertsStatus | CertACME | CertPut | CertDelete | CertRenew
  | PageOf string | Favicon | OpenOther | GuardedOther

text \<open>
  The routes. The two methods of a GET pattern are GET and HEAD. \<open>OpenOther\<close> and \<open>GuardedOther\<close> are the
  handlers with a state of their own: the metrics and health pages, the copies of the database, updates.
\<close>

definition mux :: "request \<Rightarrow> endpoint option" where
  "mux r =
     (let is_get = (rq_Method r = ''GET'' \<or> rq_Method r = ''HEAD''); is_post = (rq_Method r = ''POST'')
      in map_of ((if is_get then
           [(''/auth/login'', LoginPage), (''/auth/callback'', Callback), (''/auth/logout'', Logout), (''/auth/2fa'', TwoFAPage),
            (''/auth/2fa/enroll'', EnrollPage), (''/api/session'', SessionInfo), (''/api/rules'', RulesGet),
            (''/api/config'', ConfigGet), (''/api/security'', SecurityInfo), (''/api/totp'', TOTPGet),
            (''/api/load-balancing'', LoadBalancing), (''/api/stream'', StreamGet), (''/api/certs'', CertsGet),
            (''/api/certs/status'', CertsStatus), (''/'', PageOf ''index.html''), (''/style.css'', PageOf ''style.css''),
            (''/app.js'', PageOf ''app.js''), (''/chart.umd.min.js'', PageOf ''chart.umd.min.js''), (''/favicon.svg'', Favicon),
            (''/metrics'', OpenOther), (''/api/health'', OpenOther), (''/api/upstream-health'', GuardedOther),
            (''/api/storage/backups'', GuardedOther), (''/api/update'', GuardedOther)] else []) @
         (if is_post then
           [(''/auth/login/ldap'', LoginLDAP), (''/auth/login/local'', LoginLocal),
            (''/auth/2fa/verify'', TwoFAVerify), (''/auth/2fa/enroll/confirm'', EnrollConfirm),
            (''/api/rules'', RulesPost), (''/api/rules/delete'', RulesDelete), (''/api/config'', ConfigPost),
            (''/api/setup'', Setup), (''/api/ldap-test'', LDAPTest), (''/api/local-password'', LocalPassword),
            (''/api/sessions/revoke'', RevokeSessions), (''/api/totp/settings'', TOTPSettings),
            (''/api/totp/reset'', TOTPReset), (''/api/stream'', StreamPost),
            (''/api/certs/acme'', CertACME), (''/api/certs/custom'', CertPut),
            (''/api/certs/custom/delete'', CertDelete), (''/api/certs/renew'', CertRenew),
            (''/api/storage/backup'', GuardedOther), (''/api/storage/restore'', GuardedOther),
            (''/api/storage/delete'', GuardedOther), (''/api/update'', GuardedOther)] else [])) (rq_Path r))"

definition on_panel :: "(Panel \<Rightarrow> response \<times> Panel) \<Rightarrow> Admin \<Rightarrow> response \<times> Admin" where
  "on_panel h a = (case h (ad_panel a) of (w, p) \<Rightarrow> (w, a\<lparr>ad_panel := p\<rparr>))"

text \<open>\<open>requirePage\<close> guards the pages; what it shows then is constant (\<open>page\<close>).\<close>

definition requirePage :: "env \<Rightarrow> request \<Rightarrow> string \<Rightarrow> Admin \<Rightarrow> response" where
  "requirePage e r page a =
     (case SessionFromRequest e (admin_cfg a) r of
        None \<Rightarrow> redirect ''/auth/login''
      | Some u \<Rightarrow>
          if \<not> isPanelAdmin (Some u) (admin_cfg a)
          then \<lparr>rs_Status = 403, rs_Location = [], rs_Cookies = [], rs_Body = Page ''Acceso denegado''\<rparr>
          else \<lparr>rs_Status = 200, rs_Location = [], rs_Cookies = [], rs_Body = Page page\<rparr>)"

text \<open>Of the panel such a handler changes the audit log only (\<open>e_other\<close>: its answer and its entries).\<close>

definition other_handler :: "env \<Rightarrow> request \<Rightarrow> Admin \<Rightarrow> response \<times> Admin" where
  "other_handler e r a =
     (case e_other e r of (w, es) \<Rightarrow> (w, logged es a))"

text \<open>Endpoints outside \<open>requireAPI\<close>.\<close>

fun serve_open :: "env \<Rightarrow> request \<Rightarrow> endpoint \<Rightarrow> Admin \<Rightarrow> (response \<times> Admin) option" where
  "serve_open e r LoginPage a = Some (handleLoginPage e r a)"
| "serve_open e r LoginLDAP a = Some (on_panel (handleLDAPLogin e r) a)"
| "serve_open e r LoginLocal a = Some (on_panel (handleLocalLogin e r) a)"
| "serve_open e r Callback a = Some (on_panel (HandleCallback e r) a)"
| "serve_open e r Logout a = Some (HandleLogout, a)"
| "serve_open e r TwoFAPage a = Some (handle2FAPage e r (ad_panel a), a)"
| "serve_open e r TwoFAVerify a = Some (on_panel (handle2FAVerify e r) a)"
| "serve_open e r EnrollPage a = Some (on_panel (handle2FAEnrollPage e r) a)"
| "serve_open e r EnrollConfirm a = Some (on_panel (handle2FAEnrollConfirm e r) a)"
| "serve_open e r SessionInfo a = Some (handleSession e r a, a)"
| "serve_open e r Setup a = Some (handleSetup e r a)"
| "serve_open e r (PageOf name) a = Some (requirePage e r name a, a)"
| "serve_open e r Favicon a =
     Some (\<lparr>rs_Status = 200, rs_Location = [], rs_Cookies = [], rs_Body = Page ''favicon.svg''\<rparr>, a)"
| "serve_open e r OpenOther a = Some (other_handler e r a)"
| "serve_open e r ep a = None"

text \<open>Endpoints behind \<open>requireAPI\<close>, with the e-mail address it puts into \<open>X-Px-User\<close>.\<close>

fun serve_api :: "env \<Rightarrow> string \<Rightarrow> request \<Rightarrow> endpoint \<Rightarrow> Admin \<Rightarrow> response \<times> Admin" where
  "serve_api e user r RulesGet a = (handleRulesGet a, a)"
| "serve_api e user r RulesPost a = handleRulesPost e user r a"
| "serve_api e user r RulesDelete a = handleRulesDelete e user r a"
| "serve_api e user r ConfigGet a = (handleConfigGet a, a)"
| "serve_api e user r ConfigPost a = handleConfigPost e user r a"
| "serve_api e user r LDAPTest a = (handleLDAPTest e r a, a)"
| "serve_api e user r LocalPassword a = handleLocalPassword e r a"
| "serve_api e user r RevokeSessions a = handleRevokeSessions e r a"
| "serve_api e user r SecurityInfo a = (handleSecurityInfo e a, a)"
| "serve_api e user r TOTPGet a = (handleTOTPGet a, a)"
| "serve_api e user r TOTPSettings a = handleTOTPSettings e user r a"
| "serve_api e user r TOTPReset a = handleTOTPReset e user r a"
| "serve_api e user r StreamPost a = handleStreamPost e user r a"
| "serve_api e user r StreamGet a = (handleStreamGet a, a)"
| "serve_api e user r LoadBalancing a = (handleLoadBalancing a, a)"
| "serve_api e user r CertsGet a = (handleCertsGet e a, a)"
| "serve_api e user r CertsStatus a = (handleCertsStatus e a, a)"
| "serve_api e user r CertACME a = handleCertACMESet e user r a"
| "serve_api e user r CertPut a = handleCertCustomPut e user r a"
| "serve_api e user r CertDelete a = handleCertCustomDelete e user r a"
| "serve_api e user r CertRenew a = handleCertRenew e user r a"
| "serve_api e user r GuardedOther a = other_handler e r a"
| "serve_api e user r ep a = (NotFound, a)"

definition requireAPI ::
  "env \<Rightarrow> request \<Rightarrow> (string \<Rightarrow> Admin \<Rightarrow> response \<times> Admin) \<Rightarrow> Admin \<Rightarrow> response \<times> Admin" where
  "requireAPI e r next a =
     (case SessionFromRequest e (admin_cfg a) r of
        None \<Rightarrow> (jsonErr 401 ''sesion requerida'', a)
      | Some u \<Rightarrow>
          if \<not> isPanelAdmin (Some u) (admin_cfg a)
          then (jsonErr 403 ''requiere rol de administrador del panel'', a)
          else next (uc_Email u) a)"

definition unsafeMethods :: "string list" where
  "unsafeMethods = [''POST'', ''PUT'', ''PATCH'', ''DELETE'']"

definition origin_ok :: "env \<Rightarrow> request \<Rightarrow> bool" where
  "origin_ok e r \<longleftrightarrow>
     (if rq_Method r \<in> set unsafeMethods then
        (let origin = rq_Header r ''Origin''
         in if origin \<noteq> [] \<and> origin \<noteq> ''null'' then
              (case e_url e origin of None \<Rightarrow> False | Some u \<Rightarrow> EqualFold (u_Host u) (rq_Host r))
            else True)
      else True)"

definition CheckOrigin ::
  "env \<Rightarrow> request \<Rightarrow> (Admin \<Rightarrow> response \<times> Admin) \<Rightarrow> Admin \<Rightarrow> response \<times> Admin" where
  "CheckOrigin e r next a =
     (if \<not> origin_ok e r then (http_error ''origen no permitido'' 403, a) else next a)"

definition ipAllowlistMW ::
  "env \<Rightarrow> request \<Rightarrow> (Admin \<Rightarrow> response \<times> Admin) \<Rightarrow> Admin \<Rightarrow> response \<times> Admin" where
  "ipAllowlistMW e r next a =
     (let cidrs = cf_AdminAllowedCIDRs (admin_cfg a)
      in if cidrs \<noteq> [] \<and>
            \<not> IPInNets (e_p6 e) (ClientIP (rq_RemoteAddr r)) (fst (ParseCIDRList (e_p6 e) cidrs))
         then (http_error ''403: acceso no autorizado'' 403,
               admin_audit ''admin_blocked_ip'' r [] ''no esta en la lista blanca'' a)
         else next a)"

definition serve :: "env \<Rightarrow> request \<Rightarrow> Admin \<Rightarrow> response \<times> Admin" where
  "serve e r =
     CheckOrigin e r (ipAllowlistMW e r (\<lambda>a.
       case mux r of
         None \<Rightarrow> (NotFound, a)
       | Some ep \<Rightarrow>
           (case serve_open e r ep a of
              Some w \<Rightarrow> w
            | None \<Rightarrow> requireAPI e r (\<lambda>user. serve_api e user r ep) a)))"

end
