(* ===== verification/PanelSafety.thy ===== *)
theory PanelSafety
  imports AdminRoutes
begin

text \<open>
  What holds of the panel: which requests may change its configuration, and how; and what every
  change keeps of it. \<open>admin_edit\<close>, \<open>setup_edit\<close> and \<open>enrol_edit\<close> state abstractly the changes that an
  administrator, the setup page and a login may make; the handlers are shown to make no others.
\<close>

section \<open>The changes a configuration may undergo\<close>

inductive admin_edit :: "env \<Rightarrow> Config \<Rightarrow> Config \<Rightarrow> bool" for e where
  Upsert: "check_rule e rl0 = Inr rl \<Longrightarrow> admin_edit e c (c\<lparr>cf_Rules := upsert_rule rl (cf_Rules c)\<rparr>)"
| Remove: "admin_edit e c (c\<lparr>cf_Rules := remove_rule (NormalizeHost h) (cf_Rules c)\<rparr>)"
| Listeners: "check_streams [] ss0 = Inr ss \<Longrightarrow> admin_edit e c (c\<lparr>cf_StreamRules := ss\<rparr>)"
| Settings: "admin_edit e c (apply_config given1 given2 req c)"
| Password: "validatePasswordStrength new = None \<Longrightarrow> e_hash e new = Some h \<Longrightarrow>
    e_check e (la_PasswordHash (cf_LocalAdmin c)) current \<Longrightarrow>
    admin_edit e c (c\<lparr>cf_LocalAdmin := (cf_LocalAdmin c)\<lparr>la_PasswordHash := h\<rparr>\<rparr>)"
| Require: "admin_edit e c (c\<lparr>cf_TOTP := (cf_TOTP c)\<lparr>to_Enabled := True, to_RequireFor := l\<rparr>\<rparr>)"
| Forget: "admin_edit e c (delete_secret (k @ ''@local'') (delete_secret k c))"
| Domains: "check_domains ds0 = Inr ds \<Longrightarrow> admin_edit e c
    (c\<lparr>cf_ACME := (cf_ACME c)\<lparr>ac_Enabled := on, ac_Domains := ds, ac_RedirectHTTP := red\<rparr>\<rparr>)"
| Revoke: "admin_edit e c (RevokeAllSessions (e_rand e ''secret'') c)"

inductive_cases admin_editE: "admin_edit e c c'"

definition setup_edit :: "Config \<Rightarrow> Config \<Rightarrow> bool" where
  "setup_edit c c' \<longleftrightarrow> (\<exists>req. c' = apply_setup req c)"

text \<open>A login may draw a secret where there is none, and confirm one by a code that is right.\<close>

inductive enrol_edit :: "env \<Rightarrow> Config \<Rightarrow> Config \<Rightarrow> bool" for e where
  Draw: "\<not> has_secret c key \<Longrightarrow> GenerateTOTPSecret (e_totpRaw e) = Some s \<Longrightarrow>
    enrol_edit e c (put_secret key \<lparr>ts_Secret = s, ts_Confirmed = False\<rparr> c)"
| Confirm: "totp_secret c key = Some sec \<Longrightarrow> ts_Secret sec \<noteq> [] \<Longrightarrow>
    verifyTOTPCodeAt (e_sha1 e) (ts_Secret sec) code (e_now e) \<Longrightarrow>
    enrol_edit e c (put_secret key (sec\<lparr>ts_Confirmed := True\<rparr>) c)"

inductive_cases enrol_editE: "enrol_edit e c c'"

definition ip_allowed :: "env \<Rightarrow> request \<Rightarrow> Config \<Rightarrow> bool" where
  "ip_allowed e r c \<longleftrightarrow> cf_AdminAllowedCIDRs c = [] \<or>
     IPInNets (e_p6 e) (ClientIP (rq_RemoteAddr r)) (fst (ParseCIDRList (e_p6 e) (cf_AdminAllowedCIDRs c)))"

definition may_setup :: "env \<Rightarrow> request \<Rightarrow> Admin \<Rightarrow> bool" where
  "may_setup e r a \<longleftrightarrow> SessionFromRequest e (admin_cfg a) r \<noteq> None \<or>
     isLoopback (e_p6 e) (rq_RemoteAddr r) \<and> \<not> pn_oauth (ad_panel a) \<and>
     \<not> ld_Enabled (cf_LDAP (admin_cfg a)) \<and> \<not> la_Enabled (cf_LocalAdmin (admin_cfg a))"

section \<open>What each operation does to the configuration\<close>

lemma Save_cfg [simp]: "s_cfg (snd (Save d x s)) = s_cfg s"
  by (auto simp: Save_def Let_def pushToBackend_def backupConfig_def split: prod.splits option.splits if_splits)

lemma Update_cfg [simp]: "s_cfg (snd (Update d x f s)) = f (s_cfg s)"
  by (simp add: Update_def)

lemma update_store_cfg [simp]: "panel_cfg (snd (update_store e f p)) = f (panel_cfg p)"
  using Update_cfg [of "e_draws e" "e_io e" f "pn_store p"]
  by (cases "Update (e_draws e) (e_io e) f (pn_store p)") (simp add: update_store_def)

lemma admin_update_cfg [simp]: "admin_cfg (snd (admin_update e f a)) = f (admin_cfg a)"
  using update_store_cfg [of e f "ad_panel a"]
  by (cases "update_store e f (ad_panel a)") (simp add: admin_update_def)

lemma admin_steps_cfg [simp]:
  "admin_cfg (admin_audit ev r u d a) = admin_cfg a" "admin_cfg (rebuild e a) = admin_cfg a"
  "panel_cfg (snd (Reload e p)) = panel_cfg p" "admin_cfg (snd (admin_reload e a)) = admin_cfg a"
  by (auto simp: admin_audit_def rebuild_def Reload_def admin_reload_def Let_def split: prod.splits)

definition edits :: "env \<Rightarrow> Admin \<Rightarrow> response \<times> Admin \<Rightarrow> bool" where
  "edits e a w \<longleftrightarrow> admin_cfg (snd w) = admin_cfg a \<or> admin_edit e (admin_cfg a) (admin_cfg (snd w))"

lemma edits_same [simp, intro]: "admin_cfg a' = admin_cfg a \<Longrightarrow> edits e a (w, a')"
  by (simp add: edits_def)

lemma edits_update:
  assumes "admin_edit e (admin_cfg a) (f (admin_cfg a))"
    and "\<And>a'. admin_cfg (snd (ok a')) = admin_cfg a'"
  shows "edits e a (case admin_update e f a of (None, a') \<Rightarrow> ok a' | (Some err, a') \<Rightarrow> (w, a'))"
proof -
  obtain err a' where u: "admin_update e f a = (err, a')" by fastforce
  then have "admin_cfg a' = f (admin_cfg a)" using admin_update_cfg [of e f a] by simp
  then show ?thesis using assms u by (cases err) (simp_all add: edits_def)
qed

lemma handleRulesPost_edits: "edits e a (handleRulesPost e user r a)"
  unfolding handleRulesPost_def
  by (auto split: sum.splits intro!: edits_update Upsert simp: Let_def)

lemma handleRulesDelete_edits: "edits e a (handleRulesDelete e user r a)"
  unfolding handleRulesDelete_def Let_def
  by (auto split: sum.splits intro!: edits_update Remove)

lemma handleStreamPost_edits: "edits e a (handleStreamPost e user r a)"
  unfolding handleStreamPost_def
  by (auto split: sum.splits intro!: edits_update Listeners)

lemma after_reload:
  assumes "\<And>ok x. admin_cfg (snd (k ok x)) = admin_cfg x"
  shows "admin_cfg (snd (case admin_reload e a of (ok, x) \<Rightarrow> k ok x)) = admin_cfg a"
  using assms admin_steps_cfg(4) [of e a] by (cases "admin_reload e a") simp

lemma handleConfigPost_edits: "edits e a (handleConfigPost e user r a)"
proof (cases "decodeJSON r config_field no_config")
  case (Inr req)
  show ?thesis
    unfolding handleConfigPost_def Inr sum.case
    by (rule edits_update, rule Settings, rule after_reload) (simp add: Let_def)
qed (simp add: handleConfigPost_def)

lemma handleLocalPassword_edits: "edits e a (handleLocalPassword e r a)"
proof (cases "decodeJSON r (credentials_field ''current_password'' ''new_password'') ([], [])")
  case (Inr q)
  obtain current new where q: "q = (current, new)" by fastforce
  show ?thesis
  proof (cases "validatePasswordStrength new")
    case None
    then show ?thesis
      by (cases "e_hash e new") (auto simp: handleLocalPassword_def Let_def Inr q intro!: edits_update Password)
  qed (simp add: handleLocalPassword_def Let_def Inr q)
qed (simp add: handleLocalPassword_def Let_def)

lemma handleTOTPSettings_edits: "edits e a (handleTOTPSettings e user r a)"
  unfolding handleTOTPSettings_def
  by (auto split: sum.splits intro!: edits_update Require)

lemma handleTOTPReset_edits: "edits e a (handleTOTPReset e user r a)"
  unfolding handleTOTPReset_def Let_def
  by (auto split: sum.splits intro!: edits_update Forget)

lemma handleCertACMESet_edits: "edits e a (handleCertACMESet e user r a)"
  unfolding handleCertACMESet_def
  by (auto split: sum.splits intro!: edits_update Domains)

lemma handleRevokeSessions_edits: "edits e a (handleRevokeSessions e r a)"
  unfolding handleRevokeSessions_def Let_def
  by (auto intro!: edits_update Revoke)

lemma handleCert_same [simp]:
  "admin_cfg (snd (handleCertCustomPut e user r a)) = admin_cfg a"
  "admin_cfg (snd (handleCertCustomDelete e user r a)) = admin_cfg a"
  "admin_cfg (snd (handleCertRenew e user r a)) = admin_cfg a"
  by (auto simp: handleCertCustomPut_def handleCertCustomDelete_def handleCertRenew_def Let_def
      split: sum.splits option.splits)

lemma other_handler_cfg [simp]: "admin_cfg (snd (other_handler e r a)) = admin_cfg a"
  by (simp add: other_handler_def logged_def split: prod.split)

lemmas api_edits = handleRulesPost_edits handleRulesDelete_edits handleStreamPost_edits
  handleConfigPost_edits handleLocalPassword_edits handleTOTPSettings_edits handleTOTPReset_edits
  handleCertACMESet_edits handleRevokeSessions_edits

lemma serve_api_edits: "edits e a (serve_api e user r ep a)"
  using api_edits by (cases ep) (simp_all, simp_all add: edits_def)

lemma handleSetup_edit:
  "admin_cfg (snd (handleSetup e r a)) = admin_cfg a \<or>
   may_setup e r a \<and> setup_edit (admin_cfg a) (admin_cfg (snd (handleSetup e r a)))"
proof (cases "may_setup e r a")
  case True
  then have guard: "\<not> (SessionFromRequest e (admin_cfg a) r = None \<and>
      \<not> (isLoopback (e_p6 e) (rq_RemoteAddr r) \<and>
        \<not> (pn_oauth (ad_panel a) \<or> ld_Enabled (cf_LDAP (admin_cfg a)) \<or> la_Enabled (cf_LocalAdmin (admin_cfg a)))))"
    by (auto simp: may_setup_def)
  show ?thesis
  proof (cases "decodeJSON r setup_field no_setup")
    case (Inr req)
    obtain err a' where u: "admin_update e (apply_setup req) a = (err, a')" by fastforce
    then have c: "admin_cfg a' = apply_setup req (admin_cfg a)"
      using admin_update_cfg [of e "apply_setup req" a] by simp
    obtain ok a2 where l: "admin_reload e a' = (ok, a2)" by fastforce
    then have "admin_cfg a2 = admin_cfg a'" by (metis admin_steps_cfg(4) snd_conv)
    then have "admin_cfg (snd (handleSetup e r a)) \<in> {admin_cfg a, admin_cfg a'}"
      unfolding handleSetup_def Let_def if_not_P [OF guard] Inr sum.case u
      by (cases "su_EnableLDAP req \<and> su_LDAP req = None"; cases err) (simp_all add: l)
    with c True show ?thesis by (auto simp: setup_edit_def)
  qed (simp add: handleSetup_def Let_def)
qed (auto simp: handleSetup_def may_setup_def Let_def)

definition enrols :: "env \<Rightarrow> Panel \<Rightarrow> Panel \<Rightarrow> bool" where
  "enrols e p p' \<longleftrightarrow> panel_cfg p' = panel_cfg p \<or> enrol_edit e (panel_cfg p) (panel_cfg p')"

lemma EnsureUnconfirmedSecret_enrols: "enrols e p (snd (EnsureUnconfirmedSecret e key p))"
proof -
  obtain err p' where u: "update_store e (\<lambda>c. snd (ensure_change e key c)) p = (err, p')" by fastforce
  then have "panel_cfg p' = snd (ensure_change e key (panel_cfg p))" by (metis update_store_cfg snd_conv)
  then have "panel_cfg (snd (EnsureUnconfirmedSecret e key p)) = snd (ensure_change e key (panel_cfg p))"
    by (simp add: EnsureUnconfirmedSecret_def Let_def u)
  then show ?thesis
    using Draw [of "panel_cfg p" key e]
    by (auto simp: enrols_def ensure_change_def Let_def split: option.splits)
qed

lemma ConfirmSecret_enrols: "enrols e p (snd (ConfirmSecret e key code p))"
proof (cases "totp_secret (panel_cfg p) key")
  case (Some sec)
  let ?f = "\<lambda>c. put_secret key ((case totp_secret c key of None \<Rightarrow> no_totp | Some v \<Rightarrow> v)\<lparr>ts_Confirmed := True\<rparr>) c"
  obtain err p' where u: "update_store e ?f p = (err, p')" by fastforce
  then have c: "panel_cfg p' = put_secret key (sec\<lparr>ts_Confirmed := True\<rparr>) (panel_cfg p)"
    using update_store_cfg [of e ?f p] by (simp add: Some)
  show ?thesis
    using Confirm [OF Some, of e code] c
    by (cases err) (auto simp: enrols_def ConfirmSecret_def Some u)
qed (simp add: ConfirmSecret_def enrols_def)

lemma CompleteLogin_enrols: "enrols e p (snd (CompleteLogin e r u ret p))"
  using EnsureUnconfirmedSecret_enrols [of e p "totpKeyOf u"]
  by (auto simp: CompleteLogin_def Let_def enrols_def split: prod.splits)

lemma enrols_refl [simp]: "panel_cfg p' = panel_cfg p \<Longrightarrow> enrols e p p'"
  by (simp add: enrols_def)

lemma enrols_cong: "panel_cfg q = panel_cfg p \<Longrightarrow> enrols e q p' \<Longrightarrow> enrols e p p'"
  by (simp add: enrols_def)

lemma password_login_enrols: "enrols e p (snd (password_login account via e r p))"
proof -
  let ?ik = "''ip|'' @ ClientIP (rq_RemoteAddr r)" and ?name = "TrimSpace (PostFormValue r ''username'')"
  let ?uk = "''u|'' @ via @ ''|'' @ ToLower ?name"
  let ?w = "password_login account via e r p"
  consider "\<exists>key until p'. ?w = loginBlocked e r key until via p' \<and> pn_store p' = pn_store p"
    | err p' where "?w = (redirect (''/auth/login?error='' @ QueryEscape err), p')" "pn_store p' = pn_store p"
    | u p' where "?w = CompleteLogin e r u (FormValue r ''return'') p'" "pn_store p' = pn_store p"
    using password_login_blocked [OF refl refl refl, of e r p via account]
      password_login_failed [OF refl refl refl, of e r p via account]
      password_login_accepted [OF refl refl refl, of e r p via account]
    by (cases "account ?name (PostFormValue r ''password'')") blast+
  then show ?thesis
  proof cases
    case 3
    then show ?thesis using CompleteLogin_enrols enrols_cong by metis
  qed auto
qed

lemma if_weak_split: "P x \<Longrightarrow> P y \<Longrightarrow> P (if b then x else y)"
  by simp

lemma option_weak_split: "P x \<Longrightarrow> (\<And>v. P (f v)) \<Longrightarrow> P (case m of None \<Rightarrow> x | Some v \<Rightarrow> f v)"
  by (cases m) simp_all

lemma list_weak_split: "P x \<Longrightarrow> (\<And>v vs. P (f v vs)) \<Longrightarrow> P (case l of [] \<Rightarrow> x | v # vs \<Rightarrow> f v vs)"
  by (cases l) simp_all

lemma exchange_weak_split:
  "P a \<Longrightarrow> P b \<Longrightarrow> P c \<Longrightarrow> P d \<Longrightarrow> (\<And>ic. P (f ic)) \<Longrightarrow>
   P (case m of ExchangeFailed \<Rightarrow> a | NoIdToken \<Rightarrow> b | BadIdToken \<Rightarrow> c | BadClaims \<Rightarrow> d | Claims ic \<Rightarrow> f ic)"
  by (cases m) simp_all

lemma login_handlers_enrol:
  "enrols e p (snd (handleLocalLogin e r p))" "enrols e p (snd (handleLDAPLogin e r p))"
  "enrols e p (snd (HandleCallback e r p))" "enrols e p (snd (handle2FAVerify e r p))"
  "enrols e p (snd (handle2FAEnrollPage e r p))" "enrols e p (snd (handle2FAEnrollConfirm e r p))"
proof -
  show "enrols e p (snd (handleLocalLogin e r p))" "enrols e p (snd (handleLDAPLogin e r p))"
    using password_login_enrols by (auto simp: handleLocalLogin_def handleLDAPLogin_def)
  show "enrols e p (snd (HandleCallback e r p))"
    unfolding HandleCallback_def Let_def
    by (intro if_weak_split [where P = "\<lambda>w. enrols e p (snd w)"] option_weak_split [where P = "\<lambda>w. enrols e p (snd w)"]
        list_weak_split [where P = "\<lambda>w. enrols e p (snd w)"] exchange_weak_split [where P = "\<lambda>w. enrols e p (snd w)"];
        simp only: snd_conv enrols_refl CompleteLogin_enrols)
  show "enrols e p (snd (handle2FAVerify e r p))"
  proof (cases "PendingFromRequest e (panel_cfg p) r")
    case (Some pend)
    let ?key = "totpKeyOf (pp_User pend)"
    obtain ok until lt where l: "Allowed (e_now e) (''totp|'' @ ?key) (pn_limTOTP p) = ((ok, until), lt)"
      by (metis prod.collapse)
    show ?thesis
    proof (cases "totp_secret (panel_cfg p) ?key")
      case s: (Some sec)
      show ?thesis
        by (rule enrols_refl, simp add: handle2FAVerify_def Let_def Some s l [simplified append_Cons append_Nil])
    qed (simp add: handle2FAVerify_def Let_def Some)
  qed (simp add: handle2FAVerify_def Let_def)
  show "enrols e p (snd (handle2FAEnrollPage e r p))"
  proof (cases "PendingFromRequest e (panel_cfg p) r")
    case (Some pend)
    then show ?thesis
      using EnsureUnconfirmedSecret_enrols [of e p "totpKeyOf (pp_User pend)"]
      by (cases "EnsureUnconfirmedSecret e (totpKeyOf (pp_User pend)) p"; cases "fst (EnsureUnconfirmedSecret e (totpKeyOf (pp_User pend)) p)")
        (simp add: handle2FAEnrollPage_def Let_def)
  qed (simp add: handle2FAEnrollPage_def)
  show "enrols e p (snd (handle2FAEnrollConfirm e r p))"
  proof (cases "PendingFromRequest e (panel_cfg p) r")
    case (Some pend)
    obtain err p' where c: "ConfirmSecret e (totpKeyOf (pp_User pend)) (TrimSpace (PostFormValue r ''code'')) p = (err, p')"
      by fastforce
    then have "enrols e p p'" by (metis ConfirmSecret_enrols snd_conv)
    then show ?thesis
      by (cases err) (simp_all add: handle2FAEnrollConfirm_def Let_def Some c enrols_def)
  qed (simp add: handle2FAEnrollConfirm_def Let_def)
qed

lemma on_panel_cfg [simp]: "admin_cfg (snd (on_panel h a)) = panel_cfg (snd (h (ad_panel a)))"
  by (simp add: on_panel_def case_prod_beta)

lemma handleLoginPage_cfg [simp]: "admin_cfg (snd (handleLoginPage e r a)) = admin_cfg a"
proof -
  have "admin_cfg (snd (handleLoginPage e r a)) \<in> {admin_cfg a, admin_cfg (snd (admin_reload e a))}"
    by (auto simp: handleLoginPage_def Let_def)
  then show ?thesis by simp
qed

definition open_edits :: "env \<Rightarrow> request \<Rightarrow> Admin \<Rightarrow> response \<times> Admin \<Rightarrow> bool" where
  "open_edits e r a w \<longleftrightarrow>
     admin_cfg (snd w) = admin_cfg a \<or> enrol_edit e (admin_cfg a) (admin_cfg (snd w)) \<or>
     may_setup e r a \<and> setup_edit (admin_cfg a) (admin_cfg (snd w))"

lemma open_edits_panel: "enrols e (ad_panel a) (snd (h (ad_panel a))) \<Longrightarrow> open_edits e r a (on_panel h a)"
  by (auto simp: open_edits_def enrols_def)

lemma open_edits_same: "admin_cfg (snd w) = admin_cfg a \<Longrightarrow> open_edits e r a w"
  by (simp add: open_edits_def)

lemma serve_open_edits: "serve_open e r ep a = Some w \<Longrightarrow> open_edits e r a w"
proof -
  have s: "open_edits e r a (handleSetup e r a)"
    using handleSetup_edit by (auto simp: open_edits_def)
  show "serve_open e r ep a = Some w \<Longrightarrow> open_edits e r a w"
    by (cases ep; simp only: serve_open.simps option.inject option.distinct;
        (hypsubst, rule s | hypsubst, rule open_edits_panel, rule login_handlers_enrol
          | hypsubst, rule open_edits_same, simp)?)
qed

section \<open>Who may change the configuration\<close>

lemma serve_edits:
  "admin_cfg (snd (serve e r a)) = admin_cfg a \<or>
   origin_ok e r \<and> ip_allowed e r (admin_cfg a) \<and>
     ((\<exists>u. SessionFromRequest e (admin_cfg a) r = Some u \<and> isPanelAdmin (Some u) (admin_cfg a) \<and>
         admin_edit e (admin_cfg a) (admin_cfg (snd (serve e r a)))) \<or>
      (may_setup e r a \<and> setup_edit (admin_cfg a) (admin_cfg (snd (serve e r a)))) \<or>
      enrol_edit e (admin_cfg a) (admin_cfg (snd (serve e r a))))"
proof (rule excluded_middle [THEN disjE], rule disjI2)
  assume changed: "admin_cfg (snd (serve e r a)) \<noteq> admin_cfg a"
  have o: "origin_ok e r" using changed by (cases "origin_ok e r") (simp_all add: serve_def CheckOrigin_def)
  have i: "ip_allowed e r (admin_cfg a)"
    using changed o by (cases "ip_allowed e r (admin_cfg a)")
      (auto simp: serve_def CheckOrigin_def ipAllowlistMW_def ip_allowed_def Let_def)
  obtain ep where m: "mux r = Some ep"
    using changed o i by (cases "mux r")
      (auto simp: serve_def CheckOrigin_def ipAllowlistMW_def ip_allowed_def Let_def)
  then have s: "serve e r a = (case serve_open e r ep a of Some w \<Rightarrow> w
      | None \<Rightarrow> requireAPI e r (\<lambda>user. serve_api e user r ep) a)"
    using o i by (auto simp: serve_def CheckOrigin_def ipAllowlistMW_def ip_allowed_def Let_def)
  show "origin_ok e r \<and> ip_allowed e r (admin_cfg a) \<and>
     ((\<exists>u. SessionFromRequest e (admin_cfg a) r = Some u \<and> isPanelAdmin (Some u) (admin_cfg a) \<and>
         admin_edit e (admin_cfg a) (admin_cfg (snd (serve e r a)))) \<or>
      (may_setup e r a \<and> setup_edit (admin_cfg a) (admin_cfg (snd (serve e r a)))) \<or>
      enrol_edit e (admin_cfg a) (admin_cfg (snd (serve e r a))))"
  proof (cases "serve_open e r ep a")
    case None
    then obtain u where u: "SessionFromRequest e (admin_cfg a) r = Some u" "isPanelAdmin (Some u) (admin_cfg a)"
      using changed s by (auto simp: requireAPI_def split: option.splits if_splits)
    then show ?thesis
      using changed o i s None serve_api_edits [of e a "uc_Email u" r ep]
      by (simp add: requireAPI_def edits_def)
  next
    case (Some w)
    then have "admin_cfg (snd w) = admin_cfg a \<or> enrol_edit e (admin_cfg a) (admin_cfg (snd w)) \<or>
        may_setup e r a \<and> setup_edit (admin_cfg a) (admin_cfg (snd w))"
      using serve_open_edits by (auto simp: open_edits_def)
    then show ?thesis using changed o i s Some by auto
  qed
qed (rule disjI1)


section \<open>A concrete panel\<close>

definition sample_admin :: Admin where
  "sample_admin = \<lparr>ad_panel = sample_panel, ad_engine = NewEngine, ad_streams = None\<rparr>"

text \<open>A request with a session of \<open>alice\<close> and a body.\<close>

definition sample_post :: "string \<Rightarrow> string \<Rightarrow> request" where
  "sample_post path text =
     (sample_request [])\<lparr>rq_Path := path,
       rq_Cookie := [sessionCookieName \<mapsto> IssueSession plain_mac (panel_cfg sample_panel) 0 alice],
       rq_Body := text\<rparr>"

lemma sample_post_sel [simp]:
  "rq_Method (sample_post path text) = ''POST''" "rq_Path (sample_post path text) = path"
  "rq_Header (sample_post path text) h = []" "rq_Body (sample_post path text) = text"
  "\<not> rq_TooLarge (sample_post path text)"
  "admin_cfg sample_admin = panel_cfg sample_panel"
  by (simp_all add: sample_post_def sample_request_def sample_admin_def)

lemma sample_cfg [simp]:
  "cf_AdminAllowedCIDRs (panel_cfg sample_panel) = []" "cf_PanelAdmins (panel_cfg sample_panel) = []"
  "cf_SessionEpoch (panel_cfg sample_panel) = 0" "cf_Rules (panel_cfg sample_panel) = []"
  "cf_InsecureUpstream (panel_cfg sample_panel) = False"
  by (simp_all add: sample_panel_def sample_config_def with_defaults_def no_config_def)

lemma sample_session:
  "SessionFromRequest (sample_env 0) (panel_cfg sample_panel) (sample_post path text) = Some alice"
proof -
  have "session_exp (panel_cfg sample_panel) 0 = 43200"
    by (simp add: session_exp_def session_hours_def sample_panel_def sample_config_def with_defaults_def
        no_config_def Unix_def numbers wrap64_id min_int64_def max_int64_def)
  then show ?thesis
    by (simp add: SessionFromRequest_def sample_post_def IssueSession_def ValidateSession_signed
        payloads_ok dec_as_session session_verdict_def Unix_def int64_def min_int64_def max_int64_def)
qed


end
