(* ===== verification/PanelInvariants.thy ===== *)
theory PanelInvariants
  imports PanelSafety
begin

text \<open>
  What every sequence of requests to the panel keeps: the configuration stays valid, and the routing
  table agrees with it as long as it can be saved.
\<close>

section \<open>Services\<close>

text \<open>
  The contract of a server with an invariant: every request it may be given keeps the invariant, so
  every sequence of them does.
\<close>

locale service =
  fixes run :: "'i \<Rightarrow> 's \<Rightarrow> 'o \<times> 's" and accepts :: "'i \<Rightarrow> bool" and inv :: "'s \<Rightarrow> bool"
  assumes keeps: "accepts i \<Longrightarrow> inv s \<Longrightarrow> inv (snd (run i s))"
begin

lemma keeps_all: "list_all accepts is \<Longrightarrow> inv s \<Longrightarrow> inv (fold (\<lambda>i s. snd (run i s)) is s)"
  by (induction "is" arbitrary: s) (auto intro: keeps)

end

definition serve_all :: "(env \<times> request) list \<Rightarrow> Admin \<Rightarrow> Admin" where
  "serve_all xs a = fold (\<lambda>x a. snd (serve (fst x) (snd x) a)) xs a"

section \<open>Valid configurations\<close>

definition rule_hosts :: "Rule list \<Rightarrow> string list" where
  "rule_hosts rs = map (\<lambda>rl. NormalizeHost (r_Host rl)) rs"

definition trimmed :: "string \<Rightarrow> bool" where
  "trimmed s \<longleftrightarrow> s \<noteq> [] \<and> TrimSpace s = s"

definition valid_listener :: "StreamRule \<Rightarrow> bool" where
  "valid_listener s \<longleftrightarrow> TrimSpace (sr_Listen s) = sr_Listen s \<and> TrimSpace (sr_Target s) = sr_Target s \<and>
     ValidateAddress (sr_Listen s) = None \<and> ValidateAddress (sr_Target s) = None"

definition config_valid :: "Config \<Rightarrow> bool" where
  "config_valid c \<longleftrightarrow>
     cf_AdminPort c \<in> {1..65535} \<and> cf_ProxyHTTPPort c \<in> {1..65535} \<and> cf_ProxyHTTPSPort c \<in> {1..65535} \<and>
     cf_SessionHours c \<in> {1..720} \<and> cf_LoginMaxFails c \<in> {1..100} \<and> cf_LockoutMinutes c \<in> {1..1440} \<and>
     distinct (rule_hosts (cf_Rules c)) \<and>
     distinct (map ruleKey (cf_StreamRules c)) \<and> list_all valid_listener (cf_StreamRules c) \<and>
     list_all trimmed (cf_AdminAllowedCIDRs c) \<and> list_all trimmed (cf_PanelAdmins c)"

subsection \<open>Rules\<close>

lemma set_Join: "set (Join ps sep) \<subseteq> \<Union> (set ` set ps) \<union> set sep"
  by (induction ps sep rule: Join.induct) auto

lemma hostRE_chars:
  assumes "hostRE s"
  shows "set s \<subseteq> {c. alnum c \<or> c \<in> set ''-.*''}"
proof -
  let ?t = "TrimPrefix s ''*.''"
  have "alnum c \<or> c = CHR ''-''" if "l \<in> set (Split ?t (CHR ''.''))" "c \<in> set l" for l c
    using assms that by (auto simp: hostRE_def Let_def list_all_iff is_label_def)
  then have "set (Join (Split ?t (CHR ''.'')) ''.'') \<subseteq> {c. alnum c \<or> c \<in> set ''-.''}"
    using set_Join [of "Split ?t (CHR ''.'')" "''.''"] by fastforce
  then have "set ?t \<subseteq> {c. alnum c \<or> c \<in> set ''-.''}" by (simp only: Join_Split)
  moreover have "set s \<subseteq> set ?t \<union> set ''*.''"
    by (auto simp: TrimPrefix_def HasPrefix_iff)
  ultimately show ?thesis by auto
qed

lemma dropWhile_none: "\<forall>c \<in> set s. \<not> P c \<Longrightarrow> dropWhile P s = s"
  by (cases s) auto

lemma NormalizeHost_plain:
  assumes "\<forall>c \<in> set s. \<not> is_space c \<and> \<not> is_upper c \<and> c \<noteq> CHR '':''"
  shows "NormalizeHost s = s"
proof -
  have "TrimSpace s = s" using assms by (simp add: TrimSpace_def dropWhile_none)
  moreover have "ToLower s = s" using assms by (simp add: ToLower_def lower_char_def map_idI)
  moreover have "IndexByte s (CHR '':'') = None" using assms by (auto simp: IndexByte_None)
  ultimately show ?thesis by (simp add: NormalizeHost_def)
qed

lemma valid_host_fixed:
  assumes "h = ''localhost'' \<or> hostRE h"
  shows "NormalizeHost h = h" "h \<noteq> []"
proof -
  have a: "\<not> is_space c \<and> \<not> is_upper c \<and> c \<noteq> CHR '':''" if "alnum c" for c
    using that by (auto simp: alnum_def is_lower_def is_digit_def is_space_def is_upper_def)
  have b: "\<forall>c \<in> set ''-.*''. \<not> is_space c \<and> \<not> is_upper c \<and> c \<noteq> CHR '':''" by code_simp
  show "NormalizeHost h = h"
  proof (cases "hostRE h")
    case True
    then show ?thesis using hostRE_chars [of h] a b by (intro NormalizeHost_plain) blast
  next
    case False
    then have "h = ''localhost''" using assms by simp
    moreover have "NormalizeHost ''localhost'' = ''localhost''" by code_simp
    ultimately show ?thesis by simp
  qed
  have "\<not> hostRE []" by code_simp
  then show "h \<noteq> []" using assms by auto
qed

lemma check_rule_host:
  assumes "check_rule e rl0 = Inr rl"
  shows "NormalizeHost (r_Host rl) = r_Host rl" "r_Host rl \<noteq> []"
proof -
  have "r_Host rl = ''localhost'' \<or> hostRE (r_Host rl)"
    using assms by (auto simp: check_rule_def Let_def split: if_splits sum.splits)
  then show "NormalizeHost (r_Host rl) = r_Host rl" "r_Host rl \<noteq> []"
    using valid_host_fixed by blast+
qed

lemma rule_hosts_upsert:
  "NormalizeHost (r_Host rl) = r_Host rl \<Longrightarrow>
   rule_hosts (upsert_rule rl rs) =
     (if r_Host rl \<in> set (rule_hosts rs) then rule_hosts rs else rule_hosts rs @ [r_Host rl])"
  by (induction rs) (auto simp: rule_hosts_def)

lemma distinct_upsert:
  "NormalizeHost (r_Host rl) = r_Host rl \<Longrightarrow> distinct (rule_hosts rs) \<Longrightarrow>
   distinct (rule_hosts (upsert_rule rl rs))"
  by (simp add: rule_hosts_upsert)

lemma distinct_remove: "distinct (rule_hosts rs) \<Longrightarrow> distinct (rule_hosts (remove_rule h rs))"
  by (simp add: rule_hosts_def remove_rule_def distinct_map_filter)

subsection \<open>Listeners and lists\<close>

lemma check_streams_ok:
  "check_streams seen ss0 = Inr ss \<Longrightarrow>
   list_all valid_listener ss \<and> distinct (map ruleKey ss) \<and> set (map ruleKey ss) \<inter> set seen = {}"
proof (induction seen ss0 arbitrary: ss rule: check_streams.induct)
  case (2 seen s ss0)
  let ?s = "s\<lparr>sr_Listen := TrimSpace (sr_Listen s), sr_Target := TrimSpace (sr_Target s)\<rparr>"
  have k: "ruleKey ?s = ToLower (TrimSpace (sr_Listen s))" by (simp add: ruleKey_def)
  obtain ss' where v: "ValidateAddress (TrimSpace (sr_Listen s)) = None"
    "ValidateAddress (TrimSpace (sr_Target s)) = None" "ToLower (TrimSpace (sr_Listen s)) \<notin> set seen"
    and r: "check_streams (ToLower (TrimSpace (sr_Listen s)) # seen) ss0 = Inr ss'" "ss = ?s # ss'"
    using "2.prems" by (auto simp: Let_def split: option.splits if_splits sum.splits)
  have r': "check_streams (ToLower (sr_Listen ?s) # seen) ss0 = Inr ss'" using r(1) by simp
  have "list_all valid_listener ss' \<and> distinct (map ruleKey ss') \<and>
      set (map ruleKey ss') \<inter> set (ToLower (TrimSpace (sr_Listen s)) # seen) = {}"
    using "2.IH" [OF refl refl _ _ _ r'] v by simp
  moreover have "valid_listener ?s" using v by (simp add: valid_listener_def)
  ultimately show ?case using v k r(2) by auto
qed simp

lemma trimmed_cleanList: "list_all trimmed (cleanList l)"
  by (auto simp: cleanList_def list_all_iff trimmed_def)

lemma trimmed_pick_list: "list_all trimmed l \<Longrightarrow> list_all trimmed (pick_list l l')"
  by (simp add: pick_list_def Let_def trimmed_cleanList)

lemma pick_ranges:
  "p \<in> {1..65535} \<Longrightarrow> pick_port p q \<in> {1..65535}"
  "x \<in> {lo..hi} \<Longrightarrow> pick_range lo hi x y \<in> {lo..hi}"
  by (auto simp: pick_port_def pick_range_def)

subsection \<open>Every change keeps a configuration valid\<close>

lemma apply_config_sel:
  "cf_AdminPort (apply_config g1 g2 req c) = pick_port (cf_AdminPort c) (cf_AdminPort req)"
  "cf_ProxyHTTPPort (apply_config g1 g2 req c) = pick_port (cf_ProxyHTTPPort c) (cf_ProxyHTTPPort req)"
  "cf_ProxyHTTPSPort (apply_config g1 g2 req c) = pick_port (cf_ProxyHTTPSPort c) (cf_ProxyHTTPSPort req)"
  "cf_SessionHours (apply_config g1 g2 req c) = pick_range 1 720 (cf_SessionHours c) (cf_SessionHours req)"
  "cf_LoginMaxFails (apply_config g1 g2 req c) = pick_range 1 100 (cf_LoginMaxFails c) (cf_LoginMaxFails req)"
  "cf_LockoutMinutes (apply_config g1 g2 req c) = pick_range 1 1440 (cf_LockoutMinutes c) (cf_LockoutMinutes req)"
  "cf_Rules (apply_config g1 g2 req c) = cf_Rules c"
  "cf_StreamRules (apply_config g1 g2 req c) = cf_StreamRules c"
  "cf_AdminAllowedCIDRs (apply_config g1 g2 req c) = pick_list (cf_AdminAllowedCIDRs c) (cf_AdminAllowedCIDRs req)"
  "cf_PanelAdmins (apply_config g1 g2 req c) = pick_list (cf_PanelAdmins c) (cf_PanelAdmins req)"
  "cf_InsecureUpstream (apply_config g1 g2 req c) = cf_InsecureUpstream req"
  by (simp_all add: apply_config_def)

lemma apply_config_valid: "config_valid c \<Longrightarrow> config_valid (apply_config g1 g2 req c)"
  unfolding config_valid_def apply_config_sel using pick_ranges trimmed_pick_list by blast

lemma admin_edit_valid: "admin_edit e c c' \<Longrightarrow> config_valid c \<Longrightarrow> config_valid c'"
proof (induction rule: admin_edit.induct)
  case (Upsert rl0 rl c)
  then show ?case using check_rule_host distinct_upsert by (auto simp: config_valid_def)
next
  case (Listeners ss0 ss c)
  then show ?case using check_streams_ok by (auto simp: config_valid_def)
qed (simp_all add: apply_config_valid, simp_all add: config_valid_def distinct_remove delete_secret_def
    RevokeAllSessions_def)

lemma setup_edit_valid: "setup_edit c c' \<Longrightarrow> config_valid c \<Longrightarrow> config_valid c'"
  by (auto simp: setup_edit_def apply_setup_def config_valid_def Let_def split: option.split)

lemma enrol_edit_valid: "enrol_edit e c c' \<Longrightarrow> config_valid c \<Longrightarrow> config_valid c'"
  by (auto elim!: enrol_editE simp: put_secret_def config_valid_def)

lemma serve_valid: "config_valid (admin_cfg a) \<Longrightarrow> config_valid (admin_cfg (snd (serve e r a)))"
  using serve_edits [of e r a] admin_edit_valid setup_edit_valid enrol_edit_valid by metis

interpretation valid: service "\<lambda>(e, r). serve e r" "\<lambda>x. True" "\<lambda>a. config_valid (admin_cfg a)"
  by unfold_locales (simp add: serve_valid case_prod_beta)


section \<open>The list of rules as a table\<close>

text \<open>A table of entries, each under the key it carries.\<close>

locale keyed_table =
  fixes look :: "'t \<Rightarrow> 'k \<rightharpoonup> 'v" and put :: "'v \<Rightarrow> 't \<Rightarrow> 't" and del :: "'k \<Rightarrow> 't \<Rightarrow> 't"
    and key :: "'v \<Rightarrow> 'k" and entry :: "'v \<Rightarrow> bool" and inv :: "'t \<Rightarrow> bool"
  assumes look_put: "inv t \<Longrightarrow> entry v \<Longrightarrow> look (put v t) = (look t)(key v \<mapsto> v)"
    and look_del: "inv t \<Longrightarrow> look (del k t) = (look t)(k := None)"
    and inv_put: "inv t \<Longrightarrow> entry v \<Longrightarrow> inv (put v t)"
    and inv_del: "inv t \<Longrightarrow> inv (del k t)"
begin

lemma put_twice: "inv t \<Longrightarrow> entry v \<Longrightarrow> entry w \<Longrightarrow> key v = key w \<Longrightarrow> look (put w (put v t)) = look (put w t)"
  by (simp add: look_put inv_put)

lemma put_commute:
  "inv t \<Longrightarrow> entry v \<Longrightarrow> entry w \<Longrightarrow> key v \<noteq> key w \<Longrightarrow> look (put w (put v t)) = look (put v (put w t))"
  by (simp add: look_put inv_put fun_upd_twist)

lemma del_put: "inv t \<Longrightarrow> entry v \<Longrightarrow> look (del (key v) (put v t)) = look (del (key v) t)"
  by (simp add: look_put look_del inv_put)

end

lemma rule_for_distinct:
  "distinct (rule_hosts rs) \<Longrightarrow>
   rule_for rs h = Some rl \<longleftrightarrow> h \<noteq> [] \<and> rl \<in> set rs \<and> NormalizeHost (r_Host rl) = h"
proof (induction rs)
  case (Cons x xs)
  then have *: "NormalizeHost (r_Host x) \<notin> set (rule_hosts xs)" by (simp add: rule_hosts_def)
  then have "rule_for xs (NormalizeHost (r_Host x)) = None"
  proof (cases "rule_for xs (NormalizeHost (r_Host x))")
    case (Some y)
    then have "y \<in> set xs" "NormalizeHost (r_Host y) = NormalizeHost (r_Host x)"
      using rule_for_Some [OF Some] by simp_all
    then have "NormalizeHost (r_Host x) \<in> set (rule_hosts xs)"
      unfolding rule_hosts_def set_map by (metis imageI)
    with * show ?thesis by simp
  qed
  with Cons * show ?case
    by (cases "rule_for xs h") (auto simp: rule_for_Cons rule_hosts_def)
qed simp

lemma set_upsert:
  "NormalizeHost (r_Host rl) = r_Host rl \<Longrightarrow> distinct (rule_hosts rs) \<Longrightarrow>
   set (upsert_rule rl rs) = insert rl {x \<in> set rs. NormalizeHost (r_Host x) \<noteq> r_Host rl}"
proof (induction rs)
  case (Cons x xs)
  have n: "NormalizeHost (r_Host y) \<noteq> NormalizeHost (r_Host x)" if "y \<in> set xs" for y
  proof
    assume "NormalizeHost (r_Host y) = NormalizeHost (r_Host x)"
    then have "NormalizeHost (r_Host x) \<in> set (rule_hosts xs)"
      using that unfolding rule_hosts_def set_map by (metis imageI)
    then show False using Cons.prems by (simp add: rule_hosts_def)
  qed
  show ?case
  proof (cases "NormalizeHost (r_Host x) = r_Host rl")
    case True
    then have "{y \<in> set (x # xs). NormalizeHost (r_Host y) \<noteq> r_Host rl} = set xs" using n by auto
    then show ?thesis using True by simp
  next
    case False
    then have "{y \<in> set (x # xs). NormalizeHost (r_Host y) \<noteq> r_Host rl} =
        insert x {y \<in> set xs. NormalizeHost (r_Host y) \<noteq> r_Host rl}" by auto
    then show ?thesis using False Cons by (auto simp: rule_hosts_def)
  qed
qed simp

lemma rule_for_upsert:
  assumes "NormalizeHost (r_Host rl) = r_Host rl" "r_Host rl \<noteq> []" "distinct (rule_hosts rs)"
  shows "rule_for (upsert_rule rl rs) = (rule_for rs)(r_Host rl \<mapsto> rl)"
proof -
  have "rule_for (upsert_rule rl rs) h = Some x \<longleftrightarrow> ((rule_for rs)(r_Host rl \<mapsto> rl)) h = Some x" for h x
    using assms by (auto simp: rule_for_distinct distinct_upsert set_upsert)
  then show ?thesis by (metis ext not_Some_eq)
qed

lemma rule_for_remove:
  assumes "distinct (rule_hosts rs)"
  shows "rule_for (remove_rule h rs) = (rule_for rs)(h := None)"
proof -
  have "rule_for (remove_rule h rs) k = Some x \<longleftrightarrow> ((rule_for rs)(h := None)) k = Some x" for k x
    using assms by (auto simp: rule_for_distinct distinct_remove) (auto simp: remove_rule_def)
  then show ?thesis by (metis ext not_Some_eq)
qed

definition rule_ready :: "Rule \<Rightarrow> bool" where
  "rule_ready rl \<longleftrightarrow> NormalizeHost (r_Host rl) = r_Host rl \<and> r_Host rl \<noteq> []"

interpretation rtab: keyed_table rule_for upsert_rule remove_rule r_Host rule_ready "\<lambda>rs. distinct (rule_hosts rs)"
  by unfold_locales (simp_all add: rule_ready_def rule_for_upsert rule_for_remove distinct_upsert distinct_remove)

section \<open>The routing table follows the configuration\<close>

definition in_sync :: "url_parser \<Rightarrow> Admin \<Rightarrow> bool" where
  "in_sync up a \<longleftrightarrow> follows_rules up (cf_InsecureUpstream (admin_cfg a)) (cf_Rules (admin_cfg a)) (ad_engine a)"

definition saves_ok :: "env \<Rightarrow> bool" where
  "saves_ok e \<longleftrightarrow> io_local (e_io e) \<and> io_save (e_io e)"

lemma in_sync_rebuild: "in_sync (e_url e) (rebuild e a)"
  using Rebuild_spec(4) [OF refl, of "e_url e" "cf_Rules (admin_cfg a)"
      "SetTLSLax (cf_InsecureUpstream (admin_cfg a)) (ad_engine a)"]
    table_okD(1) [OF Rebuild_spec(1) [OF refl, of "e_url e" "cf_Rules (admin_cfg a)"
      "SetTLSLax (cf_InsecureUpstream (admin_cfg a)) (ad_engine a)"]]
  by (simp add: in_sync_def follows_rules_def rebuild_def SetTLSLax_def)

text \<open>Two panels with the same routing table, rules and TLS mode.\<close>

definition same_routing :: "Admin \<Rightarrow> Admin \<Rightarrow> bool" where
  "same_routing a a' \<longleftrightarrow> ad_engine a' = ad_engine a \<and> cf_Rules (admin_cfg a') = cf_Rules (admin_cfg a) \<and>
     cf_InsecureUpstream (admin_cfg a') = cf_InsecureUpstream (admin_cfg a)"

lemma in_sync_same: "same_routing a a' \<Longrightarrow> in_sync up a \<Longrightarrow> in_sync up a'"
  by (simp add: same_routing_def in_sync_def)

lemma admin_update_engine [simp]: "ad_engine (snd (admin_update e f a)) = ad_engine a"
  by (simp add: admin_update_def case_prod_beta)

lemma admin_steps_engine [simp]:
  "ad_engine (admin_audit ev r u d a) = ad_engine a" "ad_engine (snd (admin_reload e a)) = ad_engine a"
  by (simp_all add: admin_audit_def admin_reload_def case_prod_beta)

lemma in_sync_audit [simp]: "in_sync up (admin_audit ev r u d a) = in_sync up a"
  by (simp add: in_sync_def follows_rules_def)

lemma Save_saved: "io_local x \<Longrightarrow> io_save x \<Longrightarrow> fst (Save d x s) = None"
  by (simp add: Save_def pushToBackend_def Let_def split: prod.split option.split)

lemma admin_update_saved: "saves_ok e \<Longrightarrow> fst (admin_update e f a) = None"
  by (simp add: admin_update_def update_store_def Update_def saves_ok_def Save_saved case_prod_beta)

lemma saved_obtain:
  assumes "saves_ok e"
  obtains a' where "admin_update e f a = (None, a')"
  using admin_update_saved [OF assms, of f a] by (cases "admin_update e f a") simp

lemma handleRulesPost_sync:
  assumes "saves_ok e" "in_sync (e_url e) a"
  shows "in_sync (e_url e) (snd (handleRulesPost e user r a))"
proof (cases "decodeJSON r rule_field no_rule")
  case d: (Inr rl0)
  show ?thesis
  proof (cases "check_rule e rl0")
    case c: (Inr rl)
    obtain a' where "admin_update e (\<lambda>c. c\<lparr>cf_Rules := upsert_rule rl (cf_Rules c)\<rparr>) a = (None, a')"
      by (rule saved_obtain [OF assms(1)])
    then show ?thesis by (simp add: handleRulesPost_def d c Let_def in_sync_rebuild)
  qed (simp add: handleRulesPost_def d assms(2))
qed (simp add: handleRulesPost_def assms(2))

lemma handleRulesDelete_sync:
  assumes "saves_ok e" "in_sync (e_url e) a"
  shows "in_sync (e_url e) (snd (handleRulesDelete e user r a))"
proof (cases "decodeJSON r (one_field ''host'') []")
  case d: (Inr host)
  obtain a' where "admin_update e (\<lambda>c. c\<lparr>cf_Rules := remove_rule (NormalizeHost host) (cf_Rules c)\<rparr>) a = (None, a')"
    by (rule saved_obtain [OF assms(1)])
  then show ?thesis by (simp add: handleRulesDelete_def d Let_def in_sync_rebuild)
qed (simp add: handleRulesDelete_def assms(2))

lemma handleConfigPost_sync:
  assumes "saves_ok e" "in_sync (e_url e) a"
  shows "in_sync (e_url e) (snd (handleConfigPost e user r a))"
proof (cases "decodeJSON r config_field no_config")
  case d: (Inr req)
  obtain a' where u: "admin_update e (apply_config (body_gives r ''allowed_emails'')
      (body_gives r ''allowed_groups'') req) a = (None, a')"
    by (rule saved_obtain [OF assms(1)])
  obtain ok a2 where "admin_reload e a' = (ok, a2)" by fastforce
  then show ?thesis by (simp add: handleConfigPost_def d u Let_def in_sync_rebuild)
qed (simp add: handleConfigPost_def assms(2))

lemma same_routing_refl [simp]: "same_routing a a"
  by (simp add: same_routing_def)

lemma same_routing_update:
  assumes "\<And>c. cf_Rules (f c) = cf_Rules c" "\<And>c. cf_InsecureUpstream (f c) = cf_InsecureUpstream c"
    and "\<And>a'. ad_engine (snd (ok a')) = ad_engine a'" "\<And>a'. admin_cfg (snd (ok a')) = admin_cfg a'"
  shows "same_routing a (snd (case admin_update e f a of (None, a') \<Rightarrow> ok a' | (Some err, a') \<Rightarrow> (w, a')))"
proof -
  obtain err a' where u: "admin_update e f a = (err, a')" by fastforce
  then have "admin_cfg a' = f (admin_cfg a)" "ad_engine a' = ad_engine a"
    using admin_update_cfg admin_update_engine by (metis snd_conv)+
  then show ?thesis using assms u by (cases err) (simp_all add: same_routing_def)
qed

lemma rules_unchanged:
  "same_routing a (snd (handleStreamPost e user r a))" "same_routing a (snd (handleTOTPSettings e user r a))"
  "same_routing a (snd (handleTOTPReset e user r a))" "same_routing a (snd (handleCertACMESet e user r a))"
  "same_routing a (snd (handleRevokeSessions e r a))"
  unfolding handleStreamPost_def handleTOTPSettings_def handleTOTPReset_def handleCertACMESet_def
    handleRevokeSessions_def Let_def
  by (auto split: sum.split intro!: same_routing_update simp: delete_secret_def RevokeAllSessions_def)

lemma handleLocalPassword_same: "same_routing a (snd (handleLocalPassword e r a))"
proof (cases "decodeJSON r (credentials_field ''current_password'' ''new_password'') ([], [])")
  case (Inr q)
  obtain current new where q: "q = (current, new)" by fastforce
  have "same_routing a (admin_audit ev r u d a)" for ev u d by (simp add: same_routing_def)
  then show ?thesis
    by (cases "validatePasswordStrength new"; cases "e_hash e new")
      (auto simp: handleLocalPassword_def Let_def Inr q intro!: same_routing_update)
qed (simp add: handleLocalPassword_def Let_def)

lemma cert_handlers_same:
  "same_routing a (snd (handleCertCustomPut e user r a))" "same_routing a (snd (handleCertCustomDelete e user r a))"
  "same_routing a (snd (handleCertRenew e user r a))"
  by (auto simp: handleCertCustomPut_def handleCertCustomDelete_def handleCertRenew_def Let_def
      same_routing_def split: sum.split option.split)

lemma other_handler_same: "same_routing a (snd (other_handler e r a))"
  by (simp add: other_handler_def logged_def same_routing_def split: prod.split)

lemma serve_api_sync:
  assumes "saves_ok e" "in_sync (e_url e) a"
  shows "in_sync (e_url e) (snd (serve_api e user r ep a))"
  using assms(2) handleRulesPost_sync [OF assms] handleRulesDelete_sync [OF assms] handleConfigPost_sync [OF assms]
    in_sync_same [OF rules_unchanged(1) assms(2)] in_sync_same [OF rules_unchanged(2) assms(2)]
    in_sync_same [OF rules_unchanged(3) assms(2)] in_sync_same [OF rules_unchanged(4) assms(2)]
    in_sync_same [OF rules_unchanged(5) assms(2)] in_sync_same [OF handleLocalPassword_same assms(2)]
    in_sync_same [OF cert_handlers_same(1) assms(2)] in_sync_same [OF cert_handlers_same(2) assms(2)]
    in_sync_same [OF cert_handlers_same(3) assms(2)] in_sync_same [OF other_handler_same assms(2)]
  by (cases ep; simp only: serve_api.simps snd_conv)

lemma apply_setup_sel:
  "cf_Rules (apply_setup req c) = cf_Rules c"
  "cf_InsecureUpstream (apply_setup req c) = cf_InsecureUpstream c"
  by (simp_all add: apply_setup_def Let_def split: option.split)

lemma open_same:
  assumes "serve_open e r ep a = Some w"
  shows "same_routing a (snd w)"
proof -
  have "ad_engine (snd w) = ad_engine a"
  proof -
    have "ad_engine (snd (handleSetup e r a)) = ad_engine a"
    proof (cases "decodeJSON r setup_field no_setup")
      case (Inr req)
      obtain err a' where u: "admin_update e (apply_setup req) a = (err, a')" by fastforce
      then have a': "ad_engine a' = ad_engine a" by (metis admin_update_engine snd_conv)
      obtain ok a2 where l: "admin_reload e a' = (ok, a2)" by fastforce
      then have "ad_engine a2 = ad_engine a" using a' by (metis admin_steps_engine(2) snd_conv)
      then show ?thesis using a' by (cases err) (simp_all add: handleSetup_def Let_def Inr u l)
    qed (simp add: handleSetup_def Let_def)
    moreover have "ad_engine (snd (other_handler e r a)) = ad_engine a"
      using other_handler_same by (simp add: same_routing_def)
    moreover have "ad_engine (snd (handleLoginPage e r a)) = ad_engine a"
      by (simp add: handleLoginPage_def Let_def)
    moreover have "ad_engine (snd (on_panel h a)) = ad_engine a" for h
      by (simp add: on_panel_def case_prod_beta)
    ultimately show ?thesis
      using assms by (cases ep; simp only: serve_open.simps option.inject option.distinct; hypsubst; simp)
  qed
  moreover have "cf_Rules (admin_cfg (snd w)) = cf_Rules (admin_cfg a) \<and>
      cf_InsecureUpstream (admin_cfg (snd w)) = cf_InsecureUpstream (admin_cfg a)"
    using serve_open_edits [OF assms] unfolding open_edits_def
    by (elim disjE conjE) (auto elim!: enrol_editE simp: put_secret_def setup_edit_def apply_setup_sel)
  ultimately show ?thesis by (simp add: same_routing_def)
qed

lemma serve_sync:
  assumes "saves_ok e" "in_sync (e_url e) a"
  shows "in_sync (e_url e) (snd (serve e r a))"
  using assms(2) serve_api_sync [OF assms] in_sync_same [OF open_same assms(2)]
  by (auto simp: serve_def CheckOrigin_def ipAllowlistMW_def requireAPI_def Let_def split: option.split)

interpretation synced: service "\<lambda>(e, r). serve e r" "\<lambda>(e, r). saves_ok e \<and> e_url e = up" "in_sync up" for up
  by unfold_locales (auto simp: serve_sync)

text \<open>
  C24: As long as the configuration can be saved, the routing table follows it through any sequence
  of requests to the panel: every host has exactly the backends, strategy and TLS mode that the last
  of its rules asks for.
\<close>

theorem routing_follows_config:
  assumes "in_sync up a" "\<forall>(e, r) \<in> set xs. saves_ok e \<and> e_url e = up"
  shows "map_option rt_view (map_of (e_routes (ad_engine (serve_all xs a))) h) =
     map_option (wanted up (cf_InsecureUpstream (admin_cfg (serve_all xs a))))
       (rule_for (cf_Rules (admin_cfg (serve_all xs a))) h)"
  using synced.keeps_all [of up xs a] assms
  by (simp add: serve_all_def case_prod_beta list_all_iff in_sync_def follows_rules_def)

section \<open>Concrete instances\<close>

text \<open>A panel with the configuration of a first start.\<close>

definition fresh_config :: Config where
  "fresh_config = with_defaults sample_draws ''h'' load_base"

definition fresh_admin :: Admin where
  "fresh_admin = sample_admin
     \<lparr>ad_panel := sample_panel\<lparr>pn_store := (pn_store sample_panel)\<lparr>s_cfg := fresh_config\<rparr>\<rparr>\<rparr>"

lemma fresh_sel [simp]: "admin_cfg fresh_admin = fresh_config" "ad_engine fresh_admin = NewEngine"
  by (simp_all add: fresh_admin_def sample_admin_def)

lemma fresh_valid: "config_valid fresh_config"
  by (simp add: config_valid_def fresh_config_def with_defaults_def load_base_def no_config_def
      default_pos_def rule_hosts_def)


theorem routing_follows_config_witness:
  "map_option rt_view (map_of (e_routes (ad_engine
       (serve_all [(sample_env 0, sample_post ''/api/config'' ''{}'')] fresh_admin))) ''a.b'') =
   map_option (wanted sample_url (cf_InsecureUpstream (admin_cfg
       (serve_all [(sample_env 0, sample_post ''/api/config'' ''{}'')] fresh_admin))))
     (rule_for (cf_Rules (admin_cfg
       (serve_all [(sample_env 0, sample_post ''/api/config'' ''{}'')] fresh_admin))) ''a.b'')"
proof (rule routing_follows_config)
  have "cf_Rules fresh_config = []"
    by (simp add: fresh_config_def with_defaults_def load_base_def no_config_def)
  then show "in_sync sample_url fresh_admin" by (simp add: in_sync_def follows_rules_def NewEngine_def)
  have "e_io (sample_env 0) = sample_io" by (simp add: sample_env_def)
  then show "\<forall>(e, r) \<in> set [(sample_env 0, sample_post ''/api/config'' ''{}'')]. saves_ok e \<and> e_url e = sample_url"
    by (simp add: saves_ok_def)
qed

end
