(* ===== verification/PanelForms.thy ===== *)
theory PanelForms
  imports PanelInvariants
begin

text \<open>
  The panel's forms from end to end: a rule that is posted, and the configuration that is shown and
  posted back.
\<close>

section \<open>Posting a rule\<close>


section \<open>The configuration form\<close>

text \<open>A configuration whose texts and lists are as the form stores them.\<close>

definition form_clean :: "Config \<Rightarrow> bool" where
  "form_clean c \<longleftrightarrow>
     list_all (\<lambda>s. TrimSpace s = s)
       [cf_TLSCertFile c, cf_TLSKeyFile c, cf_PanelTLSCertFile c, cf_PanelTLSKeyFile c, cf_PanelPublicURL c,
        az_TenantID (cf_Azure c), az_ClientID (cf_Azure c), az_RedirectURL (cf_Azure c), ld_URL (cf_LDAP c),
        ld_BaseDN (cf_LDAP c), ld_BindUPNSuffix (cf_LDAP c), ld_UserFilter (cf_LDAP c),
        la_Username (cf_LocalAdmin c), ac_CacheDir (cf_ACME c)] \<and>
     list_all (\<lambda>l. cleanList l = l)
       [az_AllowedEmails (cf_Azure c), az_AllowedGroups (cf_Azure c), ld_AllowedEmails (cf_LDAP c),
        ld_AllowedGroups (cf_LDAP c), ac_Domains (cf_ACME c), cf_AdminAllowedCIDRs c, cf_PanelAdmins c]"

lemma pick_same [simp]:
  "TrimSpace s = s \<Longrightarrow> pickString s s = s" "pick_port p p = p" "pick_range lo hi x x = x"
  "cleanList l = l \<Longrightarrow> pick_list l l = l" "pickSecret s (mask_str s') = s"
  by (simp_all add: pickString_def pick_port_def pick_range_def pick_list_def Let_def)

lemma apply_config_masked:
  assumes "form_clean c"
  shows "apply_config True True (sorted_secrets (masked c)) c = c"
proof -
  have "apply_azure (cf_Azure (masked c)) (cf_Azure c) = cf_Azure c"
    "apply_ldap True True (cf_LDAP c) (cf_LDAP c) = cf_LDAP c"
    using assms by (simp_all add: form_clean_def apply_azure_def apply_ldap_def masked_def)
  then show ?thesis
    using assms by (simp add: form_clean_def apply_config_def sorted_secrets_def masked_def)
qed

lemma Decode_print: "ok_json j \<Longrightarrow> Decode (print_json j) = Some j"
  using parse_print(1) [of j "[]" "2 * length (print_json j) + 2"]
  by (simp add: Decode_def value_end_def)

lemma ldap_given_config:
  "ldap_given ''allowed_emails'' (config_json c) b" "ldap_given ''allowed_groups'' (config_json c) b"
  by (simp_all add: config_json_def ldap_json_def JStrs_def)

text \<open>
  C26: Posting back the configuration as the panel shows it changes nothing: the secrets, which are
  shown masked, are kept, and so is everything the form does not hold.
\<close>

theorem config_form_roundtrip:
  assumes "config_ok (admin_cfg a)" "form_clean (admin_cfg a)"
    and "rs_Body (handleConfigGet a) = Data v" "rq_Body r = print_json v" "\<not> rq_TooLarge r"
  shows "admin_cfg (snd (handleConfigPost e user r a)) = admin_cfg a"
proof -
  let ?m = "masked (admin_cfg a)"
  have v: "v = JObj (config_json ?m)" using assms(3) by (simp add: handleConfigGet_def)
  have "ok_json v" unfolding v using config_json_ok by simp
  then have d: "Decode (rq_Body r) = Some v" unfolding assms(4) by (rule Decode_print)
  have ok: "config_ok ?m" using assms(1) by (simp add: config_ok_def masked_def)
  have "nil_map (to_Secrets (cf_TOTP no_config)) = []" by (simp add: no_config_def)
  then have q: "decodeJSON r config_field no_config = Inr (sorted_secrets ?m)"
    using dec_config [OF ok] assms(5) by (simp add: decodeJSON_def d v dec_struct_def)
  have g: "body_gives r ''allowed_emails''" "body_gives r ''allowed_groups''"
    by (simp_all add: body_gives_def d v ldap_given_config)
  let ?f = "apply_config True True (sorted_secrets ?m)"
  obtain err a1 where u: "admin_update e ?f a = (err, a1)" by fastforce
  then have "admin_cfg a1 = ?f (admin_cfg a)" by (metis admin_update_cfg snd_conv)
  then have a1: "admin_cfg a1 = admin_cfg a" using apply_config_masked [OF assms(2)] by simp
  obtain ok a2 where l: "admin_reload e a1 = (ok, a2)" by fastforce
  then have "admin_cfg a2 = admin_cfg a" using a1 by (metis admin_steps_cfg(4) snd_conv)
  then show ?thesis using a1 by (cases err) (simp_all add: handleConfigPost_def q g u l Let_def)
qed

section \<open>Logging in and setting up\<close>

text \<open>
  While the directory or the local account may be used as well, the page that the Microsoft
  button of the login page leads to is the login page again, for every request: it sets no cookie and
  sends nobody to the provider, so a login at Microsoft cannot be started.
\<close>

theorem entra_button_loops:
  assumes "mux r = Some LoginPage" "pn_oauth (ad_panel a)"
    and "ld_Enabled (cf_LDAP (admin_cfg a)) \<or> la_Enabled (cf_LocalAdmin (admin_cfg a))"
    and "origin_ok e r" "ip_allowed e r (admin_cfg a)"
  shows "\<exists>f. serve e r a = (\<lparr>rs_Status = 200, rs_Location = [], rs_Cookies = [], rs_Body = LoginForm f\<rparr>, a) \<and>
     lp_entra f"
proof -
  have "serve e r a = handleLoginPage e r a"
    using assms(1,4,5) by (auto simp: serve_def CheckOrigin_def ipAllowlistMW_def ip_allowed_def Let_def)
  then show ?thesis using assms(2,3) by (auto simp: handleLoginPage_def Let_def)
qed

text \<open>
  The setup asks for a session only, not for an administrator: any user with a session replaces
  the identity provider and, if the request says so, the directory server and its groups.
\<close>

theorem setup_any_session:
  assumes "SessionFromRequest e (admin_cfg a) r = Some u" "decodeJSON r setup_field no_setup = Inr req"
    and "su_EnableLDAP req \<longrightarrow> su_LDAP req \<noteq> None"
  shows "admin_cfg (snd (handleSetup e r a)) = apply_setup req (admin_cfg a)"
proof -
  obtain err a1 where u: "admin_update e (apply_setup req) a = (err, a1)" by fastforce
  then have a1: "admin_cfg a1 = apply_setup req (admin_cfg a)" by (metis admin_update_cfg snd_conv)
  obtain ok a2 where l: "admin_reload e a1 = (ok, a2)" by fastforce
  then have "admin_cfg a2 = admin_cfg a1" by (metis admin_steps_cfg(4) snd_conv)
  then show ?thesis
    using assms a1 by (cases err) (auto simp: handleSetup_def Let_def u l)
qed

section \<open>Concrete instances\<close>

definition posted_rule :: Rule where
  "posted_rule = no_rule\<lparr>r_Host := ''localhost'', r_Target := ''https://app.test/x'', r_Enabled := True\<rparr>"

definition post_of :: "json \<Rightarrow> request" where
  "post_of v = sample_post ''/api/rules'' (print_json v)"

lemma post_of_sel [simp]: "rq_Body (post_of v) = print_json v" "\<not> rq_TooLarge (post_of v)"
  by (simp_all add: post_of_def)


theorem config_form_roundtrip_witness:
  "admin_cfg (snd (handleConfigPost (sample_env 0) ''alice@x'' (post_of (JObj (config_json (masked fresh_config))))
     fresh_admin)) = fresh_config"
proof -
  have "config_ok fresh_config" "form_clean fresh_config" by code_simp+
  then show ?thesis
    using config_form_roundtrip [of fresh_admin "JObj (config_json (masked fresh_config))"
        "post_of (JObj (config_json (masked fresh_config)))" "sample_env 0" "''alice@x''"]
    by (simp add: handleConfigGet_def)
qed

definition login_page_request :: request where
  "login_page_request = (sample_request [])\<lparr>rq_Method := ''GET'', rq_Path := ''/auth/login''\<rparr>"

theorem entra_button_loops_witness:
  "\<exists>f. serve (sample_env 0) login_page_request sample_admin =
     (\<lparr>rs_Status = 200, rs_Location = [], rs_Cookies = [], rs_Body = LoginForm f\<rparr>, sample_admin) \<and> lp_entra f"
proof (rule entra_button_loops)
  show "mux login_page_request = Some LoginPage" by (simp add: mux_def login_page_request_def)
  show "origin_ok (sample_env 0) login_page_request"
    by (simp add: origin_ok_def login_page_request_def unsafeMethods_def)
  show "pn_oauth (ad_panel sample_admin)" by (simp add: sample_admin_def)
qed (simp_all add: ip_allowed_def)

text \<open>A panel whose only administrator is somebody else than \<open>alice\<close>.\<close>

definition guarded_admin :: Admin where
  "guarded_admin = sample_admin\<lparr>ad_panel := sample_panel\<lparr>pn_store := (pn_store sample_panel)
     \<lparr>s_cfg := (panel_cfg sample_panel)\<lparr>cf_PanelAdmins := [''root'']\<rparr>\<rparr>\<rparr>\<rparr>"

theorem setup_any_session_witness:
  "\<not> isPanelAdmin (Some alice) (admin_cfg guarded_admin) \<and>
   admin_cfg (snd (handleSetup (sample_env 0) (post_of (JObj [])) guarded_admin)) =
     apply_setup no_setup (admin_cfg guarded_admin)"
proof
  have c: "admin_cfg guarded_admin = (panel_cfg sample_panel)\<lparr>cf_PanelAdmins := [''root'']\<rparr>"
    by (simp add: guarded_admin_def)
  show "\<not> isPanelAdmin (Some alice) (admin_cfg guarded_admin)"
    unfolding c by code_simp
  have s: "cf_SessionSecret (admin_cfg guarded_admin) = cf_SessionSecret (panel_cfg sample_panel)"
    "cf_SessionEpoch (admin_cfg guarded_admin) = cf_SessionEpoch (panel_cfg sample_panel)"
    by (simp_all add: c)
  have "SessionFromRequest (sample_env 0) (admin_cfg guarded_admin) (post_of (JObj [])) =
      SessionFromRequest (sample_env 0) (panel_cfg sample_panel) (post_of (JObj []))"
    unfolding SessionFromRequest_def ValidateSession_def s by (rule refl)
  then have "SessionFromRequest (sample_env 0) (admin_cfg guarded_admin) (post_of (JObj [])) = Some alice"
    unfolding post_of_def sample_session .
  moreover have "decodeJSON (post_of (JObj [])) setup_field no_setup = Inr no_setup"
    using Decode_print [of "JObj []"] by (simp add: decodeJSON_def dec_struct_def del: print_json.simps)
  ultimately show "admin_cfg (snd (handleSetup (sample_env 0) (post_of (JObj [])) guarded_admin)) =
      apply_setup no_setup (admin_cfg guarded_admin)"
    by (rule setup_any_session) (simp add: no_setup_def)
qed

end
