(* ===== verification/Locks.thy ===== *)
theory Locks
  imports Limiter "HOL-Library.Product_Lexorder" "HOL-Library.Option_ord" "HOL-Library.Multiset"
begin

text \<open>
  How the limiters survive a restart and are shared in a cluster: the lock table of
  \<open>internal/store/pg.go\<close> and \<open>limiterPersist\<close> of \<open>main.go\<close>.

  A state is kept as its value; that \<open>encoding/json\<close> reads back the times it writes is not modelled,
  text that cannot be read is \<open>Unreadable\<close>. A transaction of the database is one step that is made
  or, if any of its statements fails, is not. Whether it is, and the clock, are arguments.
\<close>

section \<open>The lock table\<close>

datatype rawstate = Unreadable | Readable LimiterState

type_synonym lock_table = "string \<rightharpoonup> rawstate"

definition newer :: "LockEntry \<Rightarrow> LockEntry \<Rightarrow> bool" where
  "newer e cur \<longleftrightarrow> LockedUntil cur < LockedUntil e \<or>
     (LockedUntil e = LockedUntil cur \<and> Count cur < Count e)"

definition merge_entries ::
  "(string \<rightharpoonup> LockEntry) \<Rightarrow> (string \<rightharpoonup> LockEntry) \<Rightarrow> (string \<rightharpoonup> LockEntry)" where
  "merge_entries incoming existing = (\<lambda>k.
     case existing k of
       None \<Rightarrow> incoming k
     | Some e \<Rightarrow> (case incoming k of
                    None \<Rightarrow> Some e
                  | Some cur \<Rightarrow> if newer e cur then Some e else Some cur))"

definition mergeLockStates :: "rawstate \<Rightarrow> rawstate option \<Rightarrow> rawstate" where
  "mergeLockStates incoming existing =
     (case existing of
        None \<Rightarrow> incoming
      | Some ex \<Rightarrow>
          (case incoming of
             Unreadable \<Rightarrow> incoming
           | Readable inSt \<Rightarrow>
               (case ex of
                  Unreadable \<Rightarrow> incoming
                | Readable exSt \<Rightarrow>
                    Readable (inSt\<lparr>ls_Entries := merge_entries (ls_Entries inSt) (ls_Entries exSt)\<rparr>))))"

definition SaveLocks :: "bool \<Rightarrow> (string \<rightharpoonup> rawstate) \<Rightarrow> lock_table \<Rightarrow> bool \<times> lock_table" where
  "SaveLocks ok states t =
     (if ok
      then (True, \<lambda>name. case states name of
                           None \<Rightarrow> t name
                         | Some raw \<Rightarrow> Some (mergeLockStates raw (t name)))
      else (False, t))"

definition LoadLocks :: "bool \<Rightarrow> lock_table \<Rightarrow> lock_table option" where
  "LoadLocks ok t = (if ok then Some t else None)"

definition StatesFromLimiter :: "(string \<rightharpoonup> LimiterState) \<Rightarrow> (string \<rightharpoonup> rawstate)" where
  "StatesFromLimiter m = map_option Readable \<circ> m"

definition StatesToLimiter :: "(string \<rightharpoonup> rawstate) \<Rightarrow> (string \<rightharpoonup> LimiterState)" where
  "StatesToLimiter raw = (\<lambda>k. case raw k of Some (Readable st) \<Rightarrow> Some st | _ \<Rightarrow> None)"

section \<open>The limiters of a node\<close>

text \<open>
  The file is missing (\<open>None\<close>), unreadable (\<open>Some None\<close>), or holds a state, possibly null, for some
  names.
\<close>

type_synonym lock_file = "(string \<rightharpoonup> LimiterState option) option option"

record limiterPersist =
  lp_limiters :: "(string \<times> limiter) list"
  lp_pg :: bool

definition snapshots :: "time \<Rightarrow> limiterPersist \<Rightarrow> (string \<rightharpoonup> LimiterState) \<times> nat" where
  "snapshots now p =
     (map_of (map (\<lambda>(n, l). (n, Snapshot now l)) (lp_limiters p)),
      sum_list (map (\<lambda>(n, l). card (dom (ls_Entries (Snapshot now l)))) (lp_limiters p)))"

definition restore_states ::
  "time \<Rightarrow> (string \<rightharpoonup> LimiterState option) \<Rightarrow> limiterPersist \<Rightarrow> limiterPersist" where
  "restore_states now states p =
     p\<lparr>lp_limiters := map (\<lambda>(n, l). (n, case states n of None \<Rightarrow> l | Some st \<Rightarrow> Restore now st l))
        (lp_limiters p)\<rparr>"

definition load_cluster :: "time \<Rightarrow> bool \<Rightarrow> lock_table \<Rightarrow> limiterPersist \<Rightarrow> limiterPersist" where
  "load_cluster now ok t p =
     (case LoadLocks ok t of
        None \<Rightarrow> p
      | Some raw \<Rightarrow> restore_states now (map_option Some \<circ> StatesToLimiter raw) p)"

definition load_limiters ::
  "time \<Rightarrow> bool \<Rightarrow> lock_table \<Rightarrow> lock_file \<Rightarrow> limiterPersist \<Rightarrow> limiterPersist" where
  "load_limiters now ok t file p =
     (if lp_pg p then load_cluster now ok t p
      else (case file of
              Some (Some states) \<Rightarrow> restore_states now states p
            | _ \<Rightarrow> p))"

definition save_limiters ::
  "time \<Rightarrow> bool \<Rightarrow> limiterPersist \<Rightarrow> lock_table \<times> lock_file \<Rightarrow> lock_table \<times> lock_file" where
  "save_limiters now ok p s =
     (case snapshots now p of (states, entries) \<Rightarrow>
        if lp_pg p then (snd (SaveLocks ok (StatesFromLimiter states) (fst s)), snd s)
        else if entries = 0 then (fst s, if ok then None else snd s)
        else (fst s, if ok then Some (Some (map_option Some \<circ> states)) else snd s))"

text \<open>\<open>sync\<close>, every 30 seconds: save, and in a cluster load what the others have saved.\<close>

definition sync_limiters ::
  "time \<Rightarrow> bool \<Rightarrow> bool \<Rightarrow> limiterPersist \<Rightarrow> lock_table \<times> lock_file \<Rightarrow>
   limiterPersist \<times> lock_table \<times> lock_file" where
  "sync_limiters now okSave okLoad p s =
     (let s' = save_limiters now okSave p s
      in (if lp_pg p then load_cluster now okLoad (fst s') p else p, s'))"

lemmas locks_defs [step_defs] =
  SaveLocks_def load_cluster_def load_limiters_def save_limiters_def sync_limiters_def

section \<open>Merging is a join\<close>

text \<open>What decides between two entries: until when it locks, then the number of failures.\<close>

definition rank :: "LockEntry \<Rightarrow> time \<times> int" where
  "rank e = (LockedUntil e, Count e)"

definition rank_at :: "(string \<rightharpoonup> LockEntry) \<Rightarrow> string \<Rightarrow> (time \<times> int) option" where
  "rank_at m k = map_option rank (m k)"

definition row_rank :: "rawstate option \<Rightarrow> string \<Rightarrow> (time \<times> int) option" where
  "row_rank row k = (case row of Some (Readable st) \<Rightarrow> rank_at (ls_Entries st) k | _ \<Rightarrow> None)"

definition readable :: "lock_table \<Rightarrow> bool" where
  "readable t \<longleftrightarrow> (\<forall>n. t n \<noteq> Some Unreadable)"

lemma newer_rank: "newer e cur \<longleftrightarrow> rank cur < rank e"
  by (auto simp: newer_def rank_def less_prod_def')

lemma rank_merge: "rank_at (merge_entries a b) k = max (rank_at a k) (rank_at b k)"
  by (cases "a k"; cases "b k") (auto simp: rank_at_def merge_entries_def newer_rank max_def)

text \<open>A replicated table whose nodes write by a join: writes are idempotent and commute.\<close>

locale join_store =
  fixes enter :: "'u \<Rightarrow> 't \<Rightarrow> 't" and obs :: "'t \<Rightarrow> 'k \<Rightarrow> 'o :: linorder" and upd :: "'u \<Rightarrow> 'k \<Rightarrow> 'o" and
    good :: "'t \<Rightarrow> bool"
  assumes obs_enter: "good t \<Longrightarrow> obs (enter u t) k = max (obs t k) (upd u k)"
    and good_enter: "good t \<Longrightarrow> good (enter u t)"
begin

lemma good_enters: "good t \<Longrightarrow> good (fold enter us t)"
  by (induction us arbitrary: t) (auto intro: good_enter)

lemma obs_enters: "good t \<Longrightarrow> obs (fold enter us t) k = fold (\<lambda>u x. max x (upd u k)) us (obs t k)"
  by (induction us arbitrary: t) (simp_all add: obs_enter good_enter)

lemma fold_max_ge: "x \<le> fold (\<lambda>u x. max x (upd u k)) us x"
proof (induction us arbitrary: x)
  case (Cons u us)
  have "x \<le> max x (upd u k)" by simp
  with Cons show ?case by (metis fold_simps(2) order_trans)
qed simp

lemma nothing_lost: "good t \<Longrightarrow> obs t k \<le> obs (fold enter us t) k"
  by (simp add: obs_enters fold_max_ge)

lemma all_arrive: "good t \<Longrightarrow> u \<in> set us \<Longrightarrow> upd u k \<le> obs (fold enter us t) k"
proof (induction us arbitrary: t)
  case (Cons v us)
  show ?case
  proof (cases "u = v")
    case True
    have "upd v k \<le> obs (enter v t) k" using Cons.prems by (simp add: obs_enter)
    also have "\<dots> \<le> obs (fold enter us (enter v t)) k" using Cons.prems by (simp add: nothing_lost good_enter)
    finally show ?thesis using True by simp
  next
    case False
    then show ?thesis using Cons by (simp add: good_enter)
  qed
qed simp

lemma order_irrelevant:
  assumes "good t" "mset us = mset vs"
  shows "obs (fold enter us t) k = obs (fold enter vs t) k"
proof -
  have "fold (\<lambda>u x. max x (upd u k)) us = fold (\<lambda>u x. max x (upd u k)) vs"
    by (rule fold_multiset_equiv [OF _ assms(2)]) (auto simp: fun_eq_iff max.assoc max.commute max.left_commute)
  then show ?thesis using assms(1) by (simp add: obs_enters)
qed

end

text \<open>The table as the program writes it: a save of the states of some limiters.\<close>

definition save_states :: "(string \<rightharpoonup> LimiterState) \<Rightarrow> lock_table \<Rightarrow> lock_table" where
  "save_states states t = snd (SaveLocks True (StatesFromLimiter states) t)"

lemma save_states_row:
  "save_states states t n =
     (case states n of None \<Rightarrow> t n | Some st \<Rightarrow> Some (mergeLockStates (Readable st) (t n)))"
  by (simp add: save_states_def SaveLocks_def StatesFromLimiter_def split: option.split)

lemma save_states_readable: "readable t \<Longrightarrow> readable (save_states states t)"
  by (auto simp: readable_def save_states_row mergeLockStates_def split: option.split rawstate.split)

lemma save_states_rank:
  assumes "readable t"
  shows "row_rank (save_states states t n) k =
     max (row_rank (t n) k) (case states n of None \<Rightarrow> None | Some st \<Rightarrow> rank_at (ls_Entries st) k)"
proof (cases "states n")
  case (Some st)
  then show ?thesis
  proof (cases "t n")
    case (Some row)
    then obtain ex where "row = Readable ex" using assms by (cases row) (auto simp: readable_def)
    with Some \<open>states n = Some st\<close> show ?thesis
      by (simp add: save_states_row mergeLockStates_def row_rank_def rank_merge max.commute)
  qed (simp add: save_states_row mergeLockStates_def row_rank_def max_def)
next
  case None
  have "max x None = x" for x :: "(time \<times> int) option" by (cases x) (simp_all add: max_def)
  with None show ?thesis by (simp add: save_states_row)
qed

interpretation locks: join_store save_states "\<lambda>t nk. row_rank (t (fst nk)) (snd nk)"
  "\<lambda>states nk. case states (fst nk) of None \<Rightarrow> None | Some st \<Rightarrow> rank_at (ls_Entries st) (snd nk)" readable
  by unfold_locales (simp_all add: save_states_rank save_states_readable)

section \<open>Properties\<close>

text \<open>
  C27: Nodes that save their lockouts at the same time lose none: whatever the order of the saves,
  the table holds for every key the latest of all lockouts saved and of the one it held, and with it
  the highest count.
\<close>

theorem saves_lose_nothing:
  assumes "readable t" "mset saves = mset saves'"
  shows "row_rank (fold save_states saves t n) k = row_rank (fold save_states saves' t n) k \<and>
     row_rank (t n) k \<le> row_rank (fold save_states saves t n) k \<and>
     (\<forall>states \<in> set saves. \<forall>st. states n = Some st \<longrightarrow>
        rank_at (ls_Entries st) k \<le> row_rank (fold save_states saves t n) k)"
proof -
  have "rank_at (ls_Entries st) k \<le> row_rank (fold save_states saves t n) k"
    if "states \<in> set saves" "states n = Some st" for states st
    using locks.all_arrive [OF assms(1) that(1), of "(n, k)"] that(2) by simp
  then show ?thesis
    using locks.order_irrelevant [OF assms, of "(n, k)"] locks.nothing_lost [OF assms(1), of "(n, k)" saves]
    by simp
qed

section \<open>A lockout in a cluster\<close>

definition limiter_of :: "limiterPersist \<Rightarrow> string \<rightharpoonup> limiter" where
  "limiter_of p = map_of (lp_limiters p)"

definition live :: "duration \<Rightarrow> time \<Rightarrow> LockEntry \<Rightarrow> bool" where
  "live window now e \<longleftrightarrow> \<not> (now > LockedUntil e \<and> time_sub now (First e) > window)"

text \<open>The table as nodes leave it: every entry has a key and counts a failure.\<close>

definition table_good :: "lock_table \<Rightarrow> bool" where
  "table_good t \<longleftrightarrow> readable t \<and>
     (\<forall>n st k e. t n = Some (Readable st) \<longrightarrow> ls_Entries st k = Some e \<longrightarrow> 0 < Count e)"

definition row_entry :: "rawstate option \<Rightarrow> string \<rightharpoonup> LockEntry" where
  "row_entry row k = (case row of Some (Readable st) \<Rightarrow> ls_Entries st k | _ \<Rightarrow> None)"

lemma row_rank_entry: "row_rank row k = map_option rank (row_entry row k)"
  by (simp add: row_rank_def row_entry_def rank_at_def split: option.split rawstate.split)

lemma limiter_of_map:
  "map_of (map (\<lambda>(n, l). (n, f n l)) kvs) n = map_option (f n) (map_of kvs n)"
  by (induction kvs) auto

lemma limiter_of_restore:
  "limiter_of (restore_states now states p) n =
     map_option (\<lambda>l. case states n of None \<Rightarrow> l | Some st \<Rightarrow> Restore now st l) (limiter_of p n)"
  by (simp add: limiter_of_def restore_states_def limiter_of_map)

lemma snapshots_of: "fst (snapshots now p) n = map_option (Snapshot now) (limiter_of p n)"
  by (simp add: snapshots_def limiter_of_def limiter_of_map)

text \<open>What one synchronisation makes of the entry of one key.\<close>

lemma sync_table:
  "lp_pg p \<Longrightarrow> fst (snd (sync_limiters now True okLoad p (t, file))) = save_states (fst (snapshots now p)) t"
  by (simp add: sync_limiters_def save_limiters_def save_states_def Let_def case_prod_beta)

lemma sync_entry:
  assumes "lp_pg p" "limiter_of p n = Some l" "k \<noteq> []"
  shows "\<exists>l'. limiter_of (fst (sync_limiters now True True p (t, file))) n = Some l' \<and>
     l_window l' = l_window l \<and>
     l_entries l' k = (case l_entries l k of
        Some own \<Rightarrow> Some own
      | None \<Rightarrow> (case row_entry (save_states (fst (snapshots now p)) t n) k of
                   None \<Rightarrow> None
                 | Some e \<Rightarrow> if 0 < Count e \<and> live (l_window l) now e then Some (entry_in e) else None))"
proof -
  let ?t = "save_states (fst (snapshots now p)) t"
  let ?st = "(map_option Some \<circ> StatesToLimiter ?t) n"
  let ?l = "case ?st of None \<Rightarrow> l | Some st \<Rightarrow> Restore now st l"
  have "limiter_of (fst (sync_limiters now True True p (t, file))) n = Some ?l"
    using assms(1,2) sync_table [OF assms(1), of now True t "file"]
    by (simp add: sync_limiters_def Let_def load_cluster_def LoadLocks_def limiter_of_restore)
  moreover have "l_window ?l = l_window l" by (simp add: Restore_def split: option.split)
  moreover have "l_entries ?l k = (case l_entries l k of
        Some own \<Rightarrow> Some own
      | None \<Rightarrow> (case row_entry (?t n) k of
                   None \<Rightarrow> None
                 | Some e \<Rightarrow> if 0 < Count e \<and> live (l_window l) now e then Some (entry_in e) else None))"
    using assms(3)
    by (auto simp: StatesToLimiter_def row_entry_def Restore_def map_keep_def live_def
        split: option.splits rawstate.splits if_splits)
  ultimately show ?thesis by blast
qed

lemma snapshot_entry:
  "l_entries l k = Some e \<Longrightarrow> 0 < ar_count e \<Longrightarrow> live (l_window l) now (entry_out e) \<Longrightarrow>
   ls_Entries (Snapshot now l) k = Some (entry_out e)"
  by (simp add: Snapshot_def map_keep_def live_def entry_out_def)

lemma snapshot_counts: "ls_Entries (Snapshot now l) k = Some e \<Longrightarrow> 0 < Count e"
  by (auto simp: Snapshot_def map_keep_def entry_out_def split: option.splits if_splits)

lemma merge_entries_cases:
  "merge_entries a b k = Some e \<Longrightarrow> a k = Some e \<or> b k = Some e"
  by (auto simp: merge_entries_def split: option.splits if_splits)

lemma table_good_save:
  assumes "table_good t"
  shows "table_good (save_states (fst (snapshots now p)) t)"
proof -
  let ?t = "save_states (fst (snapshots now p)) t"
  have "0 < Count e" if row: "?t n = Some (Readable st)" and e: "ls_Entries st k = Some e" for n st k e
  proof (cases "fst (snapshots now p) n")
    case None
    then show ?thesis using assms row e by (auto simp: save_states_row table_good_def)
  next
    case (Some s)
    then obtain l where "s = Snapshot now l" by (auto simp: snapshots_of)
    moreover have "(\<exists>ex. t n = Some (Readable ex) \<and> st = s\<lparr>ls_Entries := merge_entries (ls_Entries s) (ls_Entries ex)\<rparr>) \<or>
        st = s"
      using row Some by (auto simp: save_states_row mergeLockStates_def split: option.splits rawstate.splits)
    ultimately show ?thesis
      using e assms snapshot_counts merge_entries_cases by (fastforce simp: table_good_def)
  qed
  then show ?thesis using assms save_states_readable by (auto simp: table_good_def)
qed

text \<open>
  A lockout reaches the other nodes of a cluster with their next synchronisation, except a node
  that has counted a failure of the same key itself: it keeps its own entry and lets the key in.
\<close>

theorem cluster_lock:
  assumes "table_good t" "k \<noteq> []" "lp_pg a" "lp_pg b"
    and "limiter_of a n = Some la" "l_entries la k = Some e" "0 < ar_count e" "t1 < ar_lockedUntil e"
    and "limiter_of b n = Some lb" "t2 < ar_lockedUntil e" "zero_time \<le> t2"
    and "t' = fst (snd (sync_limiters t1 True ok1 a (t, f1)))"
    and "b' = fst (sync_limiters t2 True True b (t', f2))"
  shows "\<exists>lb'. limiter_of b' n = Some lb' \<and>
     (fst (fst (Allowed t2 k lb')) \<longleftrightarrow> (\<exists>own. l_entries lb k = Some own \<and> ar_lockedUntil own \<le> t2))"
proof -
  let ?t2 = "save_states (fst (snapshots t2 b)) t'"
  have t': "t' = save_states (fst (snapshots t1 a)) t" using assms(3,12) by (simp add: sync_table)
  then have good: "table_good t'" "table_good ?t2" using assms(1) table_good_save by simp_all
  have "live (l_window la) t1 (entry_out e)" using assms(8) by (simp add: live_def entry_out_def)
  then have "rank_at (ls_Entries (Snapshot t1 la)) k = Some (rank (entry_out e))"
    using snapshot_entry assms(6,7) by (simp add: rank_at_def)
  then have "Some (rank (entry_out e)) \<le> row_rank (t' n) k"
    using assms(1,5) unfolding t' by (simp add: save_states_rank table_good_def snapshots_of)
  also have "\<dots> \<le> row_rank (?t2 n) k"
    using good(1) by (simp add: save_states_rank table_good_def)
  finally obtain m where m: "row_entry (?t2 n) k = Some m" "rank (entry_out e) \<le> rank m"
    unfolding row_rank_entry by (cases "row_entry (?t2 n) k") auto
  then have u: "ar_lockedUntil e \<le> LockedUntil m"
    by (auto simp: rank_def entry_out_def less_eq_prod_def)
  have "0 < Count m" using good(2) m(1)
    by (auto simp: row_entry_def table_good_def split: option.splits rawstate.splits)
  moreover have "live (l_window lb) t2 m" using u assms(10) by (simp add: live_def)
  ultimately obtain lb' where "limiter_of b' n = Some lb'"
    and en: "l_entries lb' k = (case l_entries lb k of Some own \<Rightarrow> Some own | None \<Rightarrow> Some (entry_in m))"
    using sync_entry [OF assms(4,9,2), of t2 t' f2] m(1) assms(13) by (auto cong: option.case_cong)
  moreover have "fst (fst (Allowed t2 k lb')) \<longleftrightarrow> (\<exists>own. l_entries lb k = Some own \<and> ar_lockedUntil own \<le> t2)"
    using en u assms(10) by (cases "l_entries lb k") (auto simp: Allowed_def entry_in_def not_less)
  ultimately show ?thesis by blast
qed

text \<open>
  In a cluster, forgetting the failures of a key, as a successful login does, lasts until the
  next synchronisation only: the node itself reads its old entry back from the table.
\<close>

theorem reset_undone:
  assumes "lp_pg p" "k \<noteq> []" "limiter_of p n = Some l" "l_entries l k = Some e" "0 < ar_count e"
    and "live (l_window l) now (entry_out e)" "live (l_window l) now' (entry_out e)"
    and "row_entry (t n) k = None" "readable t"
    and "s' = snd (sync_limiters now True ok p (t, f))"
    and "lp_pg q" "limiter_of q n = Some (Reset k l)"
  shows "\<exists>l'. limiter_of (fst (sync_limiters now' True True q s')) n = Some l' \<and> l_entries l' k = Some e"
proof -
  let ?t1 = "save_states (fst (snapshots now p)) t" and ?t2 = "save_states (fst (snapshots now' q)) (fst s')"
  have s': "fst s' = ?t1" using assms(1,10) by (simp add: sync_table)
  have r: "readable ?t1" using assms(9) by (rule save_states_readable)
  have "ls_Entries (Snapshot now l) k = Some (entry_out e)" using snapshot_entry assms(4-6) by simp
  then have t1: "row_entry (?t1 n) k = Some (entry_out e)"
    using assms(3,8) by (auto simp: save_states_row snapshots_of mergeLockStates_def row_entry_def merge_entries_def
        split: option.splits rawstate.splits)
  have "ls_Entries (Snapshot now' (Reset k l)) k = None" by (simp add: Snapshot_def Reset_def map_keep_def)
  then have t2: "row_entry (?t2 n) k = Some (entry_out e)"
    using assms(12) t1 unfolding s'
    by (auto simp: save_states_row [of "fst (snapshots now' q)"] snapshots_of mergeLockStates_def row_entry_def
        merge_entries_def split: option.splits rawstate.splits)
  have "entry_in (entry_out e) = e" "0 < Count (entry_out e)" "l_window (Reset k l) = l_window l"
    "l_entries (Reset k l) k = None"
    using assms(5) by (simp_all add: entry_in_def entry_out_def Reset_def)
  then show ?thesis
    using sync_entry [OF assms(11,12,2), of now' "fst s'" "snd s'"] t2 assms(7) by auto
qed

section \<open>Concrete instances\<close>

text \<open>A node whose limiter of users has locked \<open>u|bob\<close> after one failure, and one that knows nothing.\<close>

definition calm :: limiter where
  "calm = NewLimiter 1 100 50"

definition bob_failed :: attemptRecord where
  "bob_failed = \<lparr>ar_count = 1, ar_first = 10, ar_lockedUntil = 60\<rparr>"

definition locked_node :: limiterPersist where
  "locked_node = \<lparr>lp_limiters = [(''user'', calm\<lparr>l_entries := [''u|bob'' \<mapsto> bob_failed]\<rparr>)], lp_pg = True\<rparr>"

definition quiet_node :: limiterPersist where
  "quiet_node = \<lparr>lp_limiters = [(''user'', calm)], lp_pg = True\<rparr>"

lemma nodes_sel [simp]:
  "lp_pg locked_node" "lp_pg quiet_node" "limiter_of quiet_node ''user'' = Some calm"
  "limiter_of locked_node ''user'' = Some (calm\<lparr>l_entries := [''u|bob'' \<mapsto> bob_failed]\<rparr>)"
  "l_entries calm k = None" "l_window calm = 100"
  by (simp_all add: locked_node_def quiet_node_def limiter_of_def calm_def NewLimiter_def)

lemma empty_table [simp]: "readable Map.empty" "table_good Map.empty"
  by (simp_all add: readable_def table_good_def)

theorem saves_lose_nothing_witness:
  "rank_at (ls_Entries (Snapshot 20 (calm\<lparr>l_entries := [''u|bob'' \<mapsto> bob_failed]\<rparr>))) ''u|bob'' \<le>
   row_rank (fold save_states [[''user'' \<mapsto> Snapshot 20 (calm\<lparr>l_entries := [''u|bob'' \<mapsto> bob_failed]\<rparr>)],
     [''user'' \<mapsto> Snapshot 20 calm]] Map.empty ''user'') ''u|bob''"
  using saves_lose_nothing [of Map.empty
      "[[''user'' \<mapsto> Snapshot 20 (calm\<lparr>l_entries := [''u|bob'' \<mapsto> bob_failed]\<rparr>)], [''user'' \<mapsto> Snapshot 20 calm]]"
      "[[''user'' \<mapsto> Snapshot 20 (calm\<lparr>l_entries := [''u|bob'' \<mapsto> bob_failed]\<rparr>)], [''user'' \<mapsto> Snapshot 20 calm]]"
      "''user''" "''u|bob''"]
  by simp

theorem cluster_lock_witness:
  "\<exists>lb'. limiter_of (fst (sync_limiters 30 True True quiet_node
       (fst (snd (sync_limiters 20 True True locked_node (Map.empty, None))), None))) ''user'' = Some lb' \<and>
     (fst (fst (Allowed 30 ''u|bob'' lb')) \<longleftrightarrow>
        (\<exists>own. l_entries calm ''u|bob'' = Some own \<and> ar_lockedUntil own \<le> 30))"
  by (rule cluster_lock [of Map.empty "''u|bob''" locked_node quiet_node "''user''"
      "calm\<lparr>l_entries := [''u|bob'' \<mapsto> bob_failed]\<rparr>" bob_failed])
    (simp_all add: bob_failed_def zero_time_def Second_def)

theorem reset_undone_witness:
  "\<exists>l'. limiter_of (fst (sync_limiters 40 True True quiet_node
       (snd (sync_limiters 20 True True locked_node (Map.empty, None))))) ''user'' = Some l' \<and>
     l_entries l' ''u|bob'' = Some bob_failed"
proof -
  have "Reset ''u|bob'' (calm\<lparr>l_entries := [''u|bob'' \<mapsto> bob_failed]\<rparr>) = calm"
    by (simp add: Reset_def calm_def NewLimiter_def)
  then show ?thesis
    by (intro reset_undone [of locked_node "''u|bob''" "''user''" "calm\<lparr>l_entries := [''u|bob'' \<mapsto> bob_failed]\<rparr>"
        bob_failed 20 40 Map.empty])
      (simp_all add: bob_failed_def live_def entry_out_def row_entry_def)
qed

end
