(* ===== verification/Backup.thy ===== *)
theory Backup
  imports ConfigJson "HOL-Library.AList"
begin

text \<open>
  Copies of the cluster's database: \<open>internal/store/backup.go\<close> and \<open>Backup\<close> and \<open>Restore\<close> of
  \<open>internal/store/pg.go\<close>.

  The database is its three tables with the constraints of \<open>schema.sql\<close>. The argument \<open>tc\<close> is what is
  not in the repository: how PostgreSQL and package \<open>time\<close> write an instant and read it back, and what
  PostgreSQL stores of a value given as \<open>jsonb\<close>. Whether a statement reaches the server is an argument
  too, and a transaction that fails anywhere changes nothing. The indentation of the file is left out.
\<close>

section \<open>The database\<close>

record auditRow =
  au_ID :: int
  au_TS :: time
  au_Event :: string
  au_IP :: string
  au_User :: "string option"
  au_Detail :: "string option"

record pgdb =
  db_config :: "(json \<times> time) option"
  db_locks :: "(string \<times> json \<times> time) list"
  db_audit :: "auditRow list"
  db_next :: int

record codec =
  tc_write :: "time \<Rightarrow> string"
  tc_go :: "time \<Rightarrow> string"
  tc_read :: "string \<Rightarrow> time option"
  tc_jsonb :: "json \<Rightarrow> json option"

definition dec_time :: "codec \<Rightarrow> json \<Rightarrow> time \<Rightarrow> time option" where
  "dec_time tc v old = (case v of JStr s \<Rightarrow> tc_read tc s | JNull \<Rightarrow> Some old | _ \<Rightarrow> None)"

definition opt_str :: "string option \<Rightarrow> json" where
  "opt_str x = (case x of None \<Rightarrow> JNull | Some s \<Rightarrow> JStr s)"

definition dec_opt_str :: "json \<Rightarrow> string option option" where
  "dec_opt_str v = (case v of JStr s \<Rightarrow> Some (Some s) | JNull \<Rightarrow> Some None | _ \<Rightarrow> None)"

text \<open>\<open>row_to_json\<close> of a row of each table.\<close>

definition config_row_json :: "codec \<Rightarrow> json \<times> time \<Rightarrow> json" where
  "config_row_json tc r =
     JObj [(''id'', JInt 1), (''data'', fst r), (''updated_at'', JStr (tc_write tc (snd r)))]"

definition lock_row_json :: "codec \<Rightarrow> string \<times> json \<times> time \<Rightarrow> json" where
  "lock_row_json tc r =
     JObj [(''name'', JStr (fst r)), (''state'', fst (snd r)), (''updated_at'', JStr (tc_write tc (snd (snd r))))]"

definition audit_row_json :: "codec \<Rightarrow> auditRow \<Rightarrow> json" where
  "audit_row_json tc r =
     JObj [(''id'', JInt (au_ID r)), (''ts'', JStr (tc_write tc (au_TS r))), (''event'', JStr (au_Event r)),
       (''ip'', JStr (au_IP r)), (''usr'', opt_str (au_User r)), (''detail'', opt_str (au_Detail r))]"

section \<open>Snapshots\<close>

definition BackupSchema :: int where "BackupSchema = 1"

record TableSnapshot =
  tn_Name :: string
  tn_Rows :: "json list"

record Snapshot =
  sn_Schema :: int
  sn_CreatedAt :: time
  sn_Source :: string
  sn_Counts :: "(string \<times> int) list"
  sn_Tables :: "TableSnapshot list"

fun find_table :: "TableSnapshot list \<Rightarrow> string \<Rightarrow> json list" where
  "find_table [] name = []"
| "find_table (t # ts) name = (if tn_Name t = name then tn_Rows t else find_table ts name)"

definition Table :: "Snapshot \<Rightarrow> string \<Rightarrow> json list" where
  "Table s name = find_table (sn_Tables s) name"

text \<open>
  \<open>Backup\<close> reads the tables with three queries, each of the database as it is by then (\<open>None\<close>: the
  query fails).
\<close>

definition Backup ::
  "codec \<Rightarrow> time \<Rightarrow> pgdb option \<Rightarrow> pgdb option \<Rightarrow> pgdb option \<Rightarrow> Snapshot option" where
  "Backup tc now q1 q2 q3 =
     (case (q1, q2, q3) of
        (Some d1, Some d2, Some d3) \<Rightarrow>
          (let config = map (config_row_json tc) (case db_config d1 of None \<Rightarrow> [] | Some r \<Rightarrow> [r]);
               locks = map (lock_row_json tc) (sort_key fst (db_locks d2));
               audit = map (audit_row_json tc) (sort_key au_ID (db_audit d3))
           in Some \<lparr>sn_Schema = BackupSchema, sn_CreatedAt = now, sn_Source = ''postgres'',
                sn_Counts = [(''pxproxy_config'', int (length config)), (''pxproxy_locks'', int (length locks)),
                  (''pxproxy_audit'', int (length audit))],
                sn_Tables = [\<lparr>tn_Name = ''pxproxy_config'', tn_Rows = config\<rparr>,
                  \<lparr>tn_Name = ''pxproxy_locks'', tn_Rows = locks\<rparr>,
                  \<lparr>tn_Name = ''pxproxy_audit'', tn_Rows = audit\<rparr>]\<rparr>)
      | _ \<Rightarrow> None)"

definition table_json :: "TableSnapshot \<Rightarrow> json" where
  "table_json t = JObj [(''name'', JStr (tn_Name t)), (''rows'', if tn_Rows t = [] then JNull else JArr (tn_Rows t))]"

text \<open>A map is written with its keys in order.\<close>

definition snapshot_json :: "codec \<Rightarrow> Snapshot \<Rightarrow> json" where
  "snapshot_json tc s = JObj
     [(''schema'', JInt (sn_Schema s)), (''created_at'', JStr (tc_go tc (sn_CreatedAt s))),
      (''source'', JStr (sn_Source s)),
      (''counts'', JObj (map (\<lambda>(k, v). (k, JInt v)) (sort_key fst (sn_Counts s)))),
      (''tables'', JArr (map table_json (sn_Tables s)))]"

definition SnapshotToJSON ::
  "codec \<Rightarrow> time \<Rightarrow> pgdb option \<Rightarrow> pgdb option \<Rightarrow> pgdb option \<Rightarrow> string option" where
  "SnapshotToJSON tc now q1 q2 q3 =
     map_option (\<lambda>s. print_json (snapshot_json tc s)) (Backup tc now q1 q2 q3)"

definition no_table :: TableSnapshot where
  "no_table = \<lparr>tn_Name = [], tn_Rows = []\<rparr>"

definition no_snapshot :: Snapshot where
  "no_snapshot = \<lparr>sn_Schema = 0, sn_CreatedAt = zero_time, sn_Source = [], sn_Counts = [], sn_Tables = []\<rparr>"

definition table_field :: "string \<Rightarrow> json \<Rightarrow> TableSnapshot \<Rightarrow> TableSnapshot option" where
  "table_field k v t =
     (if k = ''name'' then map_option (\<lambda>x. t\<lparr>tn_Name := x\<rparr>) (dec_str v (tn_Name t))
      else if k = ''rows'' then map_option (\<lambda>x. t\<lparr>tn_Rows := x\<rparr>) (dec_list Some v)
      else Some t)"

fun dec_count_members :: "(string \<times> json) list \<Rightarrow> (string \<times> int) list \<Rightarrow> (string \<times> int) list option" where
  "dec_count_members [] m = Some m"
| "dec_count_members ((k, v) # kvs) m =
     (case dec_int v 0 of None \<Rightarrow> None | Some i \<Rightarrow> dec_count_members kvs (AList.update k i m))"

definition dec_counts :: "json \<Rightarrow> (string \<times> int) list \<Rightarrow> (string \<times> int) list option" where
  "dec_counts v m = (case v of JObj kvs \<Rightarrow> dec_count_members kvs m | JNull \<Rightarrow> Some [] | _ \<Rightarrow> None)"

definition snapshot_field :: "codec \<Rightarrow> string \<Rightarrow> json \<Rightarrow> Snapshot \<Rightarrow> Snapshot option" where
  "snapshot_field tc k v s =
     (if k = ''schema'' then map_option (\<lambda>x. s\<lparr>sn_Schema := x\<rparr>) (dec_int v (sn_Schema s))
      else if k = ''created_at'' then map_option (\<lambda>x. s\<lparr>sn_CreatedAt := x\<rparr>) (dec_time tc v (sn_CreatedAt s))
      else if k = ''source'' then map_option (\<lambda>x. s\<lparr>sn_Source := x\<rparr>) (dec_str v (sn_Source s))
      else if k = ''counts'' then map_option (\<lambda>x. s\<lparr>sn_Counts := x\<rparr>) (dec_counts v (sn_Counts s))
      else if k = ''tables''
        then map_option (\<lambda>x. s\<lparr>sn_Tables := x\<rparr>) (dec_list (\<lambda>y. dec_struct table_field y no_table) v)
      else Some s)"

section \<open>Restoring\<close>

datatype restore_error = ErrBadSnapshot | ErrBackendUnavailable | RowRefused

record cfgRow =
  cr_ID :: int
  cr_Data :: "json option"

definition cfg_row_field :: "string \<Rightarrow> json \<Rightarrow> cfgRow \<Rightarrow> cfgRow option" where
  "cfg_row_field k v r =
     (if k = ''id'' then map_option (\<lambda>x. r\<lparr>cr_ID := x\<rparr>) (dec_int v (cr_ID r))
      else if k = ''data'' then Some (r\<lparr>cr_Data := Some v\<rparr>)
      else Some r)"

text \<open>Only the first row is read; the table takes no other id than 1.\<close>

definition restoreConfigRow :: "codec \<Rightarrow> time \<Rightarrow> json list \<Rightarrow> pgdb \<Rightarrow> restore_error + pgdb" where
  "restoreConfigRow tc now rows db =
     (case rows of
        [] \<Rightarrow> Inr db
      | row # _ \<Rightarrow>
          (case dec_struct cfg_row_field row \<lparr>cr_ID = 0, cr_Data = None\<rparr> of
             None \<Rightarrow> Inl RowRefused
           | Some r \<Rightarrow>
               (case cr_Data r of
                  None \<Rightarrow> Inl ErrBadSnapshot
                | Some data \<Rightarrow>
                    if data = JNull then Inl ErrBadSnapshot
                    else if cr_ID r \<noteq> 1 then Inl RowRefused
                    else (case tc_jsonb tc data of
                            None \<Rightarrow> Inl RowRefused
                          | Some d \<Rightarrow> Inr (db\<lparr>db_config := Some (d, now)\<rparr>)))))"

record lockRow =
  lr_Name :: string
  lr_State :: "json option"

definition lock_row_field :: "string \<Rightarrow> json \<Rightarrow> lockRow \<Rightarrow> lockRow option" where
  "lock_row_field k v r =
     (if k = ''name'' then map_option (\<lambda>x. r\<lparr>lr_Name := x\<rparr>) (dec_str v (lr_Name r))
      else if k = ''state'' then Some (r\<lparr>lr_State := Some v\<rparr>)
      else Some r)"

fun restoreLockRow :: "codec \<Rightarrow> time \<Rightarrow> json list \<Rightarrow> pgdb \<Rightarrow> restore_error + pgdb" where
  "restoreLockRow tc now [] db = Inr db"
| "restoreLockRow tc now (row # rows) db =
     (case dec_struct lock_row_field row \<lparr>lr_Name = [], lr_State = None\<rparr> of
        None \<Rightarrow> restoreLockRow tc now rows db
      | Some r \<Rightarrow>
          (case lr_State r of
             None \<Rightarrow> restoreLockRow tc now rows db
           | Some state \<Rightarrow>
               if lr_Name r = [] then restoreLockRow tc now rows db
               else (case tc_jsonb tc state of
                       None \<Rightarrow> Inl RowRefused
                     | Some d \<Rightarrow> restoreLockRow tc now rows
                         (db\<lparr>db_locks := AList.update (lr_Name r) (d, now) (db_locks db)\<rparr>))))"

definition no_audit_row :: auditRow where
  "no_audit_row = \<lparr>au_ID = 0, au_TS = zero_time, au_Event = [], au_IP = [], au_User = None, au_Detail = None\<rparr>"

definition audit_row_field :: "codec \<Rightarrow> string \<Rightarrow> json \<Rightarrow> auditRow \<Rightarrow> auditRow option" where
  "audit_row_field tc k v r =
     (if k = ''id'' then map_option (\<lambda>x. r\<lparr>au_ID := x\<rparr>) (dec_int v (au_ID r))
      else if k = ''ts'' then map_option (\<lambda>x. r\<lparr>au_TS := x\<rparr>) (dec_time tc v (au_TS r))
      else if k = ''event'' then map_option (\<lambda>x. r\<lparr>au_Event := x\<rparr>) (dec_str v (au_Event r))
      else if k = ''ip'' then map_option (\<lambda>x. r\<lparr>au_IP := x\<rparr>) (dec_str v (au_IP r))
      else if k = ''usr'' then map_option (\<lambda>x. r\<lparr>au_User := x\<rparr>) (dec_opt_str v)
      else if k = ''detail'' then map_option (\<lambda>x. r\<lparr>au_Detail := x\<rparr>) (dec_opt_str v)
      else Some r)"

text \<open>A row is refused if its id is taken, or no value for the sequence of the ids (below 1).\<close>

fun restoreAuditRow :: "codec \<Rightarrow> json list \<Rightarrow> pgdb \<Rightarrow> restore_error + pgdb" where
  "restoreAuditRow tc [] db = Inr db"
| "restoreAuditRow tc (row # rows) db =
     (case dec_struct (audit_row_field tc) row no_audit_row of
        None \<Rightarrow> restoreAuditRow tc rows db
      | Some r \<Rightarrow>
          if au_Event r = [] then restoreAuditRow tc rows db
          else if au_ID r \<in> au_ID ` set (db_audit db) \<or> au_ID r < 1 then Inl RowRefused
          else restoreAuditRow tc rows (db\<lparr>db_audit := db_audit db @ [r], db_next := au_ID r + 1\<rparr>))"

text \<open>The transaction: each table is emptied and filled in turn.\<close>

definition restore_tables :: "codec \<Rightarrow> time \<Rightarrow> Snapshot \<Rightarrow> pgdb \<Rightarrow> restore_error + pgdb" where
  "restore_tables tc now s db =
     (case restoreLockRow tc now (Table s ''pxproxy_locks'') (db\<lparr>db_locks := []\<rparr>) of
        Inl e \<Rightarrow> Inl e
      | Inr db \<Rightarrow>
          (case restoreAuditRow tc (Table s ''pxproxy_audit'') (db\<lparr>db_audit := [], db_next := 1\<rparr>) of
             Inl e \<Rightarrow> Inl e
           | Inr db \<Rightarrow> restoreConfigRow tc now (Table s ''pxproxy_config'') (db\<lparr>db_config := None\<rparr>)))"

definition Restore ::
  "codec \<Rightarrow> bool \<Rightarrow> time \<Rightarrow> Snapshot \<Rightarrow> pgdb \<Rightarrow> (restore_error + (string \<times> nat) list) \<times> pgdb" where
  "Restore tc reachable now s db =
     (if \<not> reachable then (Inl ErrBackendUnavailable, db)
      else (case restore_tables tc now s db of
              Inl e \<Rightarrow> (Inl e, db)
            | Inr db' \<Rightarrow>
                (Inr (map (\<lambda>n. (n, length (Table s n))) [''pxproxy_locks'', ''pxproxy_audit'', ''pxproxy_config'']),
                 db')))"

definition RestoreFromJSON ::
  "codec \<Rightarrow> bool \<Rightarrow> time \<Rightarrow> string \<Rightarrow> pgdb \<Rightarrow> (restore_error + (string \<times> nat) list) \<times> pgdb" where
  "RestoreFromJSON tc reachable now text db =
     (case (case Unmarshal text of None \<Rightarrow> None | Some v \<Rightarrow> dec_struct (snapshot_field tc) v no_snapshot) of
        None \<Rightarrow> (Inl ErrBadSnapshot, db)
      | Some s \<Rightarrow>
          if sn_Schema s \<noteq> BackupSchema then (Inl ErrBadSnapshot, db)
          else if sn_Source s \<noteq> ''postgres'' \<or> sn_Tables s = [] then (Inl ErrBadSnapshot, db)
          else Restore tc reachable now s db)"

section \<open>What is copied\<close>

text \<open>
  A database as the program fills it: the constraints of the schema, no lock or event without a name,
  JSON as \<open>jsonb\<close> keeps it, and instants that can be read back.
\<close>

definition stored_json :: "codec \<Rightarrow> json \<Rightarrow> bool" where
  "stored_json tc j \<longleftrightarrow> ok_json j \<and> tc_jsonb tc j = Some j"

definition audit_ok :: "codec \<Rightarrow> auditRow \<Rightarrow> bool" where
  "audit_ok tc r \<longleftrightarrow> 1 \<le> au_ID r \<and> int64 (au_ID r) \<and> au_Event r \<noteq> [] \<and>
     tc_read tc (tc_write tc (au_TS r)) = Some (au_TS r)"

definition db_ok :: "codec \<Rightarrow> pgdb \<Rightarrow> bool" where
  "db_ok tc d \<longleftrightarrow>
     (case db_config d of None \<Rightarrow> True | Some r \<Rightarrow> fst r \<noteq> JNull \<and> stored_json tc (fst r)) \<and>
     distinct (map fst (db_locks d)) \<and>
     list_all (\<lambda>r. fst r \<noteq> [] \<and> stored_json tc (fst (snd r))) (db_locks d) \<and>
     distinct (map au_ID (db_audit d)) \<and> list_all (audit_ok tc) (db_audit d) \<and>
     int64 (int (length (db_locks d))) \<and> int64 (int (length (db_audit d)))"

text \<open>The database a backup is restored to.\<close>

definition restored :: "time \<Rightarrow> pgdb \<Rightarrow> pgdb" where
  "restored now d =
     (let audit = sort_key au_ID (db_audit d)
      in \<lparr>db_config = map_option (\<lambda>r. (fst r, now)) (db_config d),
          db_locks = map (\<lambda>r. (fst r, fst (snd r), now)) (sort_key fst (db_locks d)),
          db_audit = audit, db_next = (if audit = [] then 1 else au_ID (last audit) + 1)\<rparr>)"

section \<open>Reading a copy back\<close>

lemma backup_keys [simp]:
  "ToLower ''id'' = ''id''" "ToLower ''data'' = ''data''" "ToLower ''updated_at'' = ''updated_at''"
  "ToLower ''name'' = ''name''" "ToLower ''state'' = ''state''" "ToLower ''ts'' = ''ts''"
  "ToLower ''event'' = ''event''" "ToLower ''ip'' = ''ip''" "ToLower ''usr'' = ''usr''"
  "ToLower ''detail'' = ''detail''" "ToLower ''schema'' = ''schema''"
  "ToLower ''created_at'' = ''created_at''" "ToLower ''source'' = ''source''"
  "ToLower ''counts'' = ''counts''" "ToLower ''tables'' = ''tables''" "ToLower ''rows'' = ''rows''"
  by code_simp+

lemma int64_1 [simp]: "int64 1"
  by code_simp

lemma config_row_read:
  "dec_struct cfg_row_field (config_row_json tc r) x = Some \<lparr>cr_ID = 1, cr_Data = Some (fst r)\<rparr>"
  by (simp add: dec_struct_def config_row_json_def cfg_row_field_def)

lemma lock_row_read:
  "dec_struct lock_row_field (lock_row_json tc r) x = Some \<lparr>lr_Name = fst r, lr_State = Some (fst (snd r))\<rparr>"
  by (simp add: dec_struct_def lock_row_json_def lock_row_field_def)

lemma dec_opt_str_written [simp]: "dec_opt_str (opt_str x) = Some x"
  by (cases x) (simp_all add: dec_opt_str_def opt_str_def)

lemma audit_row_read:
  "audit_ok tc r \<Longrightarrow> dec_struct (audit_row_field tc) (audit_row_json tc r) x = Some r"
  by (cases r) (simp add: dec_struct_def audit_row_json_def audit_row_field_def audit_ok_def dec_time_def)

lemma update_new: "k \<notin> fst ` set m \<Longrightarrow> AList.update k v m = m @ [(k, v)]"
  by (induction m) auto

lemma lock_rows_restored:
  assumes "distinct (map fst (done @ rows))" "list_all (\<lambda>r. fst r \<noteq> [] \<and> stored_json tc (fst (snd r))) rows"
  shows "restoreLockRow tc now (map (lock_row_json tc) rows) (db\<lparr>db_locks := done\<rparr>) =
     Inr (db\<lparr>db_locks := done @ map (\<lambda>r. (fst r, fst (snd r), now)) rows\<rparr>)"
  using assms
proof (induction rows arbitrary: "done")
  case (Cons r rows)
  let ?r = "(fst r, fst (snd r), now)"
  have "AList.update (fst r) (fst (snd r), now) done = done @ [?r]"
    using Cons.prems(1) by (intro update_new) auto
  moreover have "restoreLockRow tc now (map (lock_row_json tc) rows) (db\<lparr>db_locks := done @ [?r]\<rparr>) =
      Inr (db\<lparr>db_locks := (done @ [?r]) @ map (\<lambda>r. (fst r, fst (snd r), now)) rows\<rparr>)"
    using Cons.prems by (intro Cons.IH) auto
  ultimately show ?case using Cons.prems(2) by (simp add: lock_row_read stored_json_def)
qed simp

lemma audit_rows_restored:
  assumes "distinct (map au_ID (done @ rows))" "list_all (audit_ok tc) rows"
  shows "restoreAuditRow tc (map (audit_row_json tc) rows) (db\<lparr>db_audit := done, db_next := n\<rparr>) =
     Inr (db\<lparr>db_audit := done @ rows, db_next := (if rows = [] then n else au_ID (last rows) + 1)\<rparr>)"
  using assms
proof (induction rows arbitrary: "done" n)
  case (Cons r rows)
  have "restoreAuditRow tc (map (audit_row_json tc) rows) (db\<lparr>db_audit := done @ [r], db_next := au_ID r + 1\<rparr>) =
      Inr (db\<lparr>db_audit := (done @ [r]) @ rows,
        db_next := (if rows = [] then au_ID r + 1 else au_ID (last rows) + 1)\<rparr>)"
    using Cons.prems by (intro Cons.IH) auto
  moreover have "au_ID r \<notin> au_ID ` set done" "1 \<le> au_ID r" "au_Event r \<noteq> []"
    using Cons.prems by (auto simp: audit_ok_def)
  ultimately show ?case using Cons.prems(2) by (simp add: audit_row_read)
qed simp

text \<open>The snapshot \<open>Backup\<close> makes of one state of the database, and what its file is read as.\<close>

definition rows_of :: "codec \<Rightarrow> pgdb \<Rightarrow> string \<Rightarrow> json list" where
  "rows_of tc d name =
     (if name = ''pxproxy_config'' then map (config_row_json tc) (case db_config d of None \<Rightarrow> [] | Some r \<Rightarrow> [r])
      else if name = ''pxproxy_locks'' then map (lock_row_json tc) (sort_key fst (db_locks d))
      else if name = ''pxproxy_audit'' then map (audit_row_json tc) (sort_key au_ID (db_audit d))
      else [])"

lemma row_json_ok:
  "audit_ok tc r \<Longrightarrow> ok_json (audit_row_json tc r)"
  "stored_json tc (fst c) \<Longrightarrow> ok_json (config_row_json tc c)"
  "stored_json tc (fst (snd l)) \<Longrightarrow> ok_json (lock_row_json tc l)"
  by (auto simp: audit_row_json_def config_row_json_def lock_row_json_def stored_json_def opt_str_def
      split: option.split)

lemma rows_ok: "db_ok tc d \<Longrightarrow> ok_elems (rows_of tc d name)"
  by (auto simp: rows_of_def ok_elems_map db_ok_def list_all_iff row_json_ok split: option.splits)

lemma table_read:
  "dec_struct table_field (table_json t) no_table = Some t"
proof -
  have "dec_list Some (JArr rs) = Some rs" for rs :: "json list"
    using dec_list_written [of rs Some id] by (simp add: dec_list_def)
  then show ?thesis
    by (cases t) (simp add: dec_struct_def table_json_def table_field_def no_table_def dec_list_def)
qed

definition the_snapshot :: "codec \<Rightarrow> time \<Rightarrow> pgdb \<Rightarrow> Snapshot" where
  "the_snapshot tc now d =
     (let names = [''pxproxy_config'', ''pxproxy_locks'', ''pxproxy_audit'']
      in \<lparr>sn_Schema = 1, sn_CreatedAt = now, sn_Source = ''postgres'',
           sn_Counts = map (\<lambda>n. (n, int (length (rows_of tc d n)))) names,
           sn_Tables = map (\<lambda>n. \<lparr>tn_Name = n, tn_Rows = rows_of tc d n\<rparr>) names\<rparr>)"

lemma Backup_eq: "Backup tc now (Some d) (Some d) (Some d) = Some (the_snapshot tc now d)"
  by (simp add: Backup_def the_snapshot_def rows_of_def BackupSchema_def Let_def)

lemma counts_sorted:
  "sort_key fst [(''pxproxy_config'', a), (''pxproxy_locks'', b), (''pxproxy_audit'', c)] =
     [(''pxproxy_audit'', c :: int), (''pxproxy_config'', a), (''pxproxy_locks'', b)]"
  by code_simp

lemma snapshot_json_ok: "db_ok tc d \<Longrightarrow> ok_json (snapshot_json tc (the_snapshot tc now d))"
  by (auto simp: snapshot_json_def the_snapshot_def counts_sorted table_json_def rows_ok Let_def)

lemma row_counts: "db_ok tc d \<Longrightarrow> int64 (int (length (rows_of tc d n)))"
  by (auto simp: rows_of_def db_ok_def int64_def min_int64_def max_int64_def split: option.split)

lemma snapshot_read:
  assumes "db_ok tc d" "tc_read tc (tc_go tc now) = Some now"
  shows "\<exists>c. dec_struct (snapshot_field tc) (snapshot_json tc (the_snapshot tc now d)) no_snapshot =
     Some (the_snapshot tc now d\<lparr>sn_Counts := c\<rparr>)"
proof -
  have tables: "dec_list (\<lambda>y. dec_struct table_field y no_table) (JArr (map table_json ts)) = Some ts" for ts
    by (rule dec_list_written) (simp add: table_read)
  show ?thesis
    using assms(2) row_counts [OF assms(1)] tables
      [of "map (\<lambda>n. \<lparr>tn_Name = n, tn_Rows = rows_of tc d n\<rparr>) [''pxproxy_config'', ''pxproxy_locks'', ''pxproxy_audit'']"]
    by (simp add: dec_struct_def [of "snapshot_field tc"] snapshot_json_def snapshot_field_def the_snapshot_def
        counts_sorted Let_def dec_time_def dec_counts_def no_snapshot_def)
qed

lemma the_snapshot_table:
  "find_table (sn_Tables (the_snapshot tc now d)) n =
     (if n \<in> {''pxproxy_config'', ''pxproxy_locks'', ''pxproxy_audit''} then rows_of tc d n else [])"
  by (auto simp: the_snapshot_def Let_def)

lemma sorted_same:
  "distinct (map f xs) \<Longrightarrow> distinct (map f (sort_key f xs))" "list_all P xs \<Longrightarrow> list_all P (sort_key f xs)"
  by (metis mset_map mset_sort mset_eq_imp_distinct_iff) (simp add: list_all_iff)

lemma restored_copy:
  assumes "db_ok tc d" "tc_read tc (tc_go tc now) = Some now"
    and "SnapshotToJSON tc now (Some d) (Some d) (Some d) = Some text"
  shows "snd (RestoreFromJSON tc True now' text e) = restored now' d \<and>
     fst (RestoreFromJSON tc True now' text e) =
       Inr [(''pxproxy_locks'', length (db_locks d)), (''pxproxy_audit'', length (db_audit d)),
         (''pxproxy_config'', if db_config d = None then 0 else 1)]"
proof -
  let ?s = "the_snapshot tc now d"
  obtain c where c: "dec_struct (snapshot_field tc) (snapshot_json tc ?s) no_snapshot = Some (?s\<lparr>sn_Counts := c\<rparr>)"
    using snapshot_read [OF assms(1,2)] by blast
  have parsed: "Unmarshal text = Some (snapshot_json tc ?s)"
    using assms(3) Unmarshal_print [OF snapshot_json_ok [OF assms(1)], of now]
    by (auto simp: SnapshotToJSON_def Backup_eq)
  have "restoreLockRow tc now' (rows_of tc d ''pxproxy_locks'') (e\<lparr>db_locks := []\<rparr>) =
      Inr (e\<lparr>db_locks := db_locks (restored now' d)\<rparr>)"
    using lock_rows_restored [of "[]" "sort_key fst (db_locks d)" tc now' e] assms(1)
    by (simp add: rows_of_def restored_def db_ok_def sorted_same Let_def)
  moreover have "restoreAuditRow tc (rows_of tc d ''pxproxy_audit'') (x\<lparr>db_audit := [], db_next := 1\<rparr>) =
      Inr (x\<lparr>db_audit := db_audit (restored now' d), db_next := db_next (restored now' d)\<rparr>)" for x
    using audit_rows_restored [of "[]" "sort_key au_ID (db_audit d)" tc 1 x] assms(1)
    by (simp add: rows_of_def restored_def db_ok_def sorted_same Let_def)
  moreover have "restoreConfigRow tc now' (rows_of tc d ''pxproxy_config'') (x\<lparr>db_config := None\<rparr>) =
      Inr (x\<lparr>db_config := db_config (restored now' d)\<rparr>)" for x
    using assms(1)
    by (auto simp: rows_of_def restored_def db_ok_def restoreConfigRow_def config_row_read stored_json_def Let_def
        split: option.splits)
  ultimately have "restore_tables tc now' (?s\<lparr>sn_Counts := c\<rparr>) e = Inr (restored now' d)"
    by (simp add: restore_tables_def Table_def the_snapshot_table)
  moreover have "sn_Schema ?s = BackupSchema" "sn_Source ?s = ''postgres''" "sn_Tables ?s \<noteq> []"
    by (simp_all add: the_snapshot_def BackupSchema_def Let_def)
  ultimately show ?thesis
    by (simp add: RestoreFromJSON_def parsed c Restore_def Table_def the_snapshot_table rows_of_def
        split: option.split)
qed

section \<open>What a restore leaves\<close>

lemma lock_rows_bound:
  "restoreLockRow tc now rows db = Inr db' \<Longrightarrow> length (db_locks db') \<le> length (db_locks db) + length rows"
proof (induction rows arbitrary: db)
  case (Cons row rows)
  have "length (AList.update k v m) \<le> Suc (length m)" for k :: string and v :: "json \<times> time" and m
    by (induction m) auto
  then show ?case using Cons
    by (fastforce split: option.splits if_splits intro: le_trans)
qed simp

lemma audit_rows_bound:
  "restoreAuditRow tc rows db = Inr db' \<Longrightarrow>
     length (db_audit db') \<le> length (db_audit db) + length rows \<and> db_locks db' = db_locks db"
  by (induction rows arbitrary: db) (fastforce split: option.splits if_splits)+

lemma config_row_bound:
  "restoreConfigRow tc now rows db = Inr db' \<Longrightarrow> db_config db = None \<Longrightarrow>
     length (case db_config db' of None \<Rightarrow> [] | Some r \<Rightarrow> [r]) \<le> length rows \<and>
     db_locks db' = db_locks db \<and> db_audit db' = db_audit db"
  by (auto simp: restoreConfigRow_def split: list.splits option.splits if_splits)

text \<open>What a step makes of the tables it and the steps before it have emptied depends on these alone.\<close>

definition agree :: "(pgdb \<Rightarrow> 'a) \<Rightarrow> restore_error + pgdb \<Rightarrow> restore_error + pgdb \<Rightarrow> bool" where
  "agree f = rel_sum (=) (\<lambda>x y. f x = f y)"

lemma agree_simps [simp]:
  "agree f (Inl e) (Inl e') = (e = e')" "agree f (Inr x) (Inr y) = (f x = f y)"
  by (simp_all add: agree_def)

lemma lock_rows_agree:
  "db_locks x = db_locks y \<Longrightarrow>
     agree db_locks (restoreLockRow tc now rows x) (restoreLockRow tc now rows y)"
  by (induction rows arbitrary: x y) (simp_all split: option.split)

lemma audit_rows_agree:
  "db_locks x = db_locks y \<and> db_audit x = db_audit y \<and> db_next x = db_next y \<Longrightarrow>
     agree (\<lambda>d. (db_locks d, db_audit d, db_next d)) (restoreAuditRow tc rows x) (restoreAuditRow tc rows y)"
  by (induction rows arbitrary: x y) (simp_all split: option.split)

lemma config_row_agree:
  "(db_locks x, db_audit x, db_next x) = (db_locks y, db_audit y, db_next y) \<Longrightarrow>
     restoreConfigRow tc now rows (x\<lparr>db_config := None\<rparr>) = restoreConfigRow tc now rows (y\<lparr>db_config := None\<rparr>)"
  by (auto simp: restoreConfigRow_def split: list.split option.split)

lemma restore_tables_agree: "restore_tables tc now s x = restore_tables tc now s y"
proof -
  let ?lx = "restoreLockRow tc now (Table s ''pxproxy_locks'') (x\<lparr>db_locks := []\<rparr>)"
  let ?ly = "restoreLockRow tc now (Table s ''pxproxy_locks'') (y\<lparr>db_locks := []\<rparr>)"
  let ?a = "\<lambda>z. restoreAuditRow tc (Table s ''pxproxy_audit'') (z\<lparr>db_audit := [], db_next := 1\<rparr>)"
  have l: "agree db_locks ?lx ?ly" by (rule lock_rows_agree) simp
  show ?thesis
  proof (cases "\<exists>e. ?lx = Inl e")
    case True
    with l show ?thesis by (cases ?ly) (auto simp: restore_tables_def agree_def)
  next
    case False
    then obtain x' where x': "?lx = Inr x'" by (cases ?lx) auto
    with l obtain y' where y': "?ly = Inr y'" "db_locks x' = db_locks y'" by (cases ?ly) (auto simp: agree_def)
    then have a: "agree (\<lambda>d. (db_locks d, db_audit d, db_next d)) (?a x') (?a y')"
      by (intro audit_rows_agree) simp
    show ?thesis
    proof (cases "\<exists>e. ?a x' = Inl e")
      case True
      with a show ?thesis by (cases "?a y'") (auto simp: restore_tables_def x' y' agree_def)
    next
      case False
      then obtain x'' where x'': "?a x' = Inr x''" by (cases "?a x'") auto
      with a obtain y'' where "?a y' = Inr y''"
        "(db_locks x'', db_audit x'', db_next x'') = (db_locks y'', db_audit y'', db_next y'')"
        by (cases "?a y'") (auto simp: agree_def)
      with x'' config_row_agree [of x'' y''] show ?thesis by (simp add: restore_tables_def x' y')
    qed
  qed
qed

definition blank_db :: pgdb where
  "blank_db = \<lparr>db_config = None, db_locks = [], db_audit = [], db_next = 1\<rparr>"

lemma restore_tables_bound:
  assumes "restore_tables tc now s db = Inr db'"
  shows "length (db_locks db') \<le> length (Table s ''pxproxy_locks'') \<and>
     length (db_audit db') \<le> length (Table s ''pxproxy_audit'') \<and>
     length (case db_config db' of None \<Rightarrow> [] | Some r \<Rightarrow> [r]) \<le> length (Table s ''pxproxy_config'')"
proof -
  obtain d1 where d1: "restoreLockRow tc now (Table s ''pxproxy_locks'') (db\<lparr>db_locks := []\<rparr>) = Inr d1"
    using assms by (auto simp: restore_tables_def split: sum.splits)
  obtain d2 where d2: "restoreAuditRow tc (Table s ''pxproxy_audit'') (d1\<lparr>db_audit := [], db_next := 1\<rparr>) = Inr d2"
    using assms by (auto simp: restore_tables_def d1 split: sum.splits)
  have "restoreConfigRow tc now (Table s ''pxproxy_config'') (d2\<lparr>db_config := None\<rparr>) = Inr db'"
    using assms by (simp add: restore_tables_def d1 d2)
  from config_row_bound [OF this] lock_rows_bound [OF d1] audit_rows_bound [OF d2] show ?thesis by simp
qed

lemma RestoreFromJSON_cases:
  "(\<exists>s. \<forall>d. RestoreFromJSON tc reachable now file d = Restore tc reachable now s d) \<or>
   (\<exists>e. \<forall>d. RestoreFromJSON tc reachable now file d = (Inl e, d))"
proof (cases "case Unmarshal file of None \<Rightarrow> None | Some v \<Rightarrow> dec_struct (snapshot_field tc) v no_snapshot")
  case (Some s)
  then show ?thesis
    by (cases "sn_Schema s \<noteq> BackupSchema \<or> sn_Source s \<noteq> ''postgres'' \<or> sn_Tables s = []")
      (auto simp: RestoreFromJSON_def)
qed (auto simp: RestoreFromJSON_def)


section \<open>Concrete instances\<close>

text \<open>Instants as decimal numbers, and a \<open>jsonb\<close> that keeps what it is given.\<close>

definition plain_codec :: codec where
  "plain_codec = \<lparr>tc_write = Itoa, tc_go = Itoa, tc_read = ParseInt, tc_jsonb = Some\<rparr>"

definition sample_db :: pgdb where
  "sample_db = \<lparr>db_config = Some (JObj [(''rules'', JArr [])], 5),
     db_locks = [(''user'', JObj [], 7), (''ip'', JObj [], 6)],
     db_audit = [\<lparr>au_ID = 3, au_TS = 8, au_Event = ''login_ok'', au_IP = [], au_User = Some ''bob'', au_Detail = None\<rparr>],
     db_next = 4\<rparr>"

lemma sample_db_ok: "db_ok plain_codec sample_db"
  by (simp add: db_ok_def sample_db_def stored_json_def plain_codec_def audit_ok_def) code_simp

lemma time_9: "tc_read plain_codec (tc_go plain_codec 9) = Some 9"
  unfolding plain_codec_def by code_simp

end
