(* ===== verification/BackupFiles.thy ===== *)
theory BackupFiles
  imports Backup Admin
begin

text \<open>
  The files the database is copied to: \<open>WriteBackupFile\<close>, \<open>ListBackupFiles\<close>, \<open>PruneBackupFiles\<close>,
  \<open>NewestBackupAge\<close> and \<open>DeleteBackupFile\<close> of \<open>internal/store/backup.go\<close>, what \<open>main.go\<close> makes of
  them for the panel (\<open>SetStorageOps\<close>) and for the automatic copies, and the handlers of
  \<open>/api/storage\<close> in \<open>internal/server/admin.go\<close>.

  The directory is the list of its entries (\<open>None\<close>: there is none). What the operating system makes
  of an operation, the clock, its reading as a file name, and the text of an error are arguments
  (\<open>fsio\<close>). Paths have the separator of Unix. \<open>sort.Slice\<close> is not stable: the order of the files is an
  argument \<open>srt\<close> that puts newer ones first.
\<close>

section \<open>Paths\<close>

text \<open>\<open>filepath.Ext\<close> and \<open>filepath.Base\<close>.\<close>

definition Ext :: "string \<Rightarrow> string" where
  "Ext path =
     (let t = takeWhile (\<lambda>c. c \<noteq> CHR ''.'' \<and> c \<noteq> CHR ''/'') (rev path);
          r = drop (length t) (rev path)
      in if r \<noteq> [] \<and> hd r = CHR ''.'' then CHR ''.'' # rev t else [])"

definition Base :: "string \<Rightarrow> string" where
  "Base path =
     (if path = [] then ''.''
      else (let p = dropWhile ((=) CHR ''/'') (rev path)
            in if p = [] then ''/'' else rev (takeWhile ((\<noteq>) CHR ''/'') p)))"

section \<open>The directory\<close>

datatype dirent = SubDir | PlainFile string time

type_synonym bdir = "(string \<times> dirent) list option"

text \<open>A failed write may leave a part of the file.\<close>

datatype write_result = Written | WriteFailed "string option"

record fsio =
  fs_now :: time
  fs_stamp :: string
  fs_mkdir :: bool
  fs_write :: write_result
  fs_rename :: bool
  fs_readdir :: bool
  fs_stat :: "string \<Rightarrow> bool"
  fs_remove :: "string \<Rightarrow> bool"
  fs_read :: "string \<Rightarrow> bool"

datatype file_error = FileSystem | Refused restore_error | NotValid

record BackupInfo =
  bi_File :: string
  bi_Size :: int
  bi_Modified :: time

type_synonym file_order = "BackupInfo list \<Rightarrow> BackupInfo list"

definition entries :: "bdir \<Rightarrow> (string \<times> dirent) list" where
  "entries d = (case d of None \<Rightarrow> [] | Some es \<Rightarrow> es)"

definition backup_name :: "fsio \<Rightarrow> string" where
  "backup_name x = ''pxproxy-bd-'' @ fs_stamp x @ ''.json''"

definition WriteBackupFile :: "fsio \<Rightarrow> string \<Rightarrow> bdir \<Rightarrow> (file_error + string) \<times> bdir" where
  "WriteBackupFile x data d =
     (if \<not> fs_mkdir x then (Inl FileSystem, d)
      else (let name = backup_name x;
                tmp = name @ ''.tmp''
            in case fs_write x of
                 WriteFailed None \<Rightarrow> (Inl FileSystem, Some (entries d))
               | WriteFailed (Some part) \<Rightarrow>
                   (Inl FileSystem, Some (AList.update tmp (PlainFile part (fs_now x)) (entries d)))
               | Written \<Rightarrow>
                   if fs_rename x
                   then (Inr name, Some (AList.update name (PlainFile data (fs_now x)) (AList.delete tmp (entries d))))
                   else (Inl FileSystem, Some (AList.update tmp (PlainFile data (fs_now x)) (entries d)))))"

definition file_info :: "fsio \<Rightarrow> string \<times> dirent \<Rightarrow> BackupInfo option" where
  "file_info x e =
     (case snd e of
        SubDir \<Rightarrow> None
      | PlainFile data t \<Rightarrow>
          if Ext (fst e) \<noteq> ''.json'' \<or> \<not> fs_stat x (fst e) then None
          else Some \<lparr>bi_File = fst e, bi_Size = int (length data), bi_Modified = t\<rparr>)"

definition ListBackupFiles :: "fsio \<Rightarrow> file_order \<Rightarrow> bdir \<Rightarrow> BackupInfo list" where
  "ListBackupFiles x srt d =
     (if \<not> fs_readdir x then [] else srt (List.map_filter (file_info x) (sort_key fst (entries d))))"

definition remove_file :: "fsio \<Rightarrow> string \<Rightarrow> bdir \<Rightarrow> bool \<times> bdir" where
  "remove_file x name d =
     (if name \<in> fst ` set (entries d) \<and> fs_remove x name
      then (True, Some (AList.delete name (entries d))) else (False, d))"

definition PruneBackupFiles :: "fsio \<Rightarrow> file_order \<Rightarrow> int \<Rightarrow> bdir \<Rightarrow> bdir" where
  "PruneBackupFiles x srt keep d =
     (if keep \<le> 0 then d
      else fold (\<lambda>i d. snd (remove_file x (bi_File i) d)) (drop (nat keep) (ListBackupFiles x srt d)) d)"

definition NewestBackupAge :: "fsio \<Rightarrow> file_order \<Rightarrow> bdir \<Rightarrow> duration" where
  "NewestBackupAge x srt d =
     (case ListBackupFiles x srt d of [] \<Rightarrow> 2 ^ 62 | i # _ \<Rightarrow> time_sub (fs_now x) (bi_Modified i))"

definition bad_name :: "string \<Rightarrow> bool" where
  "bad_name clean \<longleftrightarrow> clean = ''.'' \<or> clean = ''/'' \<or> Ext clean \<noteq> ''.json''"

definition DeleteBackupFile :: "fsio \<Rightarrow> string \<Rightarrow> bdir \<Rightarrow> file_error option \<times> bdir" where
  "DeleteBackupFile x name d =
     (if bad_name (Base name) then (Some (Refused ErrBadSnapshot), d)
      else (case remove_file x (Base name) d of (ok, d') \<Rightarrow> (if ok then None else Some FileSystem, d')))"

definition read_file :: "fsio \<Rightarrow> string \<Rightarrow> bdir \<Rightarrow> string option" where
  "read_file x name d =
     (case map_of (entries d) name of
        Some (PlainFile data t) \<Rightarrow> if fs_read x name then Some data else None
      | _ \<Rightarrow> None)"

section \<open>What the panel may ask\<close>

text \<open>
  The closures of \<open>main\<close>. The state is the database and the directory; \<open>q\<close> is the database as the
  queries of the copy find it.
\<close>

record storage =
  so_db :: pgdb
  so_dir :: bdir

type_synonym queries = "pgdb option \<times> pgdb option \<times> pgdb option"

definition counts_of :: "codec \<Rightarrow> string \<Rightarrow> (string \<times> int) list" where
  "counts_of tc data =
     (case (case Unmarshal data of None \<Rightarrow> None | Some v \<Rightarrow> dec_struct (snapshot_field tc) v no_snapshot) of
        None \<Rightarrow> [] | Some s \<Rightarrow> sn_Counts s)"

definition bdBackup ::
  "codec \<Rightarrow> fsio \<Rightarrow> file_order \<Rightarrow> int \<Rightarrow> queries \<Rightarrow> storage \<Rightarrow>
   (file_error + string \<times> (string \<times> int) list) \<times> storage" where
  "bdBackup tc x srt keep q s =
     (case SnapshotToJSON tc (fs_now x) (fst q) (fst (snd q)) (snd (snd q)) of
        None \<Rightarrow> (Inl (Refused ErrBackendUnavailable), s)
      | Some data \<Rightarrow>
          (case WriteBackupFile x data (so_dir s) of
             (Inl e, d) \<Rightarrow> (Inl e, s\<lparr>so_dir := d\<rparr>)
           | (Inr name, d) \<Rightarrow>
               (Inr (Base name, counts_of tc data), s\<lparr>so_dir := PruneBackupFiles x srt keep d\<rparr>)))"

definition autoBackupBD ::
  "codec \<Rightarrow> fsio \<Rightarrow> file_order \<Rightarrow> int \<Rightarrow> queries \<Rightarrow> storage \<Rightarrow> storage" where
  "autoBackupBD tc x srt keep q s =
     (case SnapshotToJSON tc (fs_now x) (fst q) (fst (snd q)) (snd (snd q)) of
        None \<Rightarrow> s
      | Some data \<Rightarrow>
          (case WriteBackupFile x data (so_dir s) of
             (Inl e, d) \<Rightarrow> s\<lparr>so_dir := d\<rparr>
           | (Inr name, d) \<Rightarrow> s\<lparr>so_dir := PruneBackupFiles x srt keep d\<rparr>))"

definition bdRestore ::
  "codec \<Rightarrow> fsio \<Rightarrow> bool \<Rightarrow> string \<Rightarrow> storage \<Rightarrow> (file_error + (string \<times> nat) list) \<times> storage" where
  "bdRestore tc x online name s =
     (let clean = Base (TrimSpace name)
      in if bad_name clean then (Inl NotValid, s)
         else (case read_file x clean (so_dir s) of
                 None \<Rightarrow> (Inl FileSystem, s)
               | Some data \<Rightarrow>
                   (case RestoreFromJSON tc online (fs_now x) data (so_db s) of
                      (Inl e, db) \<Rightarrow> (Inl (Refused e), s\<lparr>so_db := db\<rparr>)
                    | (Inr counts, db) \<Rightarrow> (Inr counts, s\<lparr>so_db := db\<rparr>))))"

definition bdDelete :: "fsio \<Rightarrow> string \<Rightarrow> storage \<Rightarrow> file_error option \<times> storage" where
  "bdDelete x name s =
     (let clean = Base (TrimSpace name)
      in if bad_name clean then (Some NotValid, s)
         else (case DeleteBackupFile x clean (so_dir s) of (e, d) \<Rightarrow> (e, s\<lparr>so_dir := d\<rparr>)))"

text \<open>The goroutine of the automatic copies: its start a minute after the program's, and its ticks.\<close>

definition auto_backup_start ::
  "codec \<Rightarrow> fsio \<Rightarrow> file_order \<Rightarrow> int \<Rightarrow> queries \<Rightarrow> storage \<Rightarrow> storage" where
  "auto_backup_start tc x srt keep q s =
     (if NewestBackupAge x srt (so_dir s) > 30 * Minute then autoBackupBD tc x srt keep q s else s)"

section \<open>Handlers\<close>

text \<open>
  \<open>None\<close>: the panel has no storage operations, for the storage is not PostgreSQL. An error is written
  as the text the argument \<open>txt\<close> gives for it.
\<close>

definition info_json :: "codec \<Rightarrow> BackupInfo \<Rightarrow> json" where
  "info_json tc i = JObj
     [(''file'', JStr (bi_File i)), (''size_bytes'', JInt (bi_Size i)), (''modified'', JStr (tc_go tc (bi_Modified i)))]"

definition handleStorageList :: "codec \<Rightarrow> fsio \<Rightarrow> file_order \<Rightarrow> storage option \<Rightarrow> response" where
  "handleStorageList tc x srt so =
     (case so of
        None \<Rightarrow> jsonErr 400 ''los backups de BD requieren storage.backend=postgres''
      | Some s \<Rightarrow>
          (let l = ListBackupFiles x srt (so_dir s)
           in writeJSON 200 (JObj [(''backups'', if l = [] then JNull else JArr (map (info_json tc) l))])))"

definition handleStorageBackup ::
  "codec \<Rightarrow> fsio \<Rightarrow> file_order \<Rightarrow> int \<Rightarrow> queries \<Rightarrow> (file_error \<Rightarrow> string) \<Rightarrow> request \<Rightarrow>
   Admin \<times> storage option \<Rightarrow> response \<times> Admin \<times> storage option" where
  "handleStorageBackup tc x srt keep q txt r as =
     (case as of
        (a, None) \<Rightarrow> (jsonErr 400 ''los backups de BD requieren storage.backend=postgres'', as)
      | (a, Some s) \<Rightarrow>
          (case bdBackup tc x srt keep q s of
             (Inl e, s') \<Rightarrow>
               (jsonErr 500 (''no se pudo crear el backup: '' @ txt e),
                admin_audit ''bd_backup_error'' r [] (txt e) a, Some s')
           | (Inr res, s') \<Rightarrow>
               (writeJSON 200 (JObj
                  [(''counts'', JObj (map (\<lambda>(k, v). (k, JInt v)) (sort_key fst (snd res)))), (''file'', JStr (fst res))]),
                admin_audit ''bd_backup'' r [] [] a, Some s')))"

definition handleStorageRestore ::
  "codec \<Rightarrow> fsio \<Rightarrow> bool \<Rightarrow> (file_error \<Rightarrow> string) \<Rightarrow> request \<Rightarrow>
   Admin \<times> storage option \<Rightarrow> response \<times> Admin \<times> storage option" where
  "handleStorageRestore tc x online txt r as =
     (case as of
        (a, None) \<Rightarrow> (jsonErr 400 ''el restore requiere storage.backend=postgres'', as)
      | (a, Some s) \<Rightarrow>
          (case decodeJSON r (one_field ''file'') [] of
             Inl e \<Rightarrow> (writeDecodeErr e, as)
           | Inr name \<Rightarrow>
               (case bdRestore tc x online name s of
                  (Inl e, s') \<Rightarrow>
                    (jsonErr 500 (''restore fallido: '' @ txt e),
                     admin_audit ''bd_restore_error'' r [] (txt e) a, Some s')
                | (Inr counts, s') \<Rightarrow>
                    (writeJSON 200 (JObj
                       [(''ok'', JBool True),
                        (''restored'', JObj (map (\<lambda>(k, n). (k, JInt (int n))) (sort_key fst counts)))]),
                     a\<lparr>ad_panel := audit_log ''bd_restaurada'' [] [] (Base (TrimSpace name)) (ad_panel a)\<rparr>,
                     Some s'))))"

definition handleStorageDelete ::
  "fsio \<Rightarrow> (file_error \<Rightarrow> string) \<Rightarrow> request \<Rightarrow>
   Admin \<times> storage option \<Rightarrow> response \<times> Admin \<times> storage option" where
  "handleStorageDelete x txt r as =
     (case as of
        (a, None) \<Rightarrow> (jsonErr 400 ''la eliminacion requiere storage.backend=postgres'', as)
      | (a, Some s) \<Rightarrow>
          (case decodeJSON r (one_field ''file'') [] of
             Inl e \<Rightarrow> (writeDecodeErr e, as)
           | Inr name \<Rightarrow>
               (case bdDelete x name s of
                  (Some e, s') \<Rightarrow> (jsonErr 500 (txt e), a, Some s')
                | (None, s') \<Rightarrow>
                    (writeJSON 200 JOk, admin_audit ''bd_backup_deleted'' r [] name a, Some s'))))"

text \<open>As \<open>e_other\<close> of \<open>AdminRoutes\<close> has it, they do nothing to the panel but log.\<close>

lemma storage_handlers_log:
  "\<exists>es. fst (snd (handleStorageBackup tc x srt keep q txt r (a, so))) = logged es a"
  "\<exists>es. fst (snd (handleStorageRestore tc x online txt r (a, so))) = logged es a"
  "\<exists>es. fst (snd (handleStorageDelete x txt r (a, so))) = logged es a"
  unfolding handleStorageBackup_def handleStorageRestore_def handleStorageDelete_def
  using logged_entry by (auto split: option.split sum.split prod.split)

section \<open>Names and listings\<close>

definition newest_first :: "file_order \<Rightarrow> bool" where
  "newest_first srt \<longleftrightarrow>
     (\<forall>l. mset (srt l) = mset l \<and> sorted_wrt (\<lambda>a b. bi_Modified b \<le> bi_Modified a) (srt l))"

text \<open>An operating system that does as it is told.\<close>

definition files_work :: "fsio \<Rightarrow> bool" where
  "files_work x \<longleftrightarrow> fs_mkdir x \<and> fs_write x = Written \<and> fs_rename x \<and> fs_readdir x \<and>
     fs_stat x = (\<lambda>n. True) \<and> fs_remove x = (\<lambda>n. True) \<and> fs_read x = (\<lambda>n. True)"

lemma Ext_json [simp]: "Ext (p @ ''.json'') = ''.json''"
  by (simp add: Ext_def)

lemma Ext_tmp [simp]: "Ext (p @ ''.json.tmp'') = ''.tmp''"
  by (simp add: Ext_def)

lemma Base_plain: "CHR ''/'' \<notin> set n \<Longrightarrow> n \<noteq> [] \<Longrightarrow> Base n = n"
proof -
  assume a: "CHR ''/'' \<notin> set n" "n \<noteq> []"
  then have "dropWhile ((=) CHR ''/'') (rev n) = rev n" 
    using last_in_set [of n] by (auto simp: dropWhile_eq_self_iff hd_rev)
  moreover have "takeWhile ((\<noteq>) CHR ''/'') (rev n) = rev n" using a by (auto simp: takeWhile_eq_all_conv)
  ultimately show ?thesis using a unfolding Base_def Let_def by (metis rev_is_Nil_conv rev_rev_ident)
qed

lemma Base_no_slash: "Base n \<noteq> ''/'' \<Longrightarrow> CHR ''/'' \<notin> set (Base n)"
  by (auto simp: Base_def Let_def dest: set_takeWhileD split: if_splits)

definition infos :: "fsio \<Rightarrow> bdir \<Rightarrow> BackupInfo list" where
  "infos x d = List.map_filter (file_info x) (sort_key fst (entries d))"

lemma file_info_name: "file_info x e = Some i \<Longrightarrow> bi_File i = fst e"
  by (auto simp: file_info_def split: dirent.splits if_splits)

lemma infos_names: "map bi_File (infos x d) = map fst (filter (\<lambda>e. file_info x e \<noteq> None) (sort_key fst (entries d)))"
proof -
  have "map bi_File (List.map_filter (file_info x) es) = map fst (filter (\<lambda>e. file_info x e \<noteq> None) es)" for es
    by (induction es) (auto simp: List.map_filter_def file_info_name)
  then show ?thesis by (simp add: infos_def)
qed

lemma distinct_names: "distinct (map fst es) \<Longrightarrow> distinct (map fst (sort_key fst es))"
  by (metis mset_map mset_sort mset_eq_imp_distinct_iff)

lemma distinct_infos: "distinct (map fst (entries d)) \<Longrightarrow> distinct (map bi_File (infos x d))"
  unfolding infos_names by (simp add: distinct_map_filter distinct_names)

text \<open>Leaving out entries by name leaves them out of the listing.\<close>

lemma map_filter_names:
  "List.map_filter (file_info x) (filter (\<lambda>e. P (fst e)) es) =
     filter (\<lambda>i. P (bi_File i)) (List.map_filter (file_info x) es)"
  by (induction es) (auto simp: List.map_filter_def file_info_name)

lemma infos_filter:
  "entries d' = filter (\<lambda>e. P (fst e)) (entries d) \<Longrightarrow> infos x d' = filter (\<lambda>i. P (bi_File i)) (infos x d)"
  by (simp add: infos_def map_filter_names [symmetric] filter_sort)

lemma entries_Some [simp]: "entries (Some es) = es"
  by (simp add: entries_def)

lemma delete_filter: "AList.delete k es = filter (\<lambda>e. fst e \<noteq> k) es"
  by (induction es) auto

lemma removed_files:
  assumes "fs_remove x = (\<lambda>n. True)"
  shows "entries (fold (\<lambda>i d. snd (remove_file x (bi_File i) d)) l d) =
     filter (\<lambda>e. fst e \<notin> bi_File ` set l) (entries d)"
proof (induction l arbitrary: d)
  case (Cons i l)
  have one: "entries (snd (remove_file x (bi_File i) d)) = filter (\<lambda>e. fst e \<noteq> bi_File i) (entries d)"
    using assms by (force simp: remove_file_def delete_filter intro: filter_True [symmetric])
  show ?case unfolding fold_simps Cons.IH one by (auto simp: filter_filter intro: filter_cong)
qed simp

lemma filter_taken:
  "distinct (map f l) \<Longrightarrow> filter (\<lambda>i. f i \<notin> f ` set (drop k l)) l = take k l"
proof -
  assume d: "distinct (map f l)"
  then have "distinct (map f (take k l @ drop k l))" by simp
  then have "f ` set (take k l) \<inter> f ` set (drop k l) = {}" by (simp only: map_append distinct_append set_map)
  then have "filter (\<lambda>i. f i \<notin> f ` set (drop k l)) (take k l @ drop k l) = take k l"
    by (subst filter_append) (auto intro!: filter_True filter_False simp: disjoint_iff)
  then show ?thesis by simp
qed

lemma pruned:
  assumes "newest_first srt" "files_work x" "distinct (map fst (entries d))" "0 < keep"
  defines "l \<equiv> ListBackupFiles x srt d"
  shows "entries (PruneBackupFiles x srt keep d) =
      filter (\<lambda>e. fst e \<notin> bi_File ` set (drop (nat keep) l)) (entries d)" (is ?files)
    and "mset (infos x (PruneBackupFiles x srt keep d)) = mset (take (nat keep) l)" (is ?infos)
proof -
  have l: "l = srt (infos x d)" using assms(2) by (simp add: l_def ListBackupFiles_def files_work_def infos_def)
  then have m: "mset l = mset (infos x d)" using assms(1) by (simp add: newest_first_def)
  then have d: "distinct (map bi_File l)"
    using distinct_infos [OF assms(3)] by (metis mset_map mset_eq_imp_distinct_iff)
  show ?files
    using assms(2,4) removed_files [of x] by (simp add: PruneBackupFiles_def l_def files_work_def)
  then have "infos x (PruneBackupFiles x srt keep d) =
      filter (\<lambda>i. bi_File i \<notin> bi_File ` set (drop (nat keep) l)) (infos x d)"
    by (rule infos_filter)
  also have "mset \<dots> = mset (filter (\<lambda>i. bi_File i \<notin> bi_File ` set (drop (nat keep) l)) l)"
    by (simp add: m)
  finally show ?infos by (simp add: filter_taken [OF d])
qed

lemma listed: "newest_first srt \<Longrightarrow> fs_readdir x \<Longrightarrow> set (ListBackupFiles x srt d) = set (infos x d)"
  by (simp add: ListBackupFiles_def infos_def newest_first_def) (metis mset_eq_setD)

lemma infos_iff:
  "i \<in> set (infos x d) \<longleftrightarrow> (\<exists>e \<in> set (entries d). file_info x e = Some i)"
  by (force simp: infos_def map_filter_def)

text \<open>What a copy that could be written leaves, before old ones are removed.\<close>

lemma written:
  assumes "files_work x"
  shows "WriteBackupFile x data d = (Inr (backup_name x),
     Some (AList.update (backup_name x) (PlainFile data (fs_now x)) (AList.delete (backup_name x @ ''.tmp'') (entries d))))"
  using assms by (simp add: WriteBackupFile_def files_work_def Let_def)

definition older_than :: "time \<Rightarrow> bdir \<Rightarrow> bool" where
  "older_than now d \<longleftrightarrow> distinct (map fst (entries d)) \<and> (\<forall>n c t. (n, PlainFile c t) \<in> set (entries d) \<longrightarrow> t < now)"

lemma written_entries:
  assumes "older_than (fs_now x) d" and
    "es = AList.update (backup_name x) (PlainFile data (fs_now x)) (AList.delete (backup_name x @ ''.tmp'') (entries d))"
  shows "distinct (map fst es)" "map_of es (backup_name x) = Some (PlainFile data (fs_now x))"
    "(n, PlainFile c t) \<in> set es \<Longrightarrow> n = backup_name x \<or> t < fs_now x"
proof -
  let ?del = "AList.delete (backup_name x @ ''.tmp'') (entries d)"
  have d: "distinct (map fst ?del)"
    using assms(1) by (simp add: older_than_def delete_filter distinct_map_filter)
  then show dist: "distinct (map fst es)" using assms(2) by (simp add: distinct_update)
  show "map_of es (backup_name x) = Some (PlainFile data (fs_now x))" by (simp add: assms(2) update_Some_unfold)
  assume m: "(n, PlainFile c t) \<in> set es"
  with dist have "map_of es n = Some (PlainFile c t)" by simp
  then have "n = backup_name x \<or> map_of ?del n = Some (PlainFile c t)"
    by (auto simp: assms(2) update_Some_unfold)
  then show "n = backup_name x \<or> t < fs_now x"
    using assms(1) by (auto simp: older_than_def delete_filter dest!: map_of_SomeD)
qed

text \<open>The new file is the first of the listing.\<close>

lemma newest_is_new:
  assumes "newest_first srt" "files_work x" "older_than (fs_now x) d"
    and "d' = snd (WriteBackupFile x data d)"
  shows "\<exists>l. ListBackupFiles x srt d' =
     \<lparr>bi_File = backup_name x, bi_Size = int (length data), bi_Modified = fs_now x\<rparr> # l"
proof -
  let ?new = "\<lparr>bi_File = backup_name x, bi_Size = int (length data), bi_Modified = fs_now x\<rparr>"
  let ?l = "ListBackupFiles x srt d'"
  note es = written_entries [OF assms(3) refl, where data = data]
  have d': "entries d' = AList.update (backup_name x) (PlainFile data (fs_now x))
      (AList.delete (backup_name x @ ''.tmp'') (entries d))"
    using assms(4) written [OF assms(2)] by simp
  have set: "set ?l = set (infos x d')" using assms(1,2) by (simp add: listed files_work_def)
  have "file_info x (backup_name x, PlainFile data (fs_now x)) = Some ?new"
    using assms(2) Ext_json [of "''pxproxy-bd-'' @ fs_stamp x"] by (simp add: file_info_def files_work_def backup_name_def)
  moreover have "(backup_name x, PlainFile data (fs_now x)) \<in> set (entries d')"
    unfolding d' by (rule map_of_SomeD) (rule es(2))
  ultimately have new: "?new \<in> set ?l" unfolding set infos_iff by blast
  then obtain h l where l: "?l = h # l" by (cases ?l) auto
  have "sorted_wrt (\<lambda>a b. bi_Modified b \<le> bi_Modified a) ?l"
    using assms(1,2) by (simp add: newest_first_def ListBackupFiles_def files_work_def)
  then have first: "fs_now x \<le> bi_Modified h" using new unfolding l by auto
  have "h \<in> set (infos x d')" using set l by auto
  then obtain e where e: "e \<in> set (entries d')" "file_info x e = Some h" unfolding infos_iff by blast
  moreover obtain n y where "e = (n, y)" by (cases e)
  ultimately obtain c t where n: "e = (n, PlainFile c t)" "h = \<lparr>bi_File = n, bi_Size = int (length c), bi_Modified = t\<rparr>"
    by (cases y) (auto simp: file_info_def split: if_splits)
  have "n = backup_name x" using es(3) [of n c t] e(1) n first unfolding d' by auto
  moreover have "map_of (entries d') n = Some (PlainFile c t)" using e(1) n(1) es(1) unfolding d' by simp
  ultimately have "h = ?new" using es(2) n(2) unfolding d' by simp
  with l show ?thesis by simp
qed

lemma not_listed:
  assumes "distinct (map fst (entries d))" "e \<in> set (entries d)" "file_info x e = None"
  shows "fst e \<notin> bi_File ` set (infos x d)"
proof
  assume "fst e \<in> bi_File ` set (infos x d)"
  then obtain i where i: "i \<in> set (infos x d)" "bi_File i = fst e" by auto
  then obtain e' where e': "e' \<in> set (entries d)" "file_info x e' = Some i" unfolding infos_iff by blast
  have "fst e' = fst e" using i(2) file_info_name [OF e'(2)] by simp
  then have "e' = e" using assms(1,2) e'(1) by (simp add: distinct_map inj_on_def)
  with e'(2) assms(3) show False by simp
qed

lemma map_of_kept: "P k \<Longrightarrow> map_of (filter (\<lambda>e. P (fst e)) es) k = map_of es k"
  by (induction es) auto

lemma new_copy_kept:
  assumes "newest_first srt" "files_work x" "older_than (fs_now x) d" "0 < keep"
    and "d1 = snd (WriteBackupFile x data d)" "d2 = PruneBackupFiles x srt keep d1"
  shows "read_file x (backup_name x) d2 = Some data"
proof -
  let ?l = "ListBackupFiles x srt d1" and ?k = "nat keep"
  note es = written_entries [OF assms(3) refl, where data = data]
  have d1: "entries d1 = AList.update (backup_name x) (PlainFile data (fs_now x))
      (AList.delete (backup_name x @ ''.tmp'') (entries d))"
    using assms(5) written [OF assms(2)] by simp
  have dist: "distinct (map fst (entries d1))" unfolding d1 by (rule es(1))
  obtain l' where new: "?l = \<lparr>bi_File = backup_name x, bi_Size = int (length data), bi_Modified = fs_now x\<rparr> # l'"
    using newest_is_new [OF assms(1-3,5)] by blast
  have "mset ?l = mset (infos x d1)"
    using assms(1,2) by (simp add: ListBackupFiles_def infos_def newest_first_def files_work_def)
  then have "distinct (map bi_File ?l)"
    using distinct_infos [OF dist] by (metis mset_map mset_eq_imp_distinct_iff)
  then have "backup_name x \<notin> bi_File ` set (drop ?k ?l)"
    using new assms(4) set_drop_subset [of "?k - 1" l'] by (cases ?k) auto
  then have "map_of (entries d2) (backup_name x) = map_of (entries d1) (backup_name x)"
    unfolding pruned(1) [OF assms(1,2) dist assms(4), folded assms(6)] by (rule map_of_kept)
  then show ?thesis using es(2) assms(2) unfolding d1 by (simp add: read_file_def files_work_def)
qed

section \<open>Properties\<close>

text \<open>
  C33: A new copy is kept and old ones go: after a copy and the pruning that follows, the new file is
  there, there are as many copies as were before and the new one, but at most the number to keep, no
  copy removed is newer than one kept, and files that are no copies are left alone.
\<close>

theorem backup_retention:
  assumes "newest_first srt" "files_work x" "older_than (fs_now x) d" "0 < keep"
    and "d1 = snd (WriteBackupFile x data d)" "d2 = PruneBackupFiles x srt keep d1"
  shows "read_file x (backup_name x) d2 = Some data \<and>
     length (ListBackupFiles x srt d2) = min (nat keep) (length (ListBackupFiles x srt d1)) \<and>
     (\<forall>i \<in> set (ListBackupFiles x srt d2). \<forall>j \<in> set (ListBackupFiles x srt d1) - set (ListBackupFiles x srt d2).
      bi_Modified j \<le> bi_Modified i) \<and>
     filter (\<lambda>e. file_info x e = None) (entries d2) = filter (\<lambda>e. file_info x e = None) (entries d1)"
proof (intro conjI)
  let ?l = "ListBackupFiles x srt d1" and ?k = "nat keep"
  note es = written_entries [OF assms(3) refl, where data = data]
  have d1: "entries d1 = AList.update (backup_name x) (PlainFile data (fs_now x))
      (AList.delete (backup_name x @ ''.tmp'') (entries d))"
    using assms(5) written [OF assms(2)] by simp
  have dist: "distinct (map fst (entries d1))" unfolding d1 by (rule es(1))
  note p = pruned [OF assms(1,2) dist assms(4), folded assms(6)]
  have l: "mset ?l = mset (infos x d1)" "sorted_wrt (\<lambda>a b. bi_Modified b \<le> bi_Modified a) ?l"
    "mset (ListBackupFiles x srt d2) = mset (infos x d2)"
    using assms(1,2) by (simp_all add: ListBackupFiles_def infos_def newest_first_def files_work_def)
  have l2: "mset (ListBackupFiles x srt d2) = mset (take ?k ?l)" using p(2) l(3) by simp
  then show "length (ListBackupFiles x srt d2) = min ?k (length ?l)" by (metis length_take min.commute mset_eq_length)
  have "sorted_wrt (\<lambda>a b. bi_Modified b \<le> bi_Modified a) (take ?k ?l @ drop ?k ?l)" using l(2) by simp
  then have "bi_Modified j \<le> bi_Modified i" if "i \<in> set (take ?k ?l)" "j \<in> set (drop ?k ?l)" for i j
    using that unfolding sorted_wrt_append by blast
  moreover have "j \<in> set (drop ?k ?l)" if "j \<in> set ?l" "j \<notin> set (take ?k ?l)" for j
    using that by (metis Un_iff append_take_drop_id set_append)
  ultimately show "\<forall>i \<in> set (ListBackupFiles x srt d2). \<forall>j \<in> set ?l - set (ListBackupFiles x srt d2).
      bi_Modified j \<le> bi_Modified i"
    using mset_eq_setD [OF l2] by blast
  have "bi_File ` set (drop ?k ?l) \<subseteq> bi_File ` set (infos x d1)"
    using mset_eq_setD [OF l(1)] set_drop_subset by fastforce
  then have "fst e \<notin> bi_File ` set (drop ?k ?l)" if "e \<in> set (entries d1)" "file_info x e = None" for e
    using not_listed [OF dist that] by blast
  then show "filter (\<lambda>e. file_info x e = None) (entries d2) = filter (\<lambda>e. file_info x e = None) (entries d1)"
    unfolding p(1) filter_filter by (intro filter_cong [OF refl]) auto
  show "read_file x (backup_name x) d2 = Some data" using assms by (rule new_copy_kept)
qed

text \<open>
  C34: The panel deletes copies only: whatever name is sent, the file that goes is an entry of the
  directory of the copies itself, with the extension \<open>.json\<close>, and every other entry and the database
  are left alone.
\<close>

theorem delete_confined:
  assumes "bdDelete x name s = (e, s')" "s' \<noteq> s"
  shows "\<exists>f. CHR ''/'' \<notin> set f \<and> Ext f = ''.json'' \<and> f \<in> fst ` set (entries (so_dir s)) \<and>
     entries (so_dir s') = filter (\<lambda>y. fst y \<noteq> f) (entries (so_dir s)) \<and> so_db s' = so_db s"
proof -
  let ?f = "Base (TrimSpace name)"
  have ok: "\<not> bad_name ?f" using assms by (auto simp: bdDelete_def Let_def)
  then have slash: "CHR ''/'' \<notin> set ?f" using Base_no_slash [of "TrimSpace name"] by (auto simp: bad_name_def)
  moreover have "?f \<noteq> []" using ok by (auto simp: bad_name_def Ext_def)
  ultimately have "Base ?f = ?f" by (rule Base_plain)
  then have d: "bdDelete x name s =
      (case remove_file x ?f (so_dir s) of (ok, d) \<Rightarrow> (if ok then None else Some FileSystem, s\<lparr>so_dir := d\<rparr>))"
    using ok by (simp add: bdDelete_def Let_def DeleteBackupFile_def split: prod.split)
  have "?f \<in> fst ` set (entries (so_dir s)) \<and> fs_remove x ?f"
    using assms unfolding d by (auto simp: remove_file_def split: if_splits)
  then show ?thesis
    using assms slash ok unfolding d by (auto simp: remove_file_def bad_name_def delete_filter intro!: exI [of _ ?f])
qed

text \<open>
  C32: A copy the panel makes can be restored through the panel, by the name it answered: afterwards the
  database holds what was copied, whatever has been written to it in between.
\<close>

theorem copy_restores:
  assumes "newest_first srt" "files_work x" "files_work y" "older_than (fs_now x) (so_dir s)"
    and "list_all (\<lambda>c. c \<noteq> CHR ''/'') (fs_stamp x)"
    and "db_ok tc d" "tc_read tc (tc_go tc (fs_now x)) = Some (fs_now x)"
    and "bdBackup tc x srt keep (Some d, Some d, Some d) s = (res, s')"
  shows "\<exists>name counts. res = Inr (name, counts) \<and>
     so_db (snd (bdRestore tc y True name (s'\<lparr>so_db := e\<rparr>))) = restored (fs_now y) d"
proof -
  obtain data where data: "SnapshotToJSON tc (fs_now x) (Some d) (Some d) (Some d) = Some data"
    by (auto simp: SnapshotToJSON_def Backup_eq)
  let ?n = "backup_name x" and ?d1 = "snd (WriteBackupFile x data (so_dir s))"
  have slash: "CHR ''/'' \<notin> set ?n" using assms(5) by (auto simp: backup_name_def list_all_iff)
  have n: "Base ?n = ?n" "TrimSpace ?n = ?n" "\<not> bad_name ?n"
    using Base_plain [OF slash] Ext_json [of "''pxproxy-bd-'' @ fs_stamp x"]
    by (auto simp: backup_name_def bad_name_def TrimSpace_def is_space_def)
  have "read_file x ?n (PruneBackupFiles x srt keep ?d1) = Some data"
  proof (cases "0 < keep")
    case True
    then show ?thesis by (rule new_copy_kept [OF assms(1,2,4) _ refl refl])
  next
    case False
    then show ?thesis
      using written [OF assms(2), of data "so_dir s"] written_entries(2) [OF assms(4) refl, where data = data] assms(2)
      by (simp add: PruneBackupFiles_def read_file_def files_work_def)
  qed
  then have "read_file y ?n (PruneBackupFiles x srt keep ?d1) = Some data"
    using assms(2,3) by (auto simp: read_file_def files_work_def split: option.splits dirent.splits)
  moreover have "res = Inr (?n, counts_of tc data)" "so_dir s' = PruneBackupFiles x srt keep ?d1"
    using assms(8) written [OF assms(2), of data "so_dir s"] by (auto simp: bdBackup_def data n)
  ultimately show ?thesis
    using restored_copy [OF assms(6,7) data, of "fs_now y" e]
    by (auto simp: bdRestore_def n Let_def split: prod.split sum.split)
qed

section \<open>Concrete instances\<close>

definition by_age :: file_order where
  "by_age = sort_key (\<lambda>i. - bi_Modified i)"

lemma by_age_newest: "newest_first by_age"
  unfolding newest_first_def by_age_def
  by (auto simp: sorted_wrt_map [symmetric] sorted_sort_key)
    (metis (mono_tags, lifting) neg_le_iff_le sorted_map sorted_sort_key sorted_wrt_mono_rel)

definition good_fs :: fsio where
  "good_fs = \<lparr>fs_now = 9, fs_stamp = ''20260102-150405.000'', fs_mkdir = True, fs_write = Written, fs_rename = True,
     fs_readdir = True, fs_stat = (\<lambda>n. True), fs_remove = (\<lambda>n. True), fs_read = (\<lambda>n. True)\<rparr>"

definition two_copies :: bdir where
  "two_copies = Some [(''a.json'', PlainFile ''{}'' 3), (''b.json'', PlainFile ''{}'' 5)]"

lemma good_fs_sel [simp]:
  "files_work good_fs" "fs_now good_fs = 9" "list_all (\<lambda>c. c \<noteq> CHR ''/'') (fs_stamp good_fs)"
  by (simp_all add: files_work_def good_fs_def)

lemma two_copies_older: "older_than 9 two_copies"
  by (auto simp: older_than_def two_copies_def)

theorem backup_retention_witness:
  "length (ListBackupFiles good_fs by_age
     (PruneBackupFiles good_fs by_age 2 (snd (WriteBackupFile good_fs ''data'' two_copies)))) \<le> 2"
  using backup_retention [of by_age good_fs two_copies 2, OF by_age_newest _ _ _ refl refl, of "''data''"]
    two_copies_older by simp

theorem delete_confined_witness:
  "snd (bdDelete good_fs ''../../a.json'' \<lparr>so_db = blank_db, so_dir = two_copies\<rparr>) \<noteq>
     \<lparr>so_db = blank_db, so_dir = two_copies\<rparr> \<and>
   so_db (snd (bdDelete good_fs ''../../a.json'' \<lparr>so_db = blank_db, so_dir = two_copies\<rparr>)) = blank_db"
proof -
  let ?s = "\<lparr>so_db = blank_db, so_dir = two_copies\<rparr>"
  have n: "Base (TrimSpace ''../../a.json'') = ''a.json''" "Base ''a.json'' = ''a.json''" "Ext ''a.json'' = ''.json''"
    by code_simp+
  have "bdDelete good_fs ''../../a.json'' ?s = (None, ?s\<lparr>so_dir := Some [(''b.json'', PlainFile ''{}'' 5)]\<rparr>)"
    by (simp add: bdDelete_def n Let_def DeleteBackupFile_def bad_name_def remove_file_def two_copies_def good_fs_def)
  moreover from this have "snd (bdDelete good_fs ''../../a.json'' ?s) \<noteq> ?s" by (simp add: two_copies_def)
  ultimately show ?thesis using delete_confined [of good_fs "''../../a.json''" ?s None] by auto
qed

theorem copy_restores_witness:
  "\<exists>name counts s'. bdBackup plain_codec good_fs by_age 2 (Some sample_db, Some sample_db, Some sample_db)
       \<lparr>so_db = sample_db, so_dir = two_copies\<rparr> = (Inr (name, counts), s') \<and>
     so_db (snd (bdRestore plain_codec good_fs True name (s'\<lparr>so_db := blank_db\<rparr>))) = restored 9 sample_db"
proof -
  obtain res s' where b: "bdBackup plain_codec good_fs by_age 2 (Some sample_db, Some sample_db, Some sample_db)
      \<lparr>so_db = sample_db, so_dir = two_copies\<rparr> = (res, s')" by (metis surj_pair)
  show ?thesis
    using copy_restores [OF by_age_newest good_fs_sel(1) good_fs_sel(1) _ good_fs_sel(3) sample_db_ok _ b, of blank_db]
      two_copies_older time_9 b by auto
qed

end
