(* ===== verification/Metrics.thy ===== *)
theory Metrics
  imports Decimal "HOL-Library.Word"
begin

text \<open>
  The counters of \<open>internal/metrics/metrics.go\<close> and the text they are exposed as. The counters are
  words of their width. The maps are written in no particular order, so the order of the keys is an
  argument of the text, and so are the readings of the runtime; floating point (\<open>ftoa\<close>) is not
  modelled: what it writes for a quotient of two counters is an argument.
\<close>

section \<open>The counters\<close>

record Metrics =
  mt_requestTotal :: "string \<rightharpoonup> 64 word"
  mt_requestDurationNs :: "string \<rightharpoonup> 64 word"
  mt_requestCount :: "string \<rightharpoonup> 64 word"
  mt_activeConns :: "64 word"
  mt_backendOk :: bool
  mt_backendVersion :: string
  mt_upstreamHealth :: "string \<rightharpoonup> bool"

definition NewMetrics :: Metrics where
  "NewMetrics =
     \<lparr>mt_requestTotal = Map.empty, mt_requestDurationNs = Map.empty, mt_requestCount = Map.empty,
      mt_activeConns = 0, mt_backendOk = False, mt_backendVersion = [], mt_upstreamHealth = Map.empty\<rparr>"

text \<open>A counter that is to be added to but is not there is a nil pointer, a run-time panic (\<open>None\<close>).\<close>

definition add_counter :: "string \<Rightarrow> 64 word \<Rightarrow> (string \<rightharpoonup> 64 word) \<Rightarrow> (string \<rightharpoonup> 64 word) option" where
  "add_counter k n m = (case m k of None \<Rightarrow> None | Some v \<Rightarrow> Some (m(k \<mapsto> v + n)))"

definition RecordRequest :: "string \<Rightarrow> string \<Rightarrow> string \<Rightarrow> duration \<Rightarrow> Metrics \<Rightarrow> Metrics option" where
  "RecordRequest meth path status dur m =
     (let key = meth @ '' '' @ path;
          m = (if mt_requestTotal m key = None
               then m\<lparr>mt_requestTotal := (mt_requestTotal m)(key \<mapsto> 0),
                      mt_requestDurationNs := (mt_requestDurationNs m)(key \<mapsto> 0),
                      mt_requestCount := (mt_requestCount m)(key \<mapsto> 0)\<rparr>
               else m)
      in case add_counter key 1 (mt_requestTotal m) of
           None \<Rightarrow> None
         | Some t \<Rightarrow>
             (case add_counter key (word_of_int dur) (mt_requestDurationNs m) of
                None \<Rightarrow> None
              | Some d \<Rightarrow>
                  (case add_counter key 1 (mt_requestCount m) of
                     None \<Rightarrow> None
                   | Some c \<Rightarrow> Some (m\<lparr>mt_requestTotal := t, mt_requestDurationNs := d, mt_requestCount := c\<rparr>))))"

definition IncActiveConns :: "Metrics \<Rightarrow> Metrics" where
  "IncActiveConns m = m\<lparr>mt_activeConns := mt_activeConns m + 1\<rparr>"

definition DecActiveConns :: "Metrics \<Rightarrow> Metrics" where
  "DecActiveConns m = m\<lparr>mt_activeConns := mt_activeConns m - 1\<rparr>"

definition SetBackendOk :: "bool \<Rightarrow> Metrics \<Rightarrow> Metrics" where
  "SetBackendOk v m = m\<lparr>mt_backendOk := v\<rparr>"

definition SetBackendVersion :: "string \<Rightarrow> Metrics \<Rightarrow> Metrics" where
  "SetBackendVersion v m = m\<lparr>mt_backendVersion := v\<rparr>"

definition SetUpstreamHealth :: "(string \<rightharpoonup> bool) \<Rightarrow> Metrics \<Rightarrow> Metrics" where
  "SetUpstreamHealth health m = m\<lparr>mt_upstreamHealth := health\<rparr>"

section \<open>The middleware\<close>

definition NormalizeRoute :: "string \<Rightarrow> string" where
  "NormalizeRoute path =
     (if path = [] then ''/''
      else (let parts = Split path (CHR ''/'')
            in if length parts \<le> 3 then path else Join (take 3 parts) ''/'' @ ''/*''))"

text \<open>
  A request enters, and leaves with the status its handler has written (200 if none) or by a panic.
  Others may come and go between. The writer the handler gets remembers the status.
\<close>

datatype outcome = Answered "int option" | Panicked

definition middleware_enter :: "Metrics \<Rightarrow> Metrics" where
  "middleware_enter = IncActiveConns"

definition middleware_leave :: "string \<Rightarrow> string \<Rightarrow> outcome \<Rightarrow> duration \<Rightarrow> Metrics \<Rightarrow> Metrics option" where
  "middleware_leave meth path out dur m =
     (case out of
        Panicked \<Rightarrow> Some (DecActiveConns m)
      | Answered code \<Rightarrow>
          (let status = (case code of None \<Rightarrow> 200 | Some c \<Rightarrow> c)
           in map_option DecActiveConns
                (RecordRequest meth (NormalizeRoute path) (if 400 \<le> status then ''error'' else ''ok'') dur m)))"

section \<open>The text\<close>

definition escapeMetric :: "string \<Rightarrow> string" where
  "escapeMetric s =
     ReplaceByte (ReplaceByte s (CHR 0x5C) [CHR 0x5C, CHR 0x5C]) (CHR 0x22) [CHR 0x5C, CHR 0x22]"

text \<open>
  The digits of a number are written from the right into 20 bytes; \<open>i\<close> is the place of the last one
  written. A place below 0 is a run-time panic (\<open>None\<close>), as is a loop that does not end.
\<close>

partial_function (option) itoa_loop :: "64 word \<Rightarrow> nat \<Rightarrow> string \<Rightarrow> string option" where
  "itoa_loop n i buf =
     (if n = 0 then Some buf
      else if i = 0 then None
      else itoa_loop (n div 10) (i - 1) (digit (unat (n mod 10)) # buf))"

definition itoa :: "64 word \<Rightarrow> string option" where
  "itoa n = (if n = 0 then Some ''0'' else itoa_loop n 20 [])"

definition nl :: char where "nl = CHR 0x0A"

definition quoted :: "string \<Rightarrow> string" where
  "quoted s = CHR 0x22 # escapeMetric s @ [CHR 0x22]"

definition preamble :: "string \<Rightarrow> string \<Rightarrow> string \<Rightarrow> string" where
  "preamble name about kind = ''# HELP '' @ name @ '' '' @ about @ nl # ''# TYPE '' @ name @ '' '' @ kind @ [nl]"

text \<open>A line for each key, in the order given; \<open>None\<close> from a value is a panic.\<close>

definition series :: "string \<Rightarrow> string \<Rightarrow> (string \<Rightarrow> string option) \<Rightarrow> string list \<Rightarrow> string option" where
  "series name label val keys =
     map_option concat (those (map (\<lambda>k. map_option (\<lambda>v. name @ ''{'' @ label @ ''='' @ quoted k @ ''} '' @ v @ [nl]) (val k)) keys))"

definition gauge :: "string \<Rightarrow> string \<Rightarrow> string option \<Rightarrow> string option" where
  "gauge name about v =
     map_option (\<lambda>v. preamble name about ''gauge'' @ name @ '' '' @ v @ [nl]) v"

record readings =
  rd_order :: "string list"
  rd_upstreams :: "string list"
  rd_avg :: "64 word \<Rightarrow> 64 word \<Rightarrow> string"
  rd_uptime :: string
  rd_alloc :: "64 word"
  rd_sys :: "64 word"
  rd_goroutines :: "64 word"

definition count_at :: "(string \<rightharpoonup> 64 word) \<Rightarrow> string \<Rightarrow> 64 word" where
  "count_at m k = (case m k of None \<Rightarrow> 0 | Some v \<Rightarrow> v)"

definition metrics_text :: "readings \<Rightarrow> Metrics \<Rightarrow> string option" where
  "metrics_text x m =
     map_option concat (those
       [Some (preamble ''pxproxy_requests_total'' ''Total de peticiones por ruta.'' ''counter''),
        series ''pxproxy_requests_total'' ''route'' (\<lambda>k. itoa (count_at (mt_requestTotal m) k)) (rd_order x),
        Some (preamble ''pxproxy_request_duration_seconds'' ''Duracion promedio por ruta.'' ''gauge''),
        series ''pxproxy_request_duration_seconds'' ''route''
          (\<lambda>k. Some (rd_avg x (count_at (mt_requestDurationNs m) k) (count_at (mt_requestCount m) k)))
          (filter (\<lambda>k. count_at (mt_requestCount m) k \<noteq> 0) (rd_order x)),
        gauge ''pxproxy_active_connections'' ''Conexiones activas.'' (itoa (mt_activeConns m)),
        gauge ''pxproxy_storage_ok'' ''Estado del backend PostgreSQL (1=ok, 0=down).''
          (Some (if mt_backendOk m then ''1'' else ''0'')),
        if mt_backendVersion m = [] then Some []
          else Some (preamble ''pxproxy_storage_version_info'' ''Metadata del backend.'' ''gauge'' @
            ''pxproxy_storage_version_info{version='' @ quoted (mt_backendVersion m) @ ''} 1'' @ [nl]),
        gauge ''pxproxy_uptime_seconds'' ''Tiempo de actividad.'' (Some (rd_uptime x)),
        gauge ''pxproxy_memory_alloc_bytes'' ''Memoria allocada.'' (itoa (rd_alloc x)),
        gauge ''pxproxy_memory_sys_bytes'' ''Memoria sistema.'' (itoa (rd_sys x)),
        gauge ''pxproxy_go_goroutines'' ''Goroutines activas.'' (itoa (rd_goroutines x)),
        if rd_upstreams x = [] then Some []
          else map_option ((@) (preamble ''pxproxy_upstream_health'' ''Estado del upstream (1=saludable, 0=down).'' ''gauge''))
            (series ''pxproxy_upstream_health'' ''target''
              (\<lambda>t. Some (if mt_upstreamHealth m t = Some True then ''1'' else ''0'')) (rd_upstreams x))])"

section \<open>Numbers\<close>

lemma itoa_loop_digits:
  "unat n < 10 ^ i \<Longrightarrow> itoa_loop n i buf = Some ((if n = 0 then [] else nat_str (unat n)) @ buf)"
proof (induction i arbitrary: n buf)
  case 0
  then show ?case by (simp add: itoa_loop.simps unat_eq_0 [symmetric])
next
  case (Suc i)
  show ?case
  proof (cases "n = 0")
    case False
    have q: "unat (n div 10) = unat n div 10" "unat (n mod 10) = unat n mod 10"
      by (simp_all add: unat_div unat_mod)
    then have "itoa_loop (n div 10) i (digit (unat n mod 10) # buf) =
        Some ((if n div 10 = 0 then [] else nat_str (unat n div 10)) @ digit (unat n mod 10) # buf)"
      using Suc.IH [of "n div 10"] Suc.prems by simp
    moreover have "n div 10 = 0 \<longleftrightarrow> unat n < 10"
      using q(1) by (metis div_eq_0_iff unat_eq_0 zero_neq_numeral)
    ultimately show ?thesis using False q(2)
      by (subst itoa_loop.simps, subst nat_str.simps) (auto simp: unat_eq_0)
  qed (simp add: itoa_loop.simps)
qed

section \<open>Runs of the middleware\<close>

datatype event = Enter | Leave string string outcome duration

definition middleware_step :: "event \<Rightarrow> Metrics \<Rightarrow> Metrics option" where
  "middleware_step ev m =
     (case ev of
        Enter \<Rightarrow> Some (middleware_enter m)
      | Leave meth path out dur \<Rightarrow> middleware_leave meth path out dur m)"

fun middleware_run :: "event list \<Rightarrow> Metrics \<Rightarrow> Metrics option" where
  "middleware_run [] m = Some m"
| "middleware_run (ev # evs) m = (case middleware_step ev m of None \<Rightarrow> None | Some m' \<Rightarrow> middleware_run evs m')"

text \<open>The times of the requests that were answered, of a route.\<close>

fun route_times :: "string \<Rightarrow> event list \<Rightarrow> duration list" where
  "route_times k [] = []"
| "route_times k (Leave meth path (Answered c) dur # evs) =
     (if meth @ '' '' @ NormalizeRoute path = k then dur # route_times k evs else route_times k evs)"
| "route_times k (ev # evs) = route_times k evs"

definition entered :: "event list \<Rightarrow> nat" where
  "entered evs = length (filter (\<lambda>ev. ev = Enter) evs)"

text \<open>The three maps have the same keys, so no counter is missing when it is added to.\<close>

definition same_keys :: "Metrics \<Rightarrow> bool" where
  "same_keys m \<longleftrightarrow> dom (mt_requestDurationNs m) = dom (mt_requestTotal m) \<and> dom (mt_requestCount m) = dom (mt_requestTotal m)"

lemma RecordRequest_counts:
  assumes "same_keys m"
  shows "\<exists>m'. RecordRequest meth path status dur m = Some m' \<and> same_keys m' \<and> mt_activeConns m' = mt_activeConns m \<and>
     (\<forall>k. let hit = (meth @ '' '' @ path = k)
       in count_at (mt_requestTotal m') k = count_at (mt_requestTotal m) k + (if hit then 1 else 0) \<and>
          count_at (mt_requestCount m') k = count_at (mt_requestCount m) k + (if hit then 1 else 0) \<and>
          count_at (mt_requestDurationNs m') k = count_at (mt_requestDurationNs m) k + (if hit then word_of_int dur else 0))"
proof -
  let ?k = "meth @ '' '' @ path"
  show ?thesis
  proof (cases "mt_requestTotal m ?k")
    case None
    then have "?k \<notin> dom (mt_requestDurationNs m)" "?k \<notin> dom (mt_requestCount m)"
      using assms by (simp_all add: same_keys_def domIff)
    then have "mt_requestDurationNs m ?k = None" "mt_requestCount m ?k = None" by (simp_all add: domIff)
    with None assms show ?thesis
      by (simp add: RecordRequest_def add_counter_def same_keys_def count_at_def Let_def)
  next
    case (Some v)
    then have "?k \<in> dom (mt_requestDurationNs m)" "?k \<in> dom (mt_requestCount m)"
      using assms by (simp_all add: same_keys_def domI)
    then obtain d c where "mt_requestDurationNs m ?k = Some d" "mt_requestCount m ?k = Some c" by blast
    with Some assms show ?thesis
      by (auto simp add: RecordRequest_def add_counter_def same_keys_def count_at_def Let_def)
  qed
qed

definition counts :: "string \<Rightarrow> Metrics \<Rightarrow> 64 word \<times> 64 word \<times> 64 word" where
  "counts k m = (count_at (mt_requestTotal m) k, count_at (mt_requestCount m) k, count_at (mt_requestDurationNs m) k)"

definition plus3 :: "64 word \<times> 64 word \<times> 64 word \<Rightarrow> 64 word \<times> 64 word \<times> 64 word \<Rightarrow> 64 word \<times> 64 word \<times> 64 word" where
  "plus3 x y = (fst x + fst y, fst (snd x) + fst (snd y), snd (snd x) + snd (snd y))"

lemma run_counts:
  assumes "same_keys m"
  shows "\<exists>m'. middleware_run evs m = Some m' \<and> same_keys m' \<and>
     mt_activeConns m' = mt_activeConns m + of_nat (entered evs) - of_nat (length evs - entered evs) \<and>
     (\<forall>k. counts k m' = plus3 (counts k m)
        (of_nat (length (route_times k evs)), of_nat (length (route_times k evs)), word_of_int (sum_list (route_times k evs))))"
  using assms
proof (induction evs arbitrary: m)
  case Nil
  then show ?case by (simp add: entered_def plus3_def counts_def)
next
  case (Cons ev evs)
  have len: "entered evs \<le> length evs" for evs by (simp add: entered_def)
  show ?case
  proof (cases ev)
    case Enter
    have "same_keys (IncActiveConns m)" using Cons.prems by (simp add: same_keys_def IncActiveConns_def)
    from Cons.IH [OF this] show ?thesis
      by (auto simp: Enter middleware_step_def middleware_enter_def IncActiveConns_def entered_def counts_def)
  next
    case (Leave meth path out dur)
    have rest: "length (ev # evs) - entered (ev # evs) = Suc (length evs - entered evs)"
      using Suc_diff_le [OF len [of evs]] by (simp add: Leave entered_def)
    show ?thesis
    proof (cases out)
      case Panicked
      have "same_keys (DecActiveConns m)" using Cons.prems by (simp add: same_keys_def DecActiveConns_def)
      from Cons.IH [OF this] show ?thesis unfolding rest
        by (auto simp: Leave Panicked middleware_step_def middleware_leave_def DecActiveConns_def entered_def counts_def)
    next
      case (Answered code)
      let ?st = "if 400 \<le> (case code of None \<Rightarrow> 200 | Some c \<Rightarrow> c) then ''error'' else ''ok''"
      obtain m1 where m1: "RecordRequest meth (NormalizeRoute path) ?st dur m = Some m1" "same_keys m1"
        "mt_activeConns m1 = mt_activeConns m"
        "\<And>k. counts k m1 = plus3 (counts k m) (if meth @ '' '' @ NormalizeRoute path = k then (1, 1, word_of_int dur) else (0, 0, 0))"
        using RecordRequest_counts [OF Cons.prems, of meth "NormalizeRoute path" ?st dur]
        by (auto simp: Let_def counts_def plus3_def)
      have "same_keys (DecActiveConns m1)" using m1(2) by (simp add: same_keys_def DecActiveConns_def)
      from Cons.IH [OF this] obtain m' where m': "middleware_run evs (DecActiveConns m1) = Some m'" "same_keys m'"
        "mt_activeConns m' = mt_activeConns m1 - 1 + of_nat (entered evs) - of_nat (length evs - entered evs)"
        "\<And>k. counts k m' = plus3 (counts k m1)
          (of_nat (length (route_times k evs)), of_nat (length (route_times k evs)), word_of_int (sum_list (route_times k evs)))"
        by (auto simp: DecActiveConns_def counts_def)
      have "middleware_run (ev # evs) m = Some m'"
        using m1(1) m'(1) by (simp add: Leave Answered middleware_step_def middleware_leave_def Let_def)
      moreover have "counts k m' = plus3 (counts k m)
          (of_nat (length (route_times k (ev # evs))), of_nat (length (route_times k (ev # evs))),
           word_of_int (sum_list (route_times k (ev # evs))))" for k
        by (simp add: Leave Answered m'(4) m1(4) plus3_def)
      ultimately show ?thesis unfolding rest using m'(2,3) m1(3) by (auto simp: Leave entered_def)
    qed
  qed
qed

section \<open>Labels and routes\<close>

text \<open>
  A label value as the exposition format defines it: backslash, quote and line feed are written with a
  backslash, and neither a bare line feed nor the end may come before the closing quote.
\<close>

fun read_label :: "string \<Rightarrow> (string \<times> string) option" where
  "read_label [] = None"
| "read_label (c # cs) =
     (if c = CHR 0x22 then Some ([], cs)
      else if c = nl then None
      else if c = CHR 0x5C then
        (case cs of
           [] \<Rightarrow> None
         | d # ds \<Rightarrow>
             (let x = (if d = CHR ''n'' then nl else d)
              in if d = CHR 0x5C \<or> d = CHR 0x22 \<or> d = CHR ''n''
                 then map_option (\<lambda>(s, r). (x # s, r)) (read_label ds) else None))
      else map_option (\<lambda>(s, r). (c # s, r)) (read_label cs))"

lemma escapeMetric_Cons:
  "escapeMetric (c # s) =
     (if c = CHR 0x5C then [CHR 0x5C, CHR 0x5C] else if c = CHR 0x22 then [CHR 0x5C, CHR 0x22] else [c]) @ escapeMetric s"
  by (simp add: escapeMetric_def ReplaceByte_def)

lemma special_distinct [simp]: "nl \<noteq> CHR 0x22" "nl \<noteq> CHR 0x5C" "CHR 0x22 \<noteq> nl" "CHR 0x5C \<noteq> nl"
  by (simp_all add: nl_def)

section \<open>Properties\<close>

text \<open>
  Writing a counter returns, for every value of its 64 bits, within the twenty bytes of the buffer,
  and gives its decimal digits.
\<close>

theorem itoa_returns: "itoa n = Some (nat_str (unat n))"
proof -
  have "unat n < 10 ^ 20" using unsigned_less [of n] by (rule order.strict_trans2) simp
  moreover have "nat_str 0 = ''0''" by code_simp
  ultimately show ?thesis using itoa_loop_digits [of n 20 "[]"] by (auto simp: itoa_def)
qed

text \<open>
  C37: Whatever requests come and go, in whatever order and however they end, counting them never
  panics; the counters of a route are the number and the total time of the requests answered on it
  (modulo their 64 bits), and the number of open connections is that of the requests that have come
  less those that have gone.
\<close>

theorem requests_counted:
  "\<exists>m. middleware_run evs NewMetrics = Some m \<and>
     mt_activeConns m = of_nat (entered evs) - of_nat (length evs - entered evs) \<and>
     (\<forall>k. count_at (mt_requestTotal m) k = of_nat (length (route_times k evs)) \<and>
          count_at (mt_requestCount m) k = of_nat (length (route_times k evs)) \<and>
          count_at (mt_requestDurationNs m) k = word_of_int (sum_list (route_times k evs)))"
  using run_counts [of NewMetrics evs]
  by (auto simp: same_keys_def NewMetrics_def counts_def plus3_def count_at_def)

text \<open>
  A label is read back as the route it was written for, unless the route holds a line feed: that is
  not escaped, and the line the scraper reads is then not one of the format.
\<close>

theorem label_read_back:
  "read_label (escapeMetric s @ CHR 0x22 # rest) = (if nl \<in> set s then None else Some (s, rest))"
proof (induction s)
  case Nil
  then show ?case by (simp add: escapeMetric_def ReplaceByte_def)
next
  case (Cons c s)
  then show ?case by (auto simp: escapeMetric_Cons)
qed

text \<open>
  Routes are cut to their first two segments: what is left of a long path is a route of its own,
  with at most three slashes.
\<close>

theorem routes_are_short:
  "NormalizeRoute (NormalizeRoute path) = NormalizeRoute path \<and>
   length (Split (NormalizeRoute path) CHR ''/'') \<le> 4"
proof (cases "path = [] \<or> length (Split path CHR ''/'') \<le> 3")
  case True
  then show ?thesis by (auto simp: NormalizeRoute_def Let_def)
next
  case False
  let ?ps = "take 3 (Split path CHR ''/'')"
  have r: "NormalizeRoute path = Join ?ps ''/'' @ ''/*''" using False by (simp add: NormalizeRoute_def Let_def)
  have no: "\<forall>p \<in> set ?ps. CHR ''/'' \<notin> set p" using Split_parts_no_sep in_set_takeD by fastforce
  have l: "length ?ps = 3" using False by simp
  have three: "\<exists>a b c. xs = [a, b, c]" if "length xs = 3" for xs :: "string list"
    using that by (auto simp: numeral_3_eq_3 length_Suc_conv)
  obtain a b c where abc: "?ps = [a, b, c]" using three [OF l] by blast
  let ?q = "a @ CHR ''/'' # b @ CHR ''/'' # c @ ''/*''"
  have "Split ?q CHR ''/'' = [a, b, c, ''*'']" using no unfolding abc by (simp add: Split_append_sep Split_no_sep)
  moreover have "NormalizeRoute path = ?q" using r by (simp add: abc)
  ultimately show ?thesis by (simp add: NormalizeRoute_def [of ?q] Let_def)
qed

end
