(* ===== verification/Cluster.thy ===== *)
theory Cluster
  imports PanelInvariants Metrics
begin

text \<open>
  A node in a cluster: how \<open>main.go\<close> attaches the database at its start and follows it afterwards, by
  the notifications of \<open>WatchChanges\<close> and by a look at the version every 30 seconds.

  The state of a node is that of its panel, with the routing engine and the listeners, and the metrics.
  What the database answers is an argument (\<open>None\<close>: it cannot be reached); \<open>Fleet\<close> takes it from the tables.
\<close>

section \<open>The start\<close>

datatype attach_error = ErrConnect | ErrSetBackend config_error

text \<open>An attempt: whether the connection is made, and what \<open>SetBackend\<close> finds.\<close>

record attempt =
  at_connected :: bool
  at_draws :: draws
  at_io :: io
  at_remote :: remote

definition attachPostgres :: "attempt \<Rightarrow> Store \<Rightarrow> attach_error option \<times> Store" where
  "attachPostgres t st =
     (if \<not> at_connected t then (Some ErrConnect, st)
      else (case SetBackend (at_draws t) (at_io t) (at_remote t) st of
              (Some e, st') \<Rightarrow> (Some (ErrSetBackend e), st')
            | (None, st') \<Rightarrow> (None, st')))"

text \<open>How the program goes on: with the database, in what it calls degraded file mode, or not at all.\<close>

datatype start = Attached Store | Degraded Store | Fatal

fun attach_attempts :: "attempt list \<Rightarrow> Store \<Rightarrow> start" where
  "attach_attempts [] st = Degraded st"
| "attach_attempts (t # ts) st =
     (case attachPostgres t st of
        (None, st') \<Rightarrow> Attached st'
      | (Some e, st') \<Rightarrow> if e = ErrSetBackend ErrKeyMismatch then Fatal else attach_attempts ts st')"

text \<open>\<open>None\<close>: the storage is the file. The three attempts are 2 seconds apart.\<close>

definition start_storage :: "attempt \<times> attempt \<times> attempt \<Rightarrow> Store \<Rightarrow> start option" where
  "start_storage ts st =
     (let sc = cf_Storage (s_cfg st)
      in if EqualFold (TrimSpace (sc_Backend sc)) ''postgres'' \<and> sc_DSN sc \<noteq> []
         then Some (attach_attempts [fst ts, fst (snd ts), snd (snd ts)] st)
         else None)"

section \<open>Following the database\<close>

record node =
  nd_admin :: Admin
  nd_metrics :: Metrics

abbreviation node_store :: "node \<Rightarrow> Store" where
  "node_store n \<equiv> pn_store (ad_panel (nd_admin n))"

definition put_store :: "Store \<Rightarrow> node \<Rightarrow> node" where
  "put_store st n = n\<lparr>nd_admin := (nd_admin n)\<lparr>ad_panel := (ad_panel (nd_admin n))\<lparr>pn_store := st\<rparr>\<rparr>\<rparr>"

text \<open>
  A look at the database: its version, its configuration (empty if there is no row), and the version
  that is read after it (empty if that fails).
\<close>

record look =
  lk_env :: env
  lk_listen :: "string \<Rightarrow> string option"
  lk_version :: "string option"
  lk_load :: "string option"
  lk_current :: string

definition apply_streams :: "look \<Rightarrow> Admin \<Rightarrow> Admin" where
  "apply_streams k a =
     (case ad_streams a of
        Some (Some m) \<Rightarrow> a\<lparr>ad_streams := Some (Some (Apply (lk_listen k) (cf_StreamRules (admin_cfg a)) m))\<rparr>
      | _ \<Rightarrow> a)"

definition reload_node :: "look \<Rightarrow> node \<Rightarrow> node" where
  "reload_node k n =
     (case lk_load k of
        None \<Rightarrow> put_store (MarkBackend False (node_store n)) n
      | Some data \<Rightarrow>
          if data = [] then n
          else (case ReloadFromBytes (e_draws (lk_env k)) (e_io (lk_env k)) data (node_store n) of
                  (Some e, st) \<Rightarrow> put_store st n
                | (None, st) \<Rightarrow>
                    (let n' = put_store (NoteBackendVersion (lk_current k) st) n;
                         a = apply_streams k (rebuild (lk_env k) (nd_admin n'))
                     in n'\<lparr>nd_admin := snd (admin_reload (lk_env k) a)\<rparr>)))"

definition tick_node :: "look \<Rightarrow> node \<Rightarrow> node" where
  "tick_node k n =
     (case lk_version k of
        None \<Rightarrow>
          (put_store (MarkBackend False (node_store n)) n)\<lparr>nd_metrics := SetBackendOk False (nd_metrics n)\<rparr>
      | Some ver \<Rightarrow>
          (case BackendStatus (node_store n) of (name, ok, cur) \<Rightarrow>
             if cur \<noteq> ver
             then (reload_node k n)\<lparr>nd_metrics := SetBackendVersion ver (nd_metrics n)\<rparr>
             else (put_store (MarkBackend True (node_store n)) n)
                    \<lparr>nd_metrics := SetBackendVersion ver (SetBackendOk True (nd_metrics n))\<rparr>))"

datatype watch = Tick look | Notified look

fun watch_step :: "watch \<Rightarrow> node \<Rightarrow> node" where
  "watch_step (Tick k) n = tick_node k n"
| "watch_step (Notified k) n = reload_node k n"

fun look_of :: "watch \<Rightarrow> look" where
  "look_of (Tick k) = k"
| "look_of (Notified k) = k"

section \<open>Convergence\<close>

text \<open>
  The database does not change any more: it holds \<open>data\<close>, which a node with the key file \<open>kf\<close> reads as
  \<open>c\<close>, in version \<open>ver\<close>. Every look finds that or fails at some point.
\<close>

definition steady :: "string \<Rightarrow> string \<Rightarrow> keyfile \<Rightarrow> Config \<Rightarrow> url_parser \<Rightarrow> look \<Rightarrow> bool" where
  "steady data ver kf c up k \<longleftrightarrow>
     lk_version k \<in> {None, Some ver} \<and> lk_load k \<in> {None, Some data} \<and> lk_current k \<in> {[], ver} \<and>
     decodeConfig (e_draws (lk_env k)) data kf = (Inr c, kf) \<and> draws_ok (e_draws (lk_env k)) kf \<and>
     e_url (lk_env k) = up"

text \<open>A look that gets all it asks for, and a local file that can be written.\<close>

definition clear :: "look \<Rightarrow> bool" where
  "clear k \<longleftrightarrow> lk_version k \<noteq> None \<and> lk_load k \<noteq> None \<and> lk_current k \<noteq> [] \<and> io_local (e_io (lk_env k))"

definition waiting :: "string \<Rightarrow> keyfile \<Rightarrow> node \<Rightarrow> bool" where
  "waiting ver kf n \<longleftrightarrow> s_key (node_store n) = kf \<and> s_backend (node_store n) \<noteq> None \<and> s_lastVer (node_store n) \<noteq> ver"

definition caught_up :: "string \<Rightarrow> keyfile \<Rightarrow> Config \<Rightarrow> url_parser \<Rightarrow> node \<Rightarrow> bool" where
  "caught_up ver kf c up n \<longleftrightarrow> s_key (node_store n) = kf \<and> s_backend (node_store n) \<noteq> None \<and>
     s_lastVer (node_store n) = ver \<and> admin_cfg (nd_admin n) = c \<and> in_sync up (nd_admin n)"

lemma put_store_sel [simp]:
  "node_store (put_store st n) = st" "ad_engine (nd_admin (put_store st n)) = ad_engine (nd_admin n)"
  "nd_metrics (put_store st n) = nd_metrics n"
  by (simp_all add: put_store_def)

lemma node_updates_sel [simp]:
  "ad_panel (apply_streams k a) = ad_panel a" "ad_engine (apply_streams k a) = ad_engine a"
  "ad_panel (rebuild e a) = ad_panel a"
  "pn_store (ad_panel (snd (admin_reload e a))) = pn_store (ad_panel a)"
  by (auto simp: apply_streams_def rebuild_def admin_reload_def Reload_def Let_def split: option.split prod.split)

lemma reload_written:
  assumes "decodeConfig (e_draws (lk_env k)) data kf = (Inr c, kf)" "draws_ok (e_draws (lk_env k)) kf"
    and "s_key (node_store n) = kf" "lk_load k = Some data" "data \<noteq> []"
  shows "s_key (node_store (reload_node k n)) = kf"
    and "admin_cfg (nd_admin (reload_node k n)) = c"
    and "s_backend (node_store (reload_node k n)) = s_backend (node_store n)"
    and "s_lastVer (node_store (reload_node k n)) =
      (if io_local (e_io (lk_env k)) \<and> lk_current k \<noteq> [] then lk_current k else s_lastVer (node_store n))"
    and "io_local (e_io (lk_env k)) \<Longrightarrow> in_sync (e_url (lk_env k)) (nd_admin (reload_node k n))"
    and "\<not> io_local (e_io (lk_env k)) \<Longrightarrow> ad_engine (nd_admin (reload_node k n)) = ad_engine (nd_admin n)"
proof -
  let ?st = "(node_store n)\<lparr>s_key := kf, s_cfg := c\<rparr>"
  obtain st where r: "ReloadFromBytes (e_draws (lk_env k)) (e_io (lk_env k)) data (node_store n) =
      (if io_local (e_io (lk_env k)) then None else Some ErrWrite, st)" "s_key st = kf" "s_cfg st = c"
      "s_backend st = s_backend (node_store n)" "s_lastVer st = s_lastVer (node_store n)"
    using assms(1,3) sealSensitive_text [OF assms(2)]
    by (cases "io_local (e_io (lk_env k))") (simp_all add: ReloadFromBytes_def persistLocal_def)
  have sync: "in_sync (e_url (lk_env k)) (snd (admin_reload (lk_env k) (apply_streams k (rebuild (lk_env k) a))))" for a
    using in_sync_rebuild [of "lk_env k" a] by (simp add: in_sync_def)
  show "s_key (node_store (reload_node k n)) = kf" "admin_cfg (nd_admin (reload_node k n)) = c"
    "s_backend (node_store (reload_node k n)) = s_backend (node_store n)"
    "s_lastVer (node_store (reload_node k n)) =
      (if io_local (e_io (lk_env k)) \<and> lk_current k \<noteq> [] then lk_current k else s_lastVer (node_store n))"
    "io_local (e_io (lk_env k)) \<Longrightarrow> in_sync (e_url (lk_env k)) (nd_admin (reload_node k n))"
    "\<not> io_local (e_io (lk_env k)) \<Longrightarrow> ad_engine (nd_admin (reload_node k n)) = ad_engine (nd_admin n)"
    using r assms(4,5) sync by (simp_all add: reload_node_def NoteBackendVersion_def Let_def)
qed

text \<open>A look whose local file can be written keeps the routing table in step, whatever it finds.\<close>

lemma in_sync_put:
  "s_cfg st = admin_cfg (nd_admin n) \<Longrightarrow> in_sync up (nd_admin (put_store st n)) = in_sync up (nd_admin n)"
  by (simp add: in_sync_def)

lemma reload_sync:
  assumes "io_local (e_io (lk_env k))" "in_sync (e_url (lk_env k)) (nd_admin n)"
  shows "in_sync (e_url (lk_env k)) (nd_admin (reload_node k n))"
proof -
  have sync: "in_sync (e_url (lk_env k)) (snd (admin_reload (lk_env k) (apply_streams k (rebuild (lk_env k) a))))" for a
    using in_sync_rebuild [of "lk_env k" a] by (simp add: in_sync_def)
  have "s_cfg st = admin_cfg (nd_admin n)"
    if "ReloadFromBytes (e_draws (lk_env k)) (e_io (lk_env k)) data (node_store n) = (Some err, st)" for data err st
    using that assms(1) by (auto simp: ReloadFromBytes_def persistLocal_def Let_def split: prod.splits sum.splits)
  with sync assms(2) show ?thesis
    by (auto simp: reload_node_def Let_def in_sync_put MarkBackend_def split: option.split prod.split)
qed

lemma watch_sync:
  assumes "io_local (e_io (lk_env (look_of w)))" "in_sync (e_url (lk_env (look_of w))) (nd_admin n)"
  shows "in_sync (e_url (lk_env (look_of w))) (nd_admin (watch_step w n))"
proof (cases w)
  case (Tick k)
  then show ?thesis using assms reload_sync [of k n]
    by (auto simp: tick_node_def in_sync_put MarkBackend_def split: option.split prod.split)
qed (use assms reload_sync in simp)

text \<open>A reload that fails before it has read anything leaves the node as it is.\<close>

lemma reload_nothing:
  "lk_load k = None \<Longrightarrow> reload_node k n = put_store (MarkBackend False (node_store n)) n"
  by (simp add: reload_node_def)

lemma BackendStatus_attached: "s_backend st \<noteq> None \<Longrightarrow> snd (snd (BackendStatus st)) = s_lastVer st"
  by (auto simp: BackendStatus_def)

lemma keeps_state:
  assumes "s_key st' = s_key (node_store n)" "s_backend st' = s_backend (node_store n)"
    and "s_lastVer st' = s_lastVer (node_store n)" "s_cfg st' = s_cfg (node_store n)"
  shows "waiting ver kf (put_store st' n) = waiting ver kf n"
    and "caught_up ver kf c up (put_store st' n) = caught_up ver kf c up n"
  using assms by (simp_all add: waiting_def caught_up_def in_sync_put)

lemma marked_sel:
  "s_key (MarkBackend b st) = s_key st" "s_backend (MarkBackend b st) = s_backend st"
  "s_lastVer (MarkBackend b st) = s_lastVer st" "s_cfg (MarkBackend b st) = s_cfg st"
  by (simp_all add: MarkBackend_def)

lemma metrics_irrelevant [simp]:
  "waiting ver kf (n\<lparr>nd_metrics := m\<rparr>) = waiting ver kf n"
  "caught_up ver kf c up (n\<lparr>nd_metrics := m\<rparr>) = caught_up ver kf c up n"
  by (simp_all add: waiting_def caught_up_def)

lemma marked [simp]:
  "waiting ver kf (put_store (MarkBackend b (node_store n)) n) = waiting ver kf n"
  "caught_up ver kf c up (put_store (MarkBackend b (node_store n)) n) = caught_up ver kf c up n"
  by (rule keeps_state, (rule marked_sel)+)+

lemma reload_progress:
  assumes "steady data ver kf c up k" "data \<noteq> []" "ver \<noteq> []"
  shows "(waiting ver kf n \<longrightarrow> waiting ver kf (reload_node k n) \<or> caught_up ver kf c up (reload_node k n)) \<and>
     (caught_up ver kf c up n \<longrightarrow> caught_up ver kf c up (reload_node k n)) \<and>
     (waiting ver kf n \<longrightarrow> clear k \<longrightarrow> caught_up ver kf c up (reload_node k n))"
proof (cases "lk_load k")
  case None
  then show ?thesis by (simp add: reload_nothing clear_def)
next
  case (Some x)
  note s = assms(1) [unfolded steady_def]
  have x: "lk_load k = Some data" using s Some by auto
  note r = reload_written [of k data kf c n, OF _ _ _ x assms(2)]
  have same: "in_sync up (nd_admin (reload_node k n))"
    if "caught_up ver kf c up n" "\<not> io_local (e_io (lk_env k))"
    using that r(2,6) s by (auto simp: caught_up_def in_sync_def)
  show ?thesis
    using r s same assms(3) by (cases "io_local (e_io (lk_env k))"; cases "lk_current k = []")
      (auto simp: waiting_def caught_up_def clear_def)
qed

lemma tick_cases:
  assumes "s_backend (node_store n) \<noteq> None"
  shows "\<exists>m. tick_node k n = (reload_node k n)\<lparr>nd_metrics := m\<rparr> \<and> lk_version k \<noteq> Some (s_lastVer (node_store n)) \<and> lk_version k \<noteq> None \<or>
     (\<exists>b. tick_node k n = (put_store (MarkBackend b (node_store n)) n)\<lparr>nd_metrics := m\<rparr>) \<and>
       (lk_version k = None \<or> lk_version k = Some (s_lastVer (node_store n)))"
  using BackendStatus_attached [OF assms]
  by (auto simp: tick_node_def split: option.split prod.split)

lemma watch_progress:
  assumes "steady data ver kf c up (look_of w)" "data \<noteq> []" "ver \<noteq> []"
  shows "waiting ver kf n \<Longrightarrow> waiting ver kf (watch_step w n) \<or> caught_up ver kf c up (watch_step w n)"
    and "caught_up ver kf c up n \<Longrightarrow> caught_up ver kf c up (watch_step w n)"
    and "waiting ver kf n \<Longrightarrow> clear (look_of w) \<Longrightarrow> caught_up ver kf c up (watch_step w n)"
proof -
  let ?k = "look_of w"
  have step: "(\<exists>m. watch_step w n = (reload_node ?k n)\<lparr>nd_metrics := m\<rparr>) \<or>
      (\<exists>b m. watch_step w n = (put_store (MarkBackend b (node_store n)) n)\<lparr>nd_metrics := m\<rparr>) \<and>
        (lk_version ?k = None \<or> s_lastVer (node_store n) = ver)"
    if "waiting ver kf n \<or> caught_up ver kf c up n"
  proof (cases w)
    case (Tick k)
    have "s_backend (node_store n) \<noteq> None" using that by (auto simp: waiting_def caught_up_def)
    then show ?thesis using tick_cases [of n k] assms(1) Tick by (auto simp: steady_def)
  next
    case (Notified k)
    then have "watch_step w n = (reload_node ?k n)\<lparr>nd_metrics := nd_metrics (reload_node ?k n)\<rparr>" by simp
    then show ?thesis by blast
  qed
  note r = reload_progress [OF assms, of n]
  show "waiting ver kf (watch_step w n) \<or> caught_up ver kf c up (watch_step w n)" if "waiting ver kf n"
    using step r that by auto
  show "caught_up ver kf c up (watch_step w n)" if "caught_up ver kf c up n"
    using step r that by auto
  show "caught_up ver kf c up (watch_step w n)" if "waiting ver kf n" "clear ?k"
    using step r that by (auto simp: clear_def waiting_def)
qed

text \<open>
  A node catches up with its cluster: once the configuration in the database no longer changes, it
  has it in memory, routes by its rules and knows its version from the first notification or look that
  succeeds on, however many fail before or after.
\<close>

theorem node_catches_up:
  assumes "list_all (\<lambda>w. steady data ver kf c up (look_of w)) ws" "data \<noteq> []" "ver \<noteq> []"
    and "waiting ver kf n" "\<exists>w \<in> set ws. clear (look_of w)"
  shows "let n' = fold watch_step ws n
     in admin_cfg (nd_admin n') = c \<and> in_sync up (nd_admin n') \<and> s_lastVer (node_store n') = ver"
proof -
  have "caught_up ver kf c up (fold watch_step ws n)"
    if "list_all (\<lambda>w. steady data ver kf c up (look_of w)) ws"
      "caught_up ver kf c up n \<or> waiting ver kf n \<and> (\<exists>w \<in> set ws. clear (look_of w))" for n
    using that
  proof (induction ws arbitrary: n)
    case (Cons w ws)
    note p = watch_progress [OF _ assms(2,3), of kf c up w n]
    have "caught_up ver kf c up (watch_step w n) \<or>
        waiting ver kf (watch_step w n) \<and> (\<exists>w \<in> set ws. clear (look_of w))"
      using p Cons.prems by auto
    then show ?case using Cons.IH Cons.prems(1) by simp
  qed simp
  with assms show ?thesis by (simp add: caught_up_def Let_def)
qed

text \<open>
  The version a node notes for its own save is read after it. If another node has saved in between,
  it is the other's, and the looks every 30 seconds find nothing new: without a notification the node
  keeps its own configuration, which is no longer that of the cluster.
\<close>

theorem overtaken_save_unnoticed:
  assumes "Save d x (node_store n) = (None, st)" "s_backend (node_store n) \<noteq> None" "io_version x = Some ver"
    and "list_all (\<lambda>k. lk_version k = Some ver) ks"
  shows "admin_cfg (nd_admin (fold tick_node ks (put_store st n))) = admin_cfg (nd_admin n)"
proof -
  have st: "s_lastVer st = ver" "s_backend st \<noteq> None" "s_cfg st = admin_cfg (nd_admin n)"
    using assms(1-3)
    by (auto simp: Save_def pushToBackend_def version_or_empty_def Let_def split: prod.splits if_splits)
  have "admin_cfg (nd_admin (fold tick_node ks n')) = admin_cfg (nd_admin n')"
    if "s_lastVer (node_store n') = ver" "s_backend (node_store n') \<noteq> None" "list_all (\<lambda>k. lk_version k = Some ver) ks" for n'
    using that
  proof (induction ks arbitrary: n')
    case (Cons k ks)
    have "tick_node k n' = (put_store (MarkBackend True (node_store n')) n')
        \<lparr>nd_metrics := SetBackendVersion ver (SetBackendOk True (nd_metrics n'))\<rparr>"
      using Cons.prems BackendStatus_attached [OF Cons.prems(2)] by (auto simp add: tick_node_def split: prod.split)
    then show ?case using Cons by (simp add: marked_sel)
  qed simp
  from this [of "put_store st n"] st assms(4) show ?thesis by simp
qed

text \<open>
  A start in degraded mode is no start in file mode: if any of the three attempts reached the
  database and failed only then, the node still has it as its backend, and every change is reported as
  not saved while it cannot be written.
\<close>

theorem degraded_keeps_backend:
  assumes "start_storage (t1, t2, t3) st = Some (Degraded st')"
    and "at_connected t1 \<or> at_connected t2 \<or> at_connected t3" "io_local x" "\<not> io_save x"
  shows "s_backend st' \<noteq> None \<and> fst (Update d x f st') = Some ErrBackendSave"
proof -
  have set: "s_backend (snd (SetBackend d x r s)) = Some r \<or> (\<exists>r'. s_backend (snd (SetBackend d x r s)) = Some r')" for d x r s
    by (auto simp: SetBackend_def pushToBackend_def persistLocal_def Let_def split: prod.splits sum.splits)
  have stays: "s_backend st \<noteq> None \<or> (\<exists>t \<in> set ts. at_connected t) \<Longrightarrow> attach_attempts ts st = Degraded st' \<Longrightarrow> s_backend st' \<noteq> None"
    for ts st
  proof (induction ts arbitrary: st)
    case (Cons t ts)
    obtain e s where a: "attachPostgres t st = (e, s)" by (cases "attachPostgres t st")
    have "s_backend s \<noteq> None" if "s_backend st \<noteq> None \<or> at_connected t"
      using a that set [of "at_draws t" "at_io t" "at_remote t" st]
      by (auto simp: attachPostgres_def split: if_splits prod.splits option.splits)
    then have "s_backend s \<noteq> None \<or> (\<exists>t \<in> set ts. at_connected t)" using Cons.prems(1) by auto
    with Cons.IH [of s] Cons.prems(2) a \<open>s_backend st \<noteq> None \<or> at_connected t \<Longrightarrow> s_backend s \<noteq> None\<close>
    show ?case by (cases e) (auto split: if_splits)
  qed simp
  have "attach_attempts [t1, t2, t3] st = Degraded st'" using assms(1) by (auto simp: start_storage_def Let_def split: if_splits)
  then have b: "s_backend st' \<noteq> None" using stays assms(2) by (metis list.set_intros)
  then show ?thesis
    using assms(3,4) by (auto simp: Update_def Save_def pushToBackend_def Let_def split: prod.splits)
qed

section \<open>Concrete instances\<close>

definition cluster_data :: string where
  "cluster_data = marshal_config (map_sensitive (seal_text (ctx sample_draws (sample_key CHR ''k''))) sample_config)"

definition sample_node :: node where
  "sample_node = \<lparr>nd_admin = sample_admin\<lparr>ad_panel := sample_panel\<lparr>pn_store :=
     sample_store CHR ''k'' (Some \<lparr>rm_name = ''postgres'', rm_data = []\<rparr>)\<rparr>\<rparr>, nd_metrics = NewMetrics\<rparr>"

definition sample_look :: "string option \<Rightarrow> look" where
  "sample_look v = \<lparr>lk_env = sample_env 0, lk_listen = (\<lambda>k. None), lk_version = v, lk_load = Some cluster_data, lk_current = ''db:2''\<rparr>"

lemma cluster_data_read: "decodeConfig sample_draws cluster_data (sample_key CHR ''k'') = (Inr sample_config, sample_key CHR ''k'')"
  unfolding cluster_data_def using decodeConfig_written [of sample_draws "sample_key CHR ''k''" sample_draws "sample_key CHR ''k''" sample_config]
  by simp

lemma cluster_data_some: "cluster_data \<noteq> []"
  by (simp add: cluster_data_def marshal_config_def)

lemma sample_look_sel [simp]:
  "e_draws (lk_env (sample_look v)) = sample_draws" "e_io (lk_env (sample_look v)) = sample_io"
  "e_url (lk_env (sample_look v)) = sample_url" "lk_version (sample_look v) = v"
  "lk_load (sample_look v) = Some cluster_data" "lk_current (sample_look v) = ''db:2''"
  "node_store sample_node = sample_store CHR ''k'' (Some \<lparr>rm_name = ''postgres'', rm_data = []\<rparr>)"
  "s_lastVer (sample_store ch r) = []"
  by (simp_all add: sample_look_def sample_env_def sample_node_def sample_store_def)

lemma steady_sample: "v \<in> {None, Some ''db:2''} \<Longrightarrow>
    steady cluster_data ''db:2'' (sample_key CHR ''k'') sample_config sample_url (sample_look v)"
  by (auto simp: steady_def cluster_data_read)

theorem node_catches_up_witness:
  "admin_cfg (nd_admin (fold watch_step [Tick (sample_look None), Tick (sample_look (Some ''db:2''))] sample_node)) =
     sample_config"
proof -
  have "waiting ''db:2'' (sample_key CHR ''k'') sample_node" by (simp add: waiting_def)
  from node_catches_up [OF _ cluster_data_some _ this, of sample_config sample_url
      "[Tick (sample_look None), Tick (sample_look (Some ''db:2''))]"]
  show ?thesis by (simp add: steady_sample clear_def Let_def)
qed

theorem overtaken_save_unnoticed_witness:
  "\<exists>st. Save sample_draws sample_io (node_store sample_node) = (None, st) \<and>
     admin_cfg (nd_admin (fold tick_node [sample_look (Some ''1'')] (put_store st sample_node))) = sample_config"
proof -
  obtain st where s: "Save sample_draws sample_io (node_store sample_node) = (None, st)"
    using Save_saved [of sample_io sample_draws "node_store sample_node"]
    by (cases "Save sample_draws sample_io (node_store sample_node)") auto
  have "io_version sample_io = Some ''1''" by (simp add: sample_io_def)
  from overtaken_save_unnoticed [OF s _ this, of "[sample_look (Some ''1'')]"] s show ?thesis by simp
qed

definition late_failure :: attempt where
  "late_failure = \<lparr>at_connected = True, at_draws = sample_draws, at_io = sample_io\<lparr>io_load := False\<rparr>,
     at_remote = \<lparr>rm_name = ''postgres'', rm_data = []\<rparr>\<rparr>"

definition postgres_store :: Store where
  "postgres_store = (sample_store CHR ''k'' None)\<lparr>s_cfg := sample_config
     \<lparr>cf_Storage := (cf_Storage sample_config)\<lparr>sc_Backend := ''postgres'', sc_DSN := ''db''\<rparr>\<rparr>\<rparr>"

theorem degraded_keeps_backend_witness:
  "\<exists>st'. start_storage (late_failure, late_failure, late_failure) postgres_store = Some (Degraded st') \<and>
     fst (Update sample_draws (sample_io\<lparr>io_save := False\<rparr>) id st') = Some ErrBackendSave"
proof -
  have "EqualFold (TrimSpace ''postgres'') ''postgres''" by code_simp
  then obtain st' where s: "start_storage (late_failure, late_failure, late_failure) postgres_store = Some (Degraded st')"
    by (simp add: start_storage_def postgres_store_def attachPostgres_def late_failure_def SetBackend_def Let_def)
  from degraded_keeps_backend [OF s, of "sample_io\<lparr>io_save := False\<rparr>" sample_draws id] s show ?thesis
    by (simp add: late_failure_def sample_io_def)
qed

end
