(* ===== verification/Gateway.thy ===== *)
theory Gateway
  imports PanelInvariants Metrics
begin

text \<open>
  The proxy's own ports: the handlers \<open>main.go\<close> puts in front of the routing engine, the redirects that
  bring a visitor to the login and back, the checks of ACME, and the choice of a certificate.

  A request is answered by the node itself, or handed to the panel, to the ACME client, or to what the
  engine has chosen. What these do with it, and the time it takes, are arguments. The paths are clean: the
  redirect with which \<open>ServeMux\<close> answers others is left out.
\<close>

section \<open>Helpers\<close>

fun Contains :: "string \<Rightarrow> string \<Rightarrow> bool" where
  "Contains [] sub = (sub = [])"
| "Contains (c # s) sub = (HasPrefix (c # s) sub \<or> Contains s sub)"

definition schemeOf :: "request \<Rightarrow> string" where
  "schemeOf r =
     (if rq_TLS r \<or> EqualFold (rq_Header r ''X-Forwarded-Proto'') ''https'' then ''https'' else ''http'')"

section \<open>The way to the login\<close>

definition unauthorizedHandler :: "request \<Rightarrow> response" where
  "unauthorizedHandler r =
     (if Contains (rq_Header r ''Accept'') ''text/html''
      then redirect (schemeOf r @ ''://'' @ rq_Host r @ ''/auth/login?rd='' @ QueryEscape (rq_URI r))
      else writeJSON 401 (JObj [(''error'', JStr ''autenticacion requerida'')]))"

definition panelPublicHost :: "url_parser \<Rightarrow> Config \<Rightarrow> string" where
  "panelPublicHost up cfg =
     (let pub = TrimSpace (cf_PanelPublicURL cfg)
      in if pub = [] then []
         else (case up pub of None \<Rightarrow> [] | Some u \<Rightarrow> ToLower (u_Host u)))"

datatype reply = Reply response | ToPanel | ToACME | Routed answer

definition login_target :: "request \<Rightarrow> string" where
  "login_target r =
     (let rd = QueryGet r ''rd'';
          rd = (if \<not> HasPrefix rd ''/'' \<or> HasPrefix rd ''//'' then ''/'' else rd)
      in schemeOf r @ ''://'' @ rq_Host r @ rd)"

definition login_base :: "Config \<Rightarrow> string" where
  "login_base cfg =
     (let base = TrimSuffix (az_RedirectURL (cf_Azure cfg)) ''/auth/callback''
      in if base = [] \<or> \<not> HasPrefix base ''http'' then ''http://localhost:'' @ Itoa (cf_AdminPort cfg) else base)"

definition gateway_login :: "url_parser \<Rightarrow> Config \<Rightarrow> request \<Rightarrow> reply" where
  "gateway_login up cfg r =
     (let ph = panelPublicHost up cfg; back = ''/auth/login?return='' @ QueryEscape (login_target r)
      in if ph \<noteq> [] then
           (if EqualFold (NormalizeHost (rq_Host r)) ph then ToPanel
            else Reply (redirect (TrimSuffix (TrimSpace (cf_PanelPublicURL cfg)) ''/'' @ back)))
         else Reply (redirect (login_base cfg @ back)))"

section \<open>The proxy\<close>

text \<open>The endpoints of the proxy's own; everything else is the engine's.\<close>

definition authCheck :: "env \<Rightarrow> Admin \<Rightarrow> request \<Rightarrow> bool" where
  "authCheck e a r \<longleftrightarrow> SessionFromRequest e (admin_cfg a) r \<noteq> None"

definition serve_proxy :: "env \<Rightarrow> request \<Rightarrow> Admin \<Rightarrow> reply \<times> Admin" where
  "serve_proxy e r a =
     (let is_get = (rq_Method r = ''GET'' \<or> rq_Method r = ''HEAD'')
      in if is_get \<and> rq_Path r = ''/auth/login'' then (gateway_login (e_url e) (admin_cfg a) r, a)
         else if is_get \<and> rq_Path r = ''/auth/attach'' then (Reply (HandleAttach e (admin_cfg a) r), a)
         else if is_get \<and> rq_Path r = ''/healthz'' then (Reply (writeJSON 200 JOk), a)
         else (case handle (authCheck e a r) (rq_Host r) (ad_engine a) of (ans, en) \<Rightarrow>
                 (if ans = Unauthorized then Reply (unauthorizedHandler r) else Routed ans,
                  a\<lparr>ad_engine := en\<rparr>)))"

text \<open>
  The middlewares around it: \<open>Recover\<close> (its 500 for a panic), the security headers, the metrics. What the
  upstream answered (\<open>up_status\<close>) is an argument.
\<close>

text \<open>In the literal an exclamation mark stands for a single quote.\<close>

definition quotes :: "string \<Rightarrow> string" where
  "quotes s = map (\<lambda>c. if c = CHR ''!'' then CHR 0x27 else c) s"

definition SecureHeaders :: "bool \<Rightarrow> request \<Rightarrow> (string \<times> string) list" where
  "SecureHeaders withCSP r =
     [(''X-Content-Type-Options'', ''nosniff''), (''X-Frame-Options'', ''DENY''), (''Referrer-Policy'', ''no-referrer''),
      (''Permissions-Policy'', ''camera=(), microphone=(), geolocation=(), payment=()''),
      (''Cross-Origin-Opener-Policy'', ''same-origin''), (''X-DNS-Prefetch-Control'', ''off'')] @
     (if rq_TLS r \<or> EqualFold (rq_Header r ''X-Forwarded-Proto'') ''https''
      then [(''Strict-Transport-Security'', ''max-age=63072000; includeSubDomains'')] else []) @
     (if withCSP then [(''Content-Security-Policy'', quotes ''default-src !self!; style-src !self! !unsafe-inline!; script-src !self! !unsafe-inline!; img-src !self! data:; font-src !self!; connect-src !self!; frame-ancestors !none!; base-uri !none!; form-action !self!'')]
      else [])"

definition Recover :: "reply \<Rightarrow> reply" where
  "Recover w = (if w = Routed Engine.Panicked then Reply (http_error ''error interno'' 500) else w)"

definition reply_outcome :: "int option \<Rightarrow> reply \<Rightarrow> outcome" where
  "reply_outcome up_status w =
     (case w of
        Reply v \<Rightarrow> Answered (Some (rs_Status v))
      | Routed ans \<Rightarrow>
          (case ans of
             Engine.Panicked \<Rightarrow> Metrics.Panicked
           | NotFound404 \<Rightarrow> Answered (Some 404)
           | Blocked503 \<Rightarrow> Answered (Some 503)
           | NoBackend503 \<Rightarrow> Answered (Some 503)
           | Unhealthy503 \<Rightarrow> Answered (Some 503)
           | NoAnswer \<Rightarrow> Answered None
           | _ \<Rightarrow> Answered up_status)
      | _ \<Rightarrow> Answered up_status)"

definition proxyHandler ::
  "env \<Rightarrow> int option \<Rightarrow> duration \<Rightarrow> request \<Rightarrow> Admin \<times> Metrics \<Rightarrow> (reply \<times> Admin \<times> Metrics) option" where
  "proxyHandler e up_status dur r s =
     (case serve_proxy e r (fst s) of (w, a) \<Rightarrow>
        map_option (\<lambda>m. (Recover w, a, m))
          (middleware_leave (rq_Method r) (rq_Path r) (reply_outcome up_status w) dur (middleware_enter (snd s))))"

section \<open>ACME\<close>

text \<open>
  What the certificate manager and the ACME client have is in \<open>custom\<close> and \<open>cached\<close>, by host. Whether
  ACME is used is settled at the start.
\<close>

definition hostAllowedACME :: "Config \<Rightarrow> string \<Rightarrow> bool" where
  "hostAllowedACME cfg host =
     (let h = ToLower (TrimSpace host)
      in h \<noteq> [] \<and>
         ((\<exists>d \<in> set (ac_Domains (cf_ACME cfg)). EqualFold (TrimSpace d) h) \<or>
          (\<exists>rl \<in> set (cf_Rules cfg). NormalizeHost (r_Host rl) = h)))"

definition serve_http ::
  "bool \<Rightarrow> (string \<Rightarrow> bool) \<Rightarrow> (string \<Rightarrow> bool) \<Rightarrow> env \<Rightarrow> request \<Rightarrow> Admin \<Rightarrow> reply \<times> Admin" where
  "serve_http useACME custom cached e r a =
     (if \<not> useACME then serve_proxy e r a
      else if HasPrefix (rq_Path r) ''/.well-known/acme-challenge/'' then (ToACME, a)
      else (let host = NormalizeHost (rq_Host r)
            in if ac_RedirectHTTP (cf_ACME (admin_cfg a)) \<and> (custom host \<or> cached host)
               then (Reply (redirect (''https://'' @ rq_Host r @ rq_URI r)), a)
               else serve_proxy e r a))"

text \<open>
  The certificate for a connection: one of the operator's, what the ACME client gives (\<open>acme\<close>, \<open>None\<close>:
  an error or no answer in 30 seconds), or none. The second component is what the client was asked for.
\<close>

datatype certificate = Custom string | ACMECert string

definition certFor ::
  "bool \<Rightarrow> (string \<Rightarrow> bool) \<Rightarrow> (string \<Rightarrow> bool) \<Rightarrow> (string \<Rightarrow> string option) \<Rightarrow> Config \<Rightarrow> string \<Rightarrow>
   certificate option \<times> string list" where
  "certFor useACME custom cached acme cfg server_name =
     (if custom server_name then (Some (Custom server_name), [])
      else if useACME then
        (let host = NormalizeHost server_name
         in if host \<noteq> [] \<and> \<not> cached host \<and> \<not> hostAllowedACME cfg host then (None, [])
            else (map_option ACMECert (acme server_name), [server_name]))
      else (None, []))"

section \<open>Properties\<close>

text \<open>
  What the proxy lets through is what the panel's configuration allows: while the routing table
  agrees with the configuration, a request reaches a backend only by an enabled rule for its host, with
  a valid session if the rule asks for one, and only a backend among the rule's targets.
\<close>

lemma proxied_allowed:
  assumes "serve_http useACME custom cached e r a = (Routed (Proxied b), a')"
    and "in_sync (e_url e) a"
  shows "\<exists>rl. allowed_by (e_url e) (cf_InsecureUpstream (admin_cfg a)) (cf_Rules (admin_cfg a))
     (SessionFromRequest e (admin_cfg a) r \<noteq> None) (rq_Host r) (ad_engine a) b rl"
proof -
  obtain en where "handle (authCheck e a r) (rq_Host r) (ad_engine a) = (Proxied b, en)"
    using assms(1) unfolding serve_http_def serve_proxy_def gateway_login_def Let_def
    by (cases "handle (authCheck e a r) (rq_Host r) (ad_engine a)") (auto split: if_splits)
  with proxied_by_rule assms(2) show ?thesis unfolding in_sync_def authCheck_def by blast
qed

text \<open>The request with which a browser follows a redirect to a path of the same host.\<close>

definition follow :: "request \<Rightarrow> string \<Rightarrow> (string \<times> string) list \<Rightarrow> request" where
  "follow r path params = r\<lparr>rq_Path := path, rq_Query := map_of params\<rparr>"


lemma lower_colon: "CHR '':'' \<in> set (ToLower s) \<longleftrightarrow> CHR '':'' \<in> set s"
proof -
  have c: "CHR '':'' = lower_char c \<longleftrightarrow> CHR '':'' = c" for c
  proof (cases "is_upper c")
    case True
    then have ge: "97 \<le> (of_char (lower_char c) :: nat)"
      by (simp add: lower_char_def is_upper_def of_char_char_of_small)
    have "CHR '':'' \<noteq> lower_char c"
    proof
      assume "CHR '':'' = lower_char c"
      from ge [folded this] show False by simp
    qed
    moreover have "CHR '':'' \<noteq> c" using True by (auto simp: is_upper_def)
    ultimately show ?thesis by simp
  qed (simp add: lower_char_def)
  show ?thesis by (induction s) (simp_all add: ToLower_def c)
qed

lemma NormalizeHost_no_port: "CHR '':'' \<notin> set (NormalizeHost h)"
  using IndexByte_Some [of "ToLower (TrimSpace h)" "CHR '':''"] IndexByte_None [of "ToLower (TrimSpace h)" "CHR '':''"]
  by (simp add: NormalizeHost_def Let_def split: option.split)

text \<open>
  With a public address of the panel that names a port, the proxy never hands the login to the
  panel: it sends every visitor to that address, and again when he comes back through it.
\<close>

theorem public_port_loops:
  assumes "e_url e (TrimSpace (cf_PanelPublicURL (admin_cfg a))) = Some u" "CHR '':'' \<in> set (u_Host u)"
    and "TrimSpace (cf_PanelPublicURL (admin_cfg a)) \<noteq> []"
    and "rq_Method r = ''GET''" "rq_Path r = ''/auth/login''"
  shows "fst (serve_proxy e r a) =
     Reply (redirect (TrimSuffix (TrimSpace (cf_PanelPublicURL (admin_cfg a))) ''/'' @ ''/auth/login?return='' @
       QueryEscape (login_target r)))"
proof -
  let ?ph = "panelPublicHost (e_url e) (admin_cfg a)"
  have ph: "?ph = ToLower (u_Host u)" using assms(1,3) by (simp add: panelPublicHost_def Let_def)
  then have "?ph \<noteq> []" using assms(2) by (auto simp: ToLower_def)
  moreover have "\<not> EqualFold (NormalizeHost (rq_Host r)) ?ph"
  proof
    assume "EqualFold (NormalizeHost (rq_Host r)) ?ph"
    then have "ToLower (NormalizeHost (rq_Host r)) = ToLower (u_Host u)" by (simp add: EqualFold_def ph)
    then show False using lower_colon NormalizeHost_no_port assms(2) by metis
  qed
  ultimately show ?thesis using assms(4,5) by (simp add: serve_proxy_def gateway_login_def Let_def)
qed

text \<open>
  The ACME client is asked only for hosts the configuration names, apart from those it has a
  certificate for already; a connection that names no host is passed on to it.
\<close>

theorem acme_only_for_known_hosts:
  assumes "certFor useACME custom cached acme cfg name = (c, asked)" "n \<in> set asked"
  shows "n = name \<and> useACME \<and> \<not> custom name \<and>
     (NormalizeHost name = [] \<or> cached (NormalizeHost name) \<or>
      (\<exists>d \<in> set (ac_Domains (cf_ACME cfg)). EqualFold (TrimSpace d) (TrimSpace (NormalizeHost name))) \<or>
      (\<exists>rl \<in> set (cf_Rules cfg). NormalizeHost (r_Host rl) = ToLower (TrimSpace (NormalizeHost name))))"
  using assms
  by (auto simp: certFor_def hostAllowedACME_def EqualFold_def Let_def split: if_splits)

section \<open>Concrete instances\<close>

text \<open>A panel with one rule for \<open>app.test\<close> that asks for a session, and requests to that host.\<close>

definition guarded_rule :: Rule where
  "guarded_rule = no_rule\<lparr>r_Host := ''app.test'', r_Target := ''https://app.test/x'', r_RequireAuth := True, r_Enabled := True\<rparr>"

definition guarded_panel :: Admin where
  "guarded_panel = rebuild (sample_env 0) (sample_admin\<lparr>ad_panel := sample_panel\<lparr>pn_store := (pn_store sample_panel)
     \<lparr>s_cfg := (panel_cfg sample_panel)\<lparr>cf_Rules := [guarded_rule]\<rparr>\<rparr>\<rparr>\<rparr>)"

definition page_request :: "string option \<Rightarrow> request" where
  "page_request token = (sample_request [])\<lparr>rq_Method := ''GET'', rq_Path := ''/x'', rq_URI := ''/x'',
     rq_Header := (\<lambda>h. if h = ''Accept'' then ''text/html'' else []),
     rq_Cookie := (case token of None \<Rightarrow> Map.empty | Some t \<Rightarrow> [sessionCookieName \<mapsto> t])\<rparr>"

definition alice_token :: string where
  "alice_token = IssueSession plain_mac (panel_cfg sample_panel) 0 alice"

lemma guarded_panel_sync: "in_sync sample_url guarded_panel"
  using in_sync_rebuild [of "sample_env 0"] by (simp add: guarded_panel_def sample_env_def)

lemma guarded_handled:
  "fst (handle True ''app.test'' (ad_engine guarded_panel)) = Proxied 0"
  "fst (handle False ''app.test'' (ad_engine guarded_panel)) = Unauthorized"
  by code_simp+

lemma guarded_cfg: "admin_cfg guarded_panel = (panel_cfg sample_panel)\<lparr>cf_Rules := [guarded_rule]\<rparr>"
  by (simp add: guarded_panel_def sample_admin_def)

lemma page_request_sel [simp]:
  "rq_Method (page_request t) = ''GET''" "rq_Path (page_request t) = ''/x''" "rq_Host (page_request t) = ''app.test''"
  "rq_URI (page_request t) = ''/x''" "rq_Header (page_request t) ''Accept'' = ''text/html''" "schemeOf (page_request t) = ''https''"
  by (simp_all add: page_request_def sample_request_def schemeOf_def)

lemma alice_session:
  "SessionFromRequest (sample_env 0) (admin_cfg guarded_panel) (page_request (Some alice_token)) = Some alice"
proof -
  have "session_exp (panel_cfg sample_panel) 0 = 43200"
    by (simp add: session_exp_def session_hours_def sample_panel_def sample_config_def with_defaults_def
        no_config_def Unix_def numbers wrap64_id min_int64_def max_int64_def)
  moreover have "ValidateSession m (c\<lparr>cf_Rules := rs\<rparr>) t = ValidateSession m c t" for m rs t and c :: Config
  proof -
    have same: "cf_SessionSecret (c\<lparr>cf_Rules := rs\<rparr>) = cf_SessionSecret c"
      "cf_SessionEpoch (c\<lparr>cf_Rules := rs\<rparr>) = cf_SessionEpoch c" by simp_all
    show ?thesis unfolding ValidateSession_def same ..
  qed
  ultimately show ?thesis
    by (simp add: SessionFromRequest_def page_request_def alice_token_def IssueSession_def ValidateSession_signed guarded_cfg
        payloads_ok dec_as_session session_verdict_def Unix_def int64_def min_int64_def max_int64_def)
qed

lemma nobody_session: "SessionFromRequest e c (page_request None) = None"
  by (simp add: SessionFromRequest_def page_request_def)

text \<open>A request with a session of the guarded panel is served.\<close>

lemma guarded_served:
  "\<exists>a'. serve_http False (\<lambda>h. False) (\<lambda>h. False) (sample_env 0) (page_request (Some alice_token)) guarded_panel =
     (Routed (Proxied 0), a')"
proof -
  obtain en where "handle True ''app.test'' (ad_engine guarded_panel) = (Proxied 0, en)"
    using guarded_handled(1) by (metis prod.collapse)
  then have "serve_http False (\<lambda>h. False) (\<lambda>h. False) (sample_env 0) (page_request (Some alice_token)) guarded_panel =
      (Routed (Proxied 0), guarded_panel\<lparr>ad_engine := en\<rparr>)"
    using alice_session by (simp add: serve_http_def serve_proxy_def authCheck_def)
  then show ?thesis by blast
qed


definition port_env :: env where
  "port_env = (sample_env 0)\<lparr>e_url := (\<lambda>s. Some \<lparr>u_Scheme = ''https'', u_Host = ''panel:8443'', u_Hostname = ''panel'',
     u_RequestURI = ''/'', u_String = s\<rparr>)\<rparr>"

definition port_panel :: Admin where
  "port_panel = sample_admin\<lparr>ad_panel := sample_panel\<lparr>pn_store := (pn_store sample_panel)
     \<lparr>s_cfg := (panel_cfg sample_panel)\<lparr>cf_PanelPublicURL := ''https://panel:8443''\<rparr>\<rparr>\<rparr>\<rparr>"

theorem public_port_loops_witness:
  "\<exists>l. fst (serve_proxy port_env ((page_request None)\<lparr>rq_Path := ''/auth/login'', rq_Host := ''panel:8443''\<rparr>) port_panel) =
     Reply (redirect (''https://panel:8443/auth/login?return='' @ l))"
proof -
  have c: "cf_PanelPublicURL (admin_cfg port_panel) = ''https://panel:8443''" by (simp add: port_panel_def)
  have t: "TrimSpace ''https://panel:8443'' = ''https://panel:8443''"
    "TrimSuffix ''https://panel:8443'' ''/'' = ''https://panel:8443''" by code_simp+
  show ?thesis
    using public_port_loops [of port_env port_panel _ "(page_request None)\<lparr>rq_Path := ''/auth/login'', rq_Host := ''panel:8443''\<rparr>"]
    by (auto simp: port_env_def c t)
qed

theorem acme_only_for_known_hosts_witness:
  "certFor True (\<lambda>h. False) (\<lambda>h. False) Some (admin_cfg guarded_panel) ''app.test'' = (Some (ACMECert ''app.test''), [''app.test'']) \<and>
   (\<exists>rl \<in> set (cf_Rules (admin_cfg guarded_panel)). NormalizeHost (r_Host rl) = ''app.test'')"
proof -
  have n: "NormalizeHost ''app.test'' = ''app.test''" "ToLower (TrimSpace ''app.test'') = ''app.test''"
    "TrimSpace ''app.test'' \<noteq> []" by code_simp+
  have c: "certFor True (\<lambda>h. False) (\<lambda>h. False) Some (admin_cfg guarded_panel) ''app.test'' =
      (Some (ACMECert ''app.test''), [''app.test''])"
    by (simp add: certFor_def hostAllowedACME_def n guarded_cfg guarded_rule_def Let_def)
  have "ac_Domains (cf_ACME (admin_cfg guarded_panel)) = []"
    by (simp add: guarded_cfg) (simp add: sample_panel_def sample_config_def with_defaults_def no_config_def)
  with acme_only_for_known_hosts [OF c, of "''app.test''"] c n show ?thesis by simp
qed

end
