(* ===== verification/Update.thy ===== *)
theory Update
  imports Admin Forms "HOL-Library.Product_Lexorder"
begin

text \<open>
  Updating the program: \<open>internal/update/update.go\<close>, and of \<open>internal/server/admin.go\<close> the two handlers
  and the script that exchanges the binary once the process has ended.

  The files are a map from paths to contents. What GitHub answers, whether the operating system does
  what it is asked, the platform, and the number and arguments of the process are arguments.
\<close>

section \<open>Releases\<close>

record Asset =
  as_Name :: string
  as_URL :: string
  as_Size :: int

record Release =
  rl_TagName :: string
  rl_Name :: string
  rl_Body :: string
  rl_Assets :: "Asset list"
  rl_Draft :: bool
  rl_Prerelease :: bool

record State =
  us_Installed :: string
  us_Latest :: string
  us_Available :: bool
  us_AssetName :: string
  us_AssetSize :: int
  us_ReleaseURL :: string
  us_Err :: string

definition no_asset :: Asset where
  "no_asset = \<lparr>as_Name = [], as_URL = [], as_Size = 0\<rparr>"

definition asset_field :: "string \<Rightarrow> json \<Rightarrow> Asset \<Rightarrow> Asset option" where
  "asset_field k v x =
     (if k = ''name'' then map_option (\<lambda>y. x\<lparr>as_Name := y\<rparr>) (dec_str v (as_Name x))
      else if k = ''browser_download_url'' then map_option (\<lambda>y. x\<lparr>as_URL := y\<rparr>) (dec_str v (as_URL x))
      else if k = ''size'' then map_option (\<lambda>y. x\<lparr>as_Size := y\<rparr>) (dec_int v (as_Size x))
      else Some x)"

definition no_release :: Release where
  "no_release = \<lparr>rl_TagName = [], rl_Name = [], rl_Body = [], rl_Assets = [], rl_Draft = False, rl_Prerelease = False\<rparr>"

definition release_field :: "string \<Rightarrow> json \<Rightarrow> Release \<Rightarrow> Release option" where
  "release_field k v x =
     (if k = ''tag_name'' then map_option (\<lambda>y. x\<lparr>rl_TagName := y\<rparr>) (dec_str v (rl_TagName x))
      else if k = ''name'' then map_option (\<lambda>y. x\<lparr>rl_Name := y\<rparr>) (dec_str v (rl_Name x))
      else if k = ''body'' then map_option (\<lambda>y. x\<lparr>rl_Body := y\<rparr>) (dec_str v (rl_Body x))
      else if k = ''assets'' then
        map_option (\<lambda>y. x\<lparr>rl_Assets := y\<rparr>) (dec_list (\<lambda>y. dec_struct asset_field y no_asset) v)
      else if k = ''draft'' then map_option (\<lambda>y. x\<lparr>rl_Draft := y\<rparr>) (dec_bool v (rl_Draft x))
      else if k = ''prerelease'' then map_option (\<lambda>y. x\<lparr>rl_Prerelease := y\<rparr>) (dec_bool v (rl_Prerelease x))
      else Some x)"

text \<open>The answer to a request: no answer, or a status and a body.\<close>

datatype http_answer = NoAnswerAt string | AnswerOf int string

datatype update_error =
    NetError string
  | BadStatus int string
  | BadRelease
  | NoRelease
  | NoPlatform
  | NoAsset
  | FileError

definition fetchLatestRelease :: "http_answer \<Rightarrow> update_error + Release" where
  "fetchLatestRelease w =
     (case w of
        NoAnswerAt msg \<Rightarrow> Inl (NetError msg)
      | AnswerOf status body \<Rightarrow>
          if status \<noteq> 200 then Inl (BadStatus status (TrimSpace (take 1024 body)))
          else (case (case Decode body of None \<Rightarrow> None | Some v \<Rightarrow> dec_struct release_field v no_release) of
                  None \<Rightarrow> Inl BadRelease
                | Some rel \<Rightarrow> if rl_TagName rel = [] then Inl NoRelease else Inr rel))"

definition AssetNameForPlatform :: "string \<times> string \<Rightarrow> string" where
  "AssetNameForPlatform p =
     (if p = (''windows'', ''amd64'') then ''pxproxy-windows-amd64.exe''
      else if p = (''linux'', ''amd64'') then ''pxproxy-linux-amd64''
      else if p = (''linux'', ''arm64'') then ''pxproxy-linux-arm64''
      else [])"

definition findAssetByName :: "string \<times> string \<Rightarrow> Release \<Rightarrow> update_error + Asset" where
  "findAssetByName p rel =
     (let want = AssetNameForPlatform p
      in if want = [] then Inl NoPlatform
         else (case find (\<lambda>a. as_Name a = want) (rl_Assets rel) of None \<Rightarrow> Inl NoAsset | Some a \<Rightarrow> Inr a))"

section \<open>Versions\<close>

fun semver_loop :: "nat \<Rightarrow> string list \<Rightarrow> int list \<times> bool" where
  "semver_loop 0 nums = ([], True)"
| "semver_loop (Suc n) [] = (case semver_loop n [] of (out, valid) \<Rightarrow> (0 # out, valid))"
| "semver_loop (Suc n) (s # nums) =
     (case semver_loop n nums of (out, valid) \<Rightarrow>
        (case ParseInt s of Some i \<Rightarrow> (i # out, valid) | None \<Rightarrow> (0 # out, False)))"

definition parseSemver :: "string \<Rightarrow> int list \<times> bool" where
  "parseSemver v =
     (let v = TrimPrefix (TrimSpace v) ''v''
      in if v = [] then ([0, 0, 0], False)
         else semver_loop 3 (Split (hd (Split v CHR ''-'')) CHR ''.''))"

fun compare_parts :: "int list \<Rightarrow> int list \<Rightarrow> int" where
  "compare_parts (a # as) (b # bs) = (if a \<noteq> b then (if a > b then 1 else -1) else compare_parts as bs)"
| "compare_parts as bs = 0"

definition compareSemver :: "string \<Rightarrow> string \<Rightarrow> int" where
  "compareSemver a b =
     (case parseSemver a of (pa, ba) \<Rightarrow>
      case parseSemver b of (pb, bb) \<Rightarrow>
        if ba \<noteq> bb then (if ba then 1 else -1) else compare_parts pa pb)"

text \<open>\<open>txt\<close> is the text of an error; what is returned with an error is read by nobody.\<close>

definition check ::
  "(update_error \<Rightarrow> string) \<Rightarrow> string \<times> string \<Rightarrow> http_answer \<Rightarrow> string \<Rightarrow> State \<times> update_error option" where
  "check txt p w installed =
     (case fetchLatestRelease w of
        Inl e \<Rightarrow> (\<lparr>us_Installed = installed, us_Latest = [], us_Available = False, us_AssetName = [],
                    us_AssetSize = 0, us_ReleaseURL = [], us_Err = txt e\<rparr>, Some e)
      | Inr rel \<Rightarrow>
          (let latest = (if rl_TagName rel \<noteq> [] \<and> \<not> HasPrefix (rl_TagName rel) ''v'' then CHR ''v'' # rl_TagName rel
                         else rl_TagName rel);
               asset = (case findAssetByName p rel of Inl e \<Rightarrow> ([], 0) | Inr a \<Rightarrow> (as_Name a, as_Size a))
           in (\<lparr>us_Installed = installed, us_Latest = latest,
                us_Available = (\<not> snd (parseSemver installed) \<or> compareSemver latest installed > 0),
                us_AssetName = fst asset, us_AssetSize = snd asset,
                us_ReleaseURL = ''https://github.com/asmarin1996/pxproxy/releases/tag/'' @ rl_TagName rel,
                us_Err = []\<rparr>, None)))"

section \<open>Files\<close>

type_synonym files = "string \<rightharpoonup> string"

text \<open>Copying the answer into the file may stop with a part of it.\<close>

record filesystem =
  fo_create :: "string \<Rightarrow> bool"
  fo_copy :: "string option"
  fo_close :: bool
  fo_rename :: "string \<Rightarrow> string \<Rightarrow> bool"
  fo_remove :: "string \<Rightarrow> bool"
  fo_script :: bool

definition remove_path :: "filesystem \<Rightarrow> string \<Rightarrow> files \<Rightarrow> files" where
  "remove_path sy p fs = (if fo_remove sy p then fs(p := None) else fs)"

definition rename_path :: "filesystem \<Rightarrow> string \<Rightarrow> string \<Rightarrow> files \<Rightarrow> bool \<times> files" where
  "rename_path sy a b fs =
     (case fs a of
        None \<Rightarrow> (False, fs)
      | Some c \<Rightarrow> if fo_rename sy a b then (True, fs(a := None, b \<mapsto> c)) else (False, fs))"

definition asset_url :: "Release \<Rightarrow> Asset \<Rightarrow> string" where
  "asset_url rel a =
     (if as_URL a = []
      then ''https://github.com/asmarin1996/pxproxy/releases/download/'' @ rl_TagName rel @ ''/'' @ as_Name a
      else as_URL a)"

definition downloadAsset ::
  "filesystem \<Rightarrow> (string \<Rightarrow> http_answer) \<Rightarrow> Release \<Rightarrow> Asset \<Rightarrow> string \<Rightarrow> files \<Rightarrow> update_error option \<times> files" where
  "downloadAsset sy web rel a dest fs =
     (case web (asset_url rel a) of
        NoAnswerAt msg \<Rightarrow> (Some (NetError msg), fs)
      | AnswerOf status body \<Rightarrow>
          if status \<noteq> 200 then (Some (BadStatus status []), fs)
          else (let tmp = dest @ ''.part''
                in if \<not> fo_create sy tmp then (Some FileError, fs)
                   else (case fo_copy sy of
                           Some part \<Rightarrow> (Some FileError, remove_path sy tmp (fs(tmp \<mapsto> part)))
                         | None \<Rightarrow>
                             if \<not> fo_close sy then (Some FileError, remove_path sy tmp (fs(tmp \<mapsto> body)))
                             else (case rename_path sy tmp dest (fs(tmp \<mapsto> body)) of
                                     (True, fs') \<Rightarrow> (None, fs')
                                   | (False, fs') \<Rightarrow> (Some FileError, remove_path sy tmp fs')))))"

text \<open>\<open>dir\<close> is the directory of the binary, with the separator at its end.\<close>

definition apply_update ::
  "string \<times> string \<Rightarrow> filesystem \<Rightarrow> http_answer \<Rightarrow> (string \<Rightarrow> http_answer) \<Rightarrow> string \<Rightarrow> string \<Rightarrow> files \<Rightarrow>
   (update_error + string) \<times> files" where
  "apply_update p sy api web dir exe fs =
     (case fetchLatestRelease api of
        Inl e \<Rightarrow> (Inl e, fs)
      | Inr rel \<Rightarrow>
          (case findAssetByName p rel of
             Inl e \<Rightarrow> (Inl e, fs)
           | Inr asset \<Rightarrow>
               (let tmp = dir @ ''pxproxy.update''; backup = exe @ ''.bak''
                in case downloadAsset sy web rel asset tmp fs of
                     (Some e, fs1) \<Rightarrow> (Inl e, fs1)
                   | (None, fs1) \<Rightarrow>
                       (case (if fs1 exe = None then (True, fs1)
                              else rename_path sy exe backup (remove_path sy backup fs1)) of
                          (False, fs2) \<Rightarrow> (Inl FileError, remove_path sy tmp fs2)
                        | (True, fs2) \<Rightarrow>
                            (case rename_path sy tmp exe fs2 of
                               (True, fs3) \<Rightarrow> (Inr exe, fs3)
                             | (False, fs3) \<Rightarrow>
                                 (Inl FileError, remove_path sy tmp (snd (rename_path sy backup exe fs3))))))))"

section \<open>The restart script\<close>

datatype command =
    WaitFor int
  | Copy string string
  | Move string string
  | Chmod string
  | Del string
  | Start string "string list"
  | RemoveSelf

definition quoted_path :: "string \<Rightarrow> string" where
  "quoted_path p = [CHR 0x22] @ p @ [CHR 0x22]"

definition sh_text :: "command \<Rightarrow> string" where
  "sh_text c =
     (case c of
        WaitFor pid \<Rightarrow> ''while kill -0 '' @ Itoa pid @ '' 2>/dev/null; do sleep 1; done''
      | Copy a b \<Rightarrow> ''cp -f '' @ quoted_path a @ '' '' @ quoted_path b
      | Move a b \<Rightarrow> ''mv -f '' @ quoted_path a @ '' '' @ quoted_path b
      | Chmod p \<Rightarrow> ''chmod 755 '' @ quoted_path p
      | Del p \<Rightarrow> ''rm -f '' @ quoted_path p
      | Start p args \<Rightarrow> ''nohup '' @ quoted_path p @ shArgs args @ '' >/dev/null 2>&1 &''
      | RemoveSelf \<Rightarrow> ''rm -f '' @ quoted_path ''$0'') @ [CHR 0x0A]"

definition crlf :: string where
  "crlf = [CHR 0x0D, CHR 0x0A]"

definition cmd_text :: "command \<Rightarrow> string" where
  "cmd_text c =
     (case c of
        WaitFor pid \<Rightarrow>
          '':WAIT'' @ crlf @
          ''tasklist /FI '' @ quoted_path (''PID eq '' @ Itoa pid) @ '' 2>nul | findstr '' @ quoted_path (Itoa pid) @
            '' >nul'' @ crlf @
          ''if errorlevel 1 goto DOIT'' @ crlf @
          ''timeout /t 1 /nobreak >nul'' @ crlf @
          ''goto WAIT'' @ crlf @
          '':DOIT''
      | Copy a b \<Rightarrow> ''copy /y '' @ quoted_path a @ '' '' @ quoted_path b @ '' >nul''
      | Move a b \<Rightarrow> ''move /y '' @ quoted_path a @ '' '' @ quoted_path b @ '' >nul''
      | Chmod p \<Rightarrow> []
      | Del p \<Rightarrow> ''del '' @ quoted_path p @ '' >nul 2>nul''
      | Start p args \<Rightarrow> ''start '' @ quoted_path [] @ '' /b '' @ quoted_path p @ cmdArgs args
      | RemoveSelf \<Rightarrow> ''del '' @ quoted_path ''%~f0'' @ '' >nul 2>nul'') @ crlf"

definition restart_commands :: "string \<Rightarrow> int \<Rightarrow> string \<Rightarrow> string \<Rightarrow> string list \<Rightarrow> command list" where
  "restart_commands goos pid exe tmp args =
     (let backup = exe @ ''.bak''
      in if goos = ''windows''
         then [WaitFor pid, Copy tmp backup, Move tmp exe, Del backup, Start exe args, RemoveSelf]
         else [WaitFor pid, Move tmp backup, Move backup exe, Chmod exe, Start exe args, RemoveSelf])"

definition script_text :: "string \<Rightarrow> int \<Rightarrow> string \<Rightarrow> string \<Rightarrow> string list \<Rightarrow> string" where
  "script_text goos pid exe tmp args =
     (let cmds = restart_commands goos pid exe tmp args
      in if goos = ''windows''
         then ''@echo off'' @ crlf @ ''rem pxproxy auto-update'' @ crlf @ concat (map cmd_text cmds)
         else ''#!/bin/sh'' @ [CHR 0x0A] @ concat (map sh_text cmds))"

definition scriptExt :: "string \<Rightarrow> string" where
  "scriptExt goos = (if goos = ''windows'' then ''.cmd'' else ''.sh'')"

text \<open>A script that could not be written is taken to leave nothing behind.\<close>

definition scheduleRestart ::
  "string \<Rightarrow> filesystem \<Rightarrow> int \<Rightarrow> string \<Rightarrow> string \<Rightarrow> string \<Rightarrow> string list \<Rightarrow> files \<Rightarrow> string option \<times> files" where
  "scheduleRestart goos sy pid dir exe tmp args fs =
     (let script = dir @ ''pxproxy-restart'' @ scriptExt goos
      in if fo_script sy then (Some script, fs(script \<mapsto> script_text goos pid exe tmp args)) else (None, fs))"

text \<open>
  What the commands make of the files, each in turn, once the process has ended; \<open>self\<close> is the
  script's path.
\<close>

definition run_command :: "string \<Rightarrow> command \<Rightarrow> files \<Rightarrow> files" where
  "run_command self c fs =
     (case c of
        Copy a b \<Rightarrow> (case fs a of None \<Rightarrow> fs | Some x \<Rightarrow> fs(b \<mapsto> x))
      | Move a b \<Rightarrow> (case fs a of None \<Rightarrow> fs | Some x \<Rightarrow> fs(a := None, b \<mapsto> x))
      | Del p \<Rightarrow> fs(p := None)
      | RemoveSelf \<Rightarrow> fs(self := None)
      | _ \<Rightarrow> fs)"

section \<open>Handlers\<close>

definition state_json :: "State \<Rightarrow> json" where
  "state_json s = JObj
     ([(''installed_version'', JStr (us_Installed s)), (''latest_version'', JStr (us_Latest s)),
      (''update_available'', JBool (us_Available s)), (''asset_name'', JStr (us_AssetName s)),
      (''asset_size'', JInt (us_AssetSize s)), (''release_url'', JStr (us_ReleaseURL s))] @
     (if us_Err s = [] then [] else [(''error'', JStr (us_Err s))]))"

definition handleUpdateInfo ::
  "(update_error \<Rightarrow> string) \<Rightarrow> string \<times> string \<Rightarrow> http_answer \<Rightarrow> string \<Rightarrow> response" where
  "handleUpdateInfo txt p w version =
     (case check txt p w version of
        (st, Some e) \<Rightarrow> jsonErr 502 (''no se pudo comprobar actualizaciones: '' @ txt e)
      | (st, None) \<Rightarrow> writeJSON 200 (state_json st))"

text \<open>
  \<open>exe_at\<close> is where the running binary is, its directory and its path (\<open>None\<close>: not found). GitHub is
  asked twice, for the check and for what is installed.
\<close>

definition handleUpdateApply ::
  "(update_error \<Rightarrow> string) \<Rightarrow> string \<times> string \<Rightarrow> filesystem \<Rightarrow> http_answer \<Rightarrow> http_answer \<Rightarrow>
   (string \<Rightarrow> http_answer) \<Rightarrow> int \<Rightarrow> string list \<Rightarrow> string \<Rightarrow> (string \<times> string) option \<Rightarrow> request \<Rightarrow> Admin \<times> files \<Rightarrow> response \<times> Admin \<times> files" where
  "handleUpdateApply txt p sy w1 w2 web pid args version exe_at r s =
     (case check txt p w1 version of
        (st, Some e) \<Rightarrow> (jsonErr 502 (txt e), s)
      | (st, None) \<Rightarrow>
          if \<not> us_Available st
          then (writeJSON 200 (JObj [(''ok'', JBool False), (''reason'', JStr ''ya tienes la ultima version'')]), s)
          else (case exe_at of
                  None \<Rightarrow> (jsonErr 500 (''no se pudo localizar el binario: '' @ txt FileError), s)
                | Some (dir, exe) \<Rightarrow>
                    (case fetchLatestRelease w2 of
                       Inl e \<Rightarrow> (jsonErr 502 (txt e), s)
                     | Inr rel \<Rightarrow>
                         (case findAssetByName p rel of
                            Inl e \<Rightarrow> (jsonErr 400 (txt e), s)
                          | Inr asset \<Rightarrow>
                              (let tmp = dir @ ''pxproxy.update''
                               in case downloadAsset sy web rel asset tmp (snd s) of
                                    (Some e, fs) \<Rightarrow> (jsonErr 500 (''fallo la descarga: '' @ txt e), fst s, fs)
                                  | (None, fs) \<Rightarrow>
                                      (case scheduleRestart (fst p) sy pid dir exe tmp args fs of
                                         (None, fs') \<Rightarrow> (jsonErr 500 (txt FileError), fst s, remove_path sy tmp fs')
                                       | (Some script, fs') \<Rightarrow>
                                           (writeJSON 200 (JObj
                                              [(''await_restart'', JBool True), (''new_version'', JStr (rl_TagName rel)),
                                               (''ok'', JBool True), (''restart_script'', JStr script)]),
                                            admin_audit ''update_scheduled'' r [] (''a '' @ rl_TagName rel) (fst s), fs')))))))"

section \<open>Which release is offered\<close>

definition version_numbers :: "string \<Rightarrow> int \<times> int \<times> int" where
  "version_numbers v = (case fst (parseSemver v) of [a, b, c] \<Rightarrow> (a, b, c) | _ \<Rightarrow> (0, 0, 0))"

lemma semver_loop_length: "length (fst (semver_loop n nums)) = n"
proof (induction n nums rule: semver_loop.induct)
  case (1 nums)
  then show ?case by simp
next
  case (2 n)
  then show ?case by (cases "semver_loop n []") simp
next
  case (3 n s nums)
  then show ?case by (cases "semver_loop n nums") (simp split: option.split)
qed

lemma parseSemver_length: "length (fst (parseSemver v)) = 3"
  by (simp add: parseSemver_def Let_def semver_loop_length)

lemma parseSemver_numbers:
  "fst (parseSemver v) =
     [fst (version_numbers v), fst (snd (version_numbers v)), snd (snd (version_numbers v))]"
  using parseSemver_length [of v] by (auto simp: version_numbers_def length_Suc_conv numeral_3_eq_3)

lemma compare_parts_less:
  "compare_parts [a1, a2, a3] [b1, b2, b3] = (if (a1, a2, a3) = (b1, b2, b3) then 0
     else if (b1, b2, b3) < (a1, a2, a3) then 1 else - 1)"
  by (auto simp: less_prod_def)

lemma compareSemver_less:
  "compareSemver a b =
     (if snd (parseSemver a) \<noteq> snd (parseSemver b) then (if snd (parseSemver a) then 1 else - 1)
      else if version_numbers a = version_numbers b then 0
      else if version_numbers b < version_numbers a then 1 else - 1)"
proof -
  obtain a1 a2 a3 where a: "version_numbers a = (a1, a2, a3)" by (cases "version_numbers a") auto
  obtain b1 b2 b3 where b: "version_numbers b = (b1, b2, b3)" by (cases "version_numbers b") auto
  have pa: "parseSemver a = ([a1, a2, a3], snd (parseSemver a))"
    using parseSemver_numbers [of a] a by (cases "parseSemver a") simp
  have pb: "parseSemver b = ([b1, b2, b3], snd (parseSemver b))"
    using parseSemver_numbers [of b] b by (cases "parseSemver b") simp
  show ?thesis
    by (subst compareSemver_def, subst pa, subst pb) (simp only: prod.case compare_parts_less a b)
qed

lemma compareSemver_swap: "compareSemver b a = - compareSemver a b"
  by (auto simp: compareSemver_less)

text \<open>
  A check that answers offers the release exactly when the installed version is not a version
  number, or the release's is one and its three numbers are greater in lexicographic order; the
  comparison is antisymmetric, so no pair of versions is offered both ways.
\<close>

theorem update_offers_newer:
  assumes "check txt p w installed = (st, None)"
  shows "(us_Available st \<longleftrightarrow>
      \<not> snd (parseSemver installed)
      \<or> snd (parseSemver (us_Latest st)) \<and> version_numbers installed < version_numbers (us_Latest st))
    \<and> us_Installed st = installed
    \<and> compareSemver installed (us_Latest st) = - compareSemver (us_Latest st) installed"
proof (intro conjI)
  obtain rel where "fetchLatestRelease w = Inr rel"
    using assms by (cases "fetchLatestRelease w") (simp_all add: check_def)
  then have st: "us_Available st \<longleftrightarrow> \<not> snd (parseSemver installed) \<or> compareSemver (us_Latest st) installed > 0"
    "us_Installed st = installed"
    using assms by (auto simp: check_def Let_def)
  show "us_Available st \<longleftrightarrow>
      \<not> snd (parseSemver installed)
      \<or> snd (parseSemver (us_Latest st)) \<and> version_numbers installed < version_numbers (us_Latest st)"
    unfolding st compareSemver_less by auto
  show "us_Installed st = installed" by (rule st)
  show "compareSemver installed (us_Latest st) = - compareSemver (us_Latest st) installed"
    by (rule compareSemver_swap)
qed

definition sample_release :: string where
  "sample_release =
     ''{'' @ quoted_path ''tag_name'' @ '':'' @ quoted_path ''2.10.0'' @ '','' @
     quoted_path ''assets'' @ '':[{'' @ quoted_path ''name'' @ '':'' @ quoted_path ''pxproxy-linux-amd64'' @ ''}]}''"

lemma fetch_sample:
  "fetchLatestRelease (AnswerOf 200 sample_release) =
     Inr (no_release\<lparr>rl_TagName := ''2.10.0'', rl_Assets := [no_asset\<lparr>as_Name := ''pxproxy-linux-amd64''\<rparr>]\<rparr>)"
  by code_simp

lemma update_offers_newer_witness:
  "us_Available (fst (check (\<lambda>e. []) (''linux'', ''amd64'') (AnswerOf 200 sample_release) ''v2.9.3''))"
proof -
  have "check (\<lambda>e. []) (''linux'', ''amd64'') (AnswerOf 200 sample_release) ''v2.9.3'' =
     (\<lparr>us_Installed = ''v2.9.3'', us_Latest = ''v2.10.0'', us_Available = True,
       us_AssetName = ''pxproxy-linux-amd64'', us_AssetSize = 0,
       us_ReleaseURL = ''https://github.com/asmarin1996/pxproxy/releases/tag/2.10.0'', us_Err = []\<rparr>, None)"
    unfolding check_def fetch_sample by code_simp
  from update_offers_newer [OF this] show ?thesis
    by code_simp
qed

section \<open>What becomes of the files\<close>

lemma downloadAsset_done:
  assumes "downloadAsset sy web rel a dest fs = (None, fs')"
  shows "\<exists>body. web (asset_url rel a) = AnswerOf 200 body
    \<and> fs' = (fs(dest @ ''.part'' := None))(dest \<mapsto> body)"
  using assms
  by (auto simp: downloadAsset_def Let_def rename_path_def split: http_answer.splits if_splits option.splits
      intro!: exI ext)

lemma downloadAsset_other:
  assumes "downloadAsset sy web rel a dest fs = (res, fs')" and "q \<noteq> dest" and "q \<noteq> dest @ ''.part''"
  shows "fs' q = fs q"
  using assms
  by (auto simp: downloadAsset_def Let_def rename_path_def remove_path_def
      split: http_answer.splits if_splits option.splits)

lemma downloadAsset_failed:
  assumes "downloadAsset sy web rel a dest fs = (Some e, fs')" and "q \<noteq> dest @ ''.part''"
  shows "fs' q = fs q"
  using assms
  by (auto simp: downloadAsset_def Let_def rename_path_def remove_path_def
      split: http_answer.splits if_splits option.splits)

lemma backup_not_downloaded:
  "exe @ ''.bak'' \<noteq> dir @ ''pxproxy.update''" "exe @ ''.bak'' \<noteq> dir @ ''pxproxy.update.part''"
proof -
  have "last (exe @ ''.bak'') \<noteq> last (dir @ ''pxproxy.update'')" by simp
  then show "exe @ ''.bak'' \<noteq> dir @ ''pxproxy.update''" by metis
  have "last (exe @ ''.bak'') \<noteq> last (dir @ ''pxproxy.update.part'')" by simp
  then show "exe @ ''.bak'' \<noteq> dir @ ''pxproxy.update.part''" by metis
qed

text \<open>
  C35: Replacing the binary is all or nothing. As long as the old binary can be moved back, a
  failure at any step (no release, no asset, a broken download, a rename refused) leaves the old
  binary where it was; success leaves the downloaded one there and the old one as the \<open>.bak\<close>; no
  other file is touched.
\<close>

theorem update_all_or_nothing:
  assumes old: "fs exe = Some old"
    and names: "exe \<noteq> dir @ ''pxproxy.update''" "exe \<noteq> dir @ ''pxproxy.update.part''"
    and undo: "fo_rename sy (exe @ ''.bak'') exe"
    and run: "apply_update p sy api web dir exe fs = (res, fs')"
  shows "(case res of
       Inl e \<Rightarrow> fs' exe = Some old
     | Inr path \<Rightarrow> path = exe \<and> fs' (exe @ ''.bak'') = Some old
         \<and> (\<exists>rel asset body. fetchLatestRelease api = Inr rel \<and> findAssetByName p rel = Inr asset
              \<and> web (asset_url rel asset) = AnswerOf 200 body \<and> fs' exe = Some body))
    \<and> (\<forall>q. q \<in> {exe, exe @ ''.bak'', dir @ ''pxproxy.update'', dir @ ''pxproxy.update.part''} \<or> fs' q = fs q)"
proof (cases "\<exists>e. res = Inl e \<and> fs' = fs")
  case True
  then show ?thesis using old by auto
next
  case False
  let ?tmp = "dir @ ''pxproxy.update''"
  obtain rel asset where rel: "fetchLatestRelease api = Inr rel" "findAssetByName p rel = Inr asset"
    using False run by (auto simp: apply_update_def split: sum.splits)
  obtain r fs1 where d: "downloadAsset sy web rel asset ?tmp fs = (r, fs1)" by force
  have part: "?tmp @ ''.part'' = dir @ ''pxproxy.update.part''" by simp
  note nb = backup_not_downloaded [of exe dir]
  show ?thesis
  proof (cases r)
    case (Some e)
    then have "res = Inl e" "fs' = fs1" using run d by (simp_all add: apply_update_def rel)
    moreover have "fs1 q = fs q" if "q \<noteq> dir @ ''pxproxy.update.part''" for q
      using downloadAsset_failed [OF d [unfolded Some]] that by (simp add: part)
    ultimately show ?thesis using old names by auto
  next
    case None
    obtain body where body: "web (asset_url rel asset) = AnswerOf 200 body"
      and fs1: "fs1 = (fs(dir @ ''pxproxy.update.part'' := None))(?tmp \<mapsto> body)"
      using downloadAsset_done [OF d [unfolded None]] by (auto simp: part)
    have run': "(case rename_path sy exe (exe @ ''.bak'') (remove_path sy (exe @ ''.bak'') fs1) of
          (False, fs2) \<Rightarrow> (Inl FileError, remove_path sy ?tmp fs2)
        | (True, fs2) \<Rightarrow>
            (case rename_path sy ?tmp exe fs2 of
               (True, fs3) \<Rightarrow> (Inr exe, fs3)
             | (False, fs3) \<Rightarrow>
                 (Inl FileError, remove_path sy ?tmp (snd (rename_path sy (exe @ ''.bak'') exe fs3))))) = (res, fs')"
      using run old names by (simp add: apply_update_def rel d None fs1 Let_def cong: if_cong)
    show ?thesis
      using run' old names undo nb body
      by (auto simp: fs1 rel rename_path_def remove_path_def split: if_splits)
  qed
qed

definition sample_files :: files where
  "sample_files = [''/opt/pxproxy'' \<mapsto> ''old'']"

definition no_moves_out :: filesystem where
  "no_moves_out = \<lparr>fo_create = (\<lambda>p. True), fo_copy = None, fo_close = True,
     fo_rename = (\<lambda>a b. a \<noteq> ''/opt/pxproxy.update''), fo_remove = (\<lambda>p. True), fo_script = True\<rparr>"

text \<open>The case that needs the way back: the new binary cannot be moved into place.\<close>

lemma update_all_or_nothing_witness:
  "snd (apply_update (''linux'', ''amd64'') no_moves_out (AnswerOf 200 sample_release) (\<lambda>u. AnswerOf 200 ''new'')
     ''/opt/'' ''/opt/pxproxy'' sample_files) ''/opt/pxproxy'' = Some ''old''"
proof -
  let ?r = "apply_update (''linux'', ''amd64'') no_moves_out (AnswerOf 200 sample_release) (\<lambda>u. AnswerOf 200 ''new'')
     ''/opt/'' ''/opt/pxproxy'' sample_files"
  have run: "?r = (Inl FileError, snd ?r)"
    unfolding apply_update_def fetch_sample
    by (simp add: findAssetByName_def AssetNameForPlatform_def Let_def downloadAsset_def asset_url_def
        no_asset_def no_moves_out_def rename_path_def remove_path_def sample_files_def)
  show ?thesis
    using update_all_or_nothing [of sample_files "''/opt/pxproxy''" "''old''" "''/opt/''" no_moves_out, OF _ _ _ _ run]
    by (simp add: sample_files_def no_moves_out_def)
qed

section \<open>What the restart leaves\<close>

lemma script_elsewhere:
  "dir @ ''pxproxy-restart'' @ scriptExt g \<noteq> exe @ ''.bak''"
  "dir @ ''pxproxy-restart'' @ scriptExt g \<noteq> dir @ ''pxproxy.update''"
proof -
  have "last (dir @ ''pxproxy-restart'' @ scriptExt g) \<noteq> last (exe @ ''.bak'')"
    by (simp add: scriptExt_def)
  then show "dir @ ''pxproxy-restart'' @ scriptExt g \<noteq> exe @ ''.bak''" by metis
  show "dir @ ''pxproxy-restart'' @ scriptExt g \<noteq> dir @ ''pxproxy.update''" by (simp add: scriptExt_def)
qed

lemma run_restart:
  assumes "distinct [exe, exe @ ''.bak'', tmp, self, part]"
  shows "fold (run_command self) (restart_commands g pid exe tmp args) (fs(part := None, tmp \<mapsto> new, self \<mapsto> c)) =
    fs(part := None, tmp := None, exe @ ''.bak'' := None, self := None, exe \<mapsto> new)"
  using assms by (auto simp: restart_commands_def run_command_def Let_def fun_upd_def)

definition awaiting :: "string \<Rightarrow> Release \<Rightarrow> response" where
  "awaiting script rel = writeJSON 200 (JObj
     [(''await_restart'', JBool True), (''new_version'', JStr (rl_TagName rel)),
      (''ok'', JBool True), (''restart_script'', JStr script)])"

lemma not_awaiting:
  "jsonErr n m \<noteq> awaiting script rel"
  "writeJSON 200 (JObj [(''ok'', JBool b), (k, v)]) \<noteq> awaiting script rel"
  by (auto simp: awaiting_def jsonErr_def writeJSON_def)

text \<open>What the handler does, as the files go.\<close>

lemma handleUpdateApply_logs:
  "\<exists>es. fst (snd (handleUpdateApply txt p sy w1 w2 web pid args version exe_at r (a, fs))) = logged es a"
proof -
  let ?h = "handleUpdateApply txt p sy w1 w2 web pid args version exe_at r (a, fs)"
  obtain st e where c: "check txt p w1 version = (st, e)" by fastforce
  show ?thesis
  proof (cases "e = None \<and> us_Available st")
    case False
    then have "fst (snd ?h) = a" by (cases e) (simp_all add: handleUpdateApply_def c)
    then show ?thesis using logged_entry(3) by metis
  next
    case on: True
    show ?thesis
    proof (cases exe_at)
      case None
      then have "fst (snd ?h) = a" using on by (simp add: handleUpdateApply_def c)
      then show ?thesis using logged_entry(3) by metis
    next
      case (Some d)
      obtain dir exe where d: "d = (dir, exe)" by fastforce
      show ?thesis
      proof (cases "fetchLatestRelease w2")
        case (Inl e)
        then have "fst (snd ?h) = a" using on by (simp add: handleUpdateApply_def c Some d)
        then show ?thesis using logged_entry(3) by metis
      next
        case rel: (Inr rel)
        show ?thesis
        proof (cases "findAssetByName p rel")
          case (Inl e)
          then have "fst (snd ?h) = a" using on by (simp add: handleUpdateApply_def c Some d rel)
          then show ?thesis using logged_entry(3) by metis
        next
          case asset: (Inr asset)
          let ?tmp = "dir @ ''pxproxy.update''"
          obtain de fs1 where f: "downloadAsset sy web rel asset ?tmp fs = (de, fs1)" by fastforce
          obtain s fs2 where g: "scheduleRestart (fst p) sy pid dir exe ?tmp args fs1 = (s, fs2)" by fastforce
          have "fst (snd ?h) = a \<or> (\<exists>m. fst (snd ?h) = admin_audit ''update_scheduled'' r [] m a)"
            using on f g by (cases de; cases s) (auto simp: handleUpdateApply_def c Some d rel asset Let_def)
          then show ?thesis using logged_entry by metis
        qed
      qed
    qed
  qed
qed

lemma handleUpdateApply_cases:
  assumes "handleUpdateApply txt p sy w1 w2 web pid args version (Some (dir, exe)) r (a, fs) = (resp, a', fs')"
    and "exe \<noteq> dir @ ''pxproxy.update''" and "exe \<noteq> dir @ ''pxproxy.update.part''"
    and "exe \<noteq> dir @ ''pxproxy-restart'' @ scriptExt (fst p)"
  shows "fs' exe = fs exe
    \<and> ((\<forall>script rel. resp \<noteq> awaiting script rel)
      \<or> (\<exists>rel asset new. resp = awaiting (dir @ ''pxproxy-restart'' @ scriptExt (fst p)) rel
           \<and> fetchLatestRelease w2 = Inr rel \<and> findAssetByName p rel = Inr asset
           \<and> web (asset_url rel asset) = AnswerOf 200 new
           \<and> fs' = fs(dir @ ''pxproxy.update.part'' := None, dir @ ''pxproxy.update'' \<mapsto> new,
                dir @ ''pxproxy-restart'' @ scriptExt (fst p) \<mapsto>
                  script_text (fst p) pid exe (dir @ ''pxproxy.update'') args)))"
proof -
  obtain st e where c: "check txt p w1 version = (st, e)" by force
  show ?thesis
  proof (cases "e \<noteq> None \<or> \<not> us_Available st")
    case True
    then show ?thesis
      using assms(1) c by (cases e; cases "us_Available st") (auto simp: handleUpdateApply_def not_awaiting)
  next
    case False
    then have c: "check txt p w1 version = (st, None)" and on: "us_Available st" using c by auto
    show ?thesis
    proof (cases "fetchLatestRelease w2")
      case (Inl e)
      then show ?thesis using assms(1) on c by (auto simp: handleUpdateApply_def not_awaiting)
    next
      case rel: (Inr rel)
      show ?thesis
      proof (cases "findAssetByName p rel")
        case (Inl e)
        then show ?thesis using assms(1) on c rel by (auto simp: handleUpdateApply_def not_awaiting)
      next
        case asset: (Inr asset)
        obtain res fs1 where d: "downloadAsset sy web rel asset (dir @ ''pxproxy.update'') fs = (res, fs1)" by force
        have same: "fs1 exe = fs exe" using downloadAsset_other [OF d] assms by simp
        show ?thesis
        proof (cases res)
          case (Some e)
          then show ?thesis
            using assms(1) on c rel asset d same
            by (auto simp: handleUpdateApply_def not_awaiting Let_def)
        next
          case None
          obtain new where new: "web (asset_url rel asset) = AnswerOf 200 new"
            "fs1 = fs(dir @ ''pxproxy.update.part'' := None, dir @ ''pxproxy.update'' \<mapsto> new)"
            using downloadAsset_done [OF d [unfolded None]] by auto
          show ?thesis
            using assms on c rel asset d [unfolded None] same new
            by (cases "fo_script sy")
              (auto simp: handleUpdateApply_def not_awaiting scheduleRestart_def Let_def remove_path_def
                awaiting_def [symmetric])
        qed
      qed
    qed
  qed
qed

text \<open>
  C36: The handler itself never touches the running binary. When it answers that a restart is
  awaited, the script it wrote, run once the process has ended, puts the file it downloaded in the
  binary's place, on Windows as on Unix, and removes itself; of the old binary nothing is left, not
  even the \<open>.bak\<close> that its comment promises.
\<close>

theorem restart_installs:
  assumes names: "exe \<noteq> dir @ ''pxproxy.update''" "exe \<noteq> dir @ ''pxproxy.update.part''"
      "exe \<noteq> dir @ ''pxproxy-restart'' @ scriptExt (fst p)"
    and run: "handleUpdateApply txt p sy w1 w2 web pid args version (Some (dir, exe)) r (a, fs) = (resp, a', fs')"
  shows "fs' exe = fs exe
    \<and> ((\<forall>script rel. resp \<noteq> awaiting script rel)
      \<or> (\<exists>rel asset new script cmds.
           resp = awaiting script rel \<and> fetchLatestRelease w2 = Inr rel \<and> findAssetByName p rel = Inr asset
           \<and> web (asset_url rel asset) = AnswerOf 200 new
           \<and> cmds = restart_commands (fst p) pid exe (dir @ ''pxproxy.update'') args
           \<and> fs' script = Some (script_text (fst p) pid exe (dir @ ''pxproxy.update'') args)
           \<and> fold (run_command script) cmds fs' =
               fs(dir @ ''pxproxy.update.part'' := None, dir @ ''pxproxy.update'' := None,
                  exe @ ''.bak'' := None, script := None, exe \<mapsto> new)))"
proof -
  let ?script = "dir @ ''pxproxy-restart'' @ scriptExt (fst p)"
  let ?tmp = "dir @ ''pxproxy.update''"
  let ?part = "dir @ ''pxproxy.update.part''"
  have "?script \<noteq> ?part" by (simp add: scriptExt_def)
  then have apart: "distinct [exe, exe @ ''.bak'', ?tmp, ?script, ?part]"
    using names script_elsewhere(1) [of dir "fst p" exe] script_elsewhere(2) [of dir "fst p"] backup_not_downloaded [of exe dir]
    by (simp only: distinct.simps list.set) auto
  show ?thesis
    using handleUpdateApply_cases [OF run names]
  proof (elim conjE disjE exE)
    fix rel asset new
    assume "resp = awaiting ?script rel" "fetchLatestRelease w2 = Inr rel" "findAssetByName p rel = Inr asset"
      "web (asset_url rel asset) = AnswerOf 200 new"
      and fs': "fs' = fs(?part := None, ?tmp \<mapsto> new, ?script \<mapsto> script_text (fst p) pid exe ?tmp args)"
      and "fs' exe = fs exe"
    then show ?thesis
      using run_restart [OF apart, where g = "fst p" and pid = pid and args = args and fs = fs and new = new
        and c = "script_text (fst p) pid exe ?tmp args", folded fs']
      by (intro conjI disjI2 exI [of _ rel] exI [of _ asset] exI [of _ new] exI [of _ ?script]
          exI [of _ "restart_commands (fst p) pid exe ?tmp args"]) simp_all
  qed simp
qed

definition plain_files :: filesystem where
  "plain_files = \<lparr>fo_create = (\<lambda>p. True), fo_copy = None, fo_close = True,
     fo_rename = (\<lambda>a b. True), fo_remove = (\<lambda>p. True), fo_script = True\<rparr>"

lemma sample_check:
  "check txt (''linux'', ''amd64'') (AnswerOf 200 sample_release) ''dev'' =
     (\<lparr>us_Installed = ''dev'', us_Latest = ''v2.10.0'', us_Available = True,
       us_AssetName = ''pxproxy-linux-amd64'', us_AssetSize = 0,
       us_ReleaseURL = ''https://github.com/asmarin1996/pxproxy/releases/tag/2.10.0'', us_Err = []\<rparr>, None)"
  unfolding check_def fetch_sample by code_simp

lemma restart_installs_witness:
  "\<forall>a. \<exists>a' rel fs'.
     handleUpdateApply (\<lambda>e. []) (''linux'', ''amd64'') plain_files (AnswerOf 200 sample_release)
       (AnswerOf 200 sample_release) (\<lambda>u. AnswerOf 200 ''new'') 7 [''-v''] ''dev'' (Some (''/opt/'', ''/opt/pxproxy''))
       (sample_request []) (a, sample_files) = (awaiting ''/opt/pxproxy-restart.sh'' rel, a', fs')
     \<and> fold (run_command ''/opt/pxproxy-restart.sh'')
         (restart_commands ''linux'' 7 ''/opt/pxproxy'' ''/opt/pxproxy.update'' [''-v'']) fs' = [''/opt/pxproxy'' \<mapsto> ''new'']"
proof
  fix a
  let ?h = "handleUpdateApply (\<lambda>e. []) (''linux'', ''amd64'') plain_files (AnswerOf 200 sample_release)
       (AnswerOf 200 sample_release) (\<lambda>u. AnswerOf 200 ''new'') 7 [''-v''] ''dev'' (Some (''/opt/'', ''/opt/pxproxy''))
       (sample_request []) (a, sample_files)"
  obtain resp a' fs' where h: "?h = (resp, a', fs')" by (metis surj_pair)
  have resp: "resp = awaiting ''/opt/pxproxy-restart.sh''
      (no_release\<lparr>rl_TagName := ''2.10.0'', rl_Assets := [no_asset\<lparr>as_Name := ''pxproxy-linux-amd64''\<rparr>]\<rparr>)"
    using h unfolding handleUpdateApply_def sample_check fetch_sample
    by (simp add: findAssetByName_def AssetNameForPlatform_def Let_def downloadAsset_def asset_url_def
        no_asset_def plain_files_def rename_path_def remove_path_def sample_files_def scheduleRestart_def
        scriptExt_def awaiting_def no_release_def)
  have same: "script = ''/opt/pxproxy-restart.sh''" if "resp = awaiting script rel" for script rel
    using that unfolding resp by (simp add: awaiting_def writeJSON_def)
  have names: "''/opt/pxproxy'' \<noteq> ''/opt/'' @ ''pxproxy.update''" "''/opt/pxproxy'' \<noteq> ''/opt/'' @ ''pxproxy.update.part''"
    "''/opt/pxproxy'' \<noteq> ''/opt/'' @ ''pxproxy-restart'' @ scriptExt (fst (''linux'', ''amd64''))"
    by simp_all
  obtain rel new script where new: "resp = awaiting script rel" "AnswerOf 200 ''new'' = AnswerOf 200 new"
      "fold (run_command script) (restart_commands (fst (''linux'', ''amd64'')) 7 ''/opt/pxproxy''
          (''/opt/'' @ ''pxproxy.update'') [''-v'']) fs' =
        sample_files(''/opt/'' @ ''pxproxy.update.part'' := None, ''/opt/'' @ ''pxproxy.update'' := None,
          ''/opt/pxproxy'' @ ''.bak'' := None, script := None, ''/opt/pxproxy'' \<mapsto> new)"
    using restart_installs [OF names h] resp by blast
  have "fold (run_command ''/opt/pxproxy-restart.sh'')
         (restart_commands ''linux'' 7 ''/opt/pxproxy'' ''/opt/pxproxy.update'' [''-v'']) fs' = [''/opt/pxproxy'' \<mapsto> ''new'']"
    using new(3) unfolding same [OF new(1)] using new(2) by (simp add: sample_files_def fun_upd_def fun_eq_iff)
  with h resp show "\<exists>a' rel fs'. ?h = (awaiting ''/opt/pxproxy-restart.sh'' rel, a', fs')
     \<and> fold (run_command ''/opt/pxproxy-restart.sh'')
         (restart_commands ''linux'' 7 ''/opt/pxproxy'' ''/opt/pxproxy.update'' [''-v'']) fs' = [''/opt/pxproxy'' \<mapsto> ''new'']"
    by blast
qed

end
