(* ===== verification/Relay.thy ===== *)
theory Relay
  imports Streams
begin

text \<open>
  The connections of a TCP listener: \<open>acceptLoop\<close>, \<open>handle\<close>, \<open>relay\<close>, \<open>watchIdle\<close> and \<open>listener.stop\<close> of
  \<open>internal/stream/stream.go\<close>.

  Here the order of things matters, so the goroutines are steps of a relation: the loop that accepts,
  one handler for each connection, and the call of \<open>stop\<close>. What the network does, accept or refuse, end
  a copy, is which step is taken. The listener's mutex protects single steps, and so is not modelled.
\<close>

section \<open>State\<close>

type_synonym conn = nat

text \<open>Where the accepting loop is: \<open>conns.Add\<close> comes after \<open>Accept\<close>, and \<open>active\<close> after that.\<close>

datatype loop = Accepting | Accepted conn | Counted conn | LoopDone

text \<open>
  Where the handler of a connection is: the handshake, dialling the target, copying, and its deferred
  calls: closing the connection, taking it out of \<open>active\<close>, \<open>conns.Done\<close>.
\<close>

datatype stage = Shaking | Dialing | Relaying | Ending | Closing | Leaving

text \<open>How far a call of \<open>stop\<close> has come.\<close>

datatype stopping = NoStop | Cancelled | Unlistened | Swept | Returned

record listener =
  ln_rule :: StreamRule
  ln_cancelled :: bool
  ln_open :: bool
  ln_count :: nat
  ln_active :: "conn set"
  ln_shut :: "conn set"
  ln_seen :: "conn set"
  ln_loop :: loop
  ln_handlers :: "conn \<rightharpoonup> stage"
  ln_watchers :: "conn set"
  ln_stop :: stopping

definition new_listener :: "StreamRule \<Rightarrow> listener" where
  "new_listener r = \<lparr>ln_rule = r, ln_cancelled = False, ln_open = True, ln_count = 0, ln_active = {},
     ln_shut = {}, ln_seen = {}, ln_loop = Accepting, ln_handlers = Map.empty, ln_watchers = {}, ln_stop = NoStop\<rparr>"

section \<open>Steps\<close>

text \<open>
  The loop. An error of \<open>Accept\<close> ends it once the listener has been cancelled or closed; any other
  makes it wait and go on, which changes nothing here.
\<close>

inductive acceptLoop :: "listener \<Rightarrow> listener \<Rightarrow> bool" where
  accept: "ln_loop l = Accepting \<Longrightarrow> ln_open l \<Longrightarrow> c \<notin> ln_seen l \<Longrightarrow>
    acceptLoop l (l\<lparr>ln_loop := Accepted c, ln_seen := insert c (ln_seen l)\<rparr>)"
| leave: "ln_loop l = Accepting \<Longrightarrow> ln_cancelled l \<or> \<not> ln_open l \<Longrightarrow> acceptLoop l (l\<lparr>ln_loop := LoopDone\<rparr>)"
| add: "ln_loop l = Accepted c \<Longrightarrow> acceptLoop l (l\<lparr>ln_loop := Counted c, ln_count := ln_count l + 1\<rparr>)"
| register: "ln_loop l = Counted c \<Longrightarrow>
    acceptLoop l (l\<lparr>ln_loop := Accepting, ln_active := insert c (ln_active l),
      ln_handlers := (ln_handlers l)(c \<mapsto> Shaking)\<rparr>)"

text \<open>
  A handler: a handshake only succeeds on a connection that is open; the copying may end at any time,
  and a closed connection ends it. With a time limit a watcher starts beside it.
\<close>

inductive handler :: "conn \<Rightarrow> listener \<Rightarrow> listener \<Rightarrow> bool" for c where
  shaken: "ln_handlers l c = Some Shaking \<Longrightarrow> sr_TLS (ln_rule l) \<longrightarrow> c \<notin> ln_shut l \<Longrightarrow>
    handler c l (l\<lparr>ln_handlers := (ln_handlers l)(c \<mapsto> Dialing)\<rparr>)"
| unshaken: "ln_handlers l c = Some Shaking \<Longrightarrow> sr_TLS (ln_rule l) \<Longrightarrow>
    handler c l (l\<lparr>ln_handlers := (ln_handlers l)(c \<mapsto> Ending)\<rparr>)"
| dialed: "ln_handlers l c = Some Dialing \<Longrightarrow>
    handler c l (l\<lparr>ln_handlers := (ln_handlers l)(c \<mapsto> Relaying),
      ln_watchers := (if sr_TimeoutSec (ln_rule l) > 0 then insert c (ln_watchers l) else ln_watchers l)\<rparr>)"
| undialed: "ln_handlers l c = Some Dialing \<Longrightarrow> handler c l (l\<lparr>ln_handlers := (ln_handlers l)(c \<mapsto> Ending)\<rparr>)"
| relayed: "ln_handlers l c = Some Relaying \<Longrightarrow> handler c l (l\<lparr>ln_handlers := (ln_handlers l)(c \<mapsto> Ending)\<rparr>)"
| closes: "ln_handlers l c = Some Ending \<Longrightarrow>
    handler c l (l\<lparr>ln_handlers := (ln_handlers l)(c \<mapsto> Closing), ln_shut := insert c (ln_shut l)\<rparr>)"
| forgets: "ln_handlers l c = Some Closing \<Longrightarrow>
    handler c l (l\<lparr>ln_handlers := (ln_handlers l)(c \<mapsto> Leaving), ln_active := ln_active l - {c}\<rparr>)"
| leaves: "ln_handlers l c = Some Leaving \<Longrightarrow>
    handler c l (l\<lparr>ln_handlers := (ln_handlers l)(c := None), ln_count := ln_count l - 1\<rparr>)"

text \<open>A watcher only ends when the listener is cancelled.\<close>

inductive watchIdle :: "listener \<Rightarrow> listener \<Rightarrow> bool" where
  "c \<in> ln_watchers l \<Longrightarrow> ln_cancelled l \<Longrightarrow> watchIdle l (l\<lparr>ln_watchers := ln_watchers l - {c}\<rparr>)"

inductive stop :: "listener \<Rightarrow> listener \<Rightarrow> bool" where
  cancels: "ln_stop l = NoStop \<Longrightarrow> stop l (l\<lparr>ln_stop := Cancelled, ln_cancelled := True\<rparr>)"
| unlistens: "ln_stop l = Cancelled \<Longrightarrow> stop l (l\<lparr>ln_stop := Unlistened, ln_open := False\<rparr>)"
| sweeps: "ln_stop l = Unlistened \<Longrightarrow> stop l (l\<lparr>ln_stop := Swept, ln_shut := ln_shut l \<union> ln_active l\<rparr>)"
| returns: "ln_stop l = Swept \<Longrightarrow> ln_count l = 0 \<Longrightarrow> stop l (l\<lparr>ln_stop := Returned\<rparr>)"

inductive step :: "listener \<Rightarrow> listener \<Rightarrow> bool" where
  "acceptLoop l l' \<Longrightarrow> step l l'"
| "handler c l l' \<Longrightarrow> step l l'"
| "watchIdle l l' \<Longrightarrow> step l l'"
| "stop l l' \<Longrightarrow> step l l'"

inductive reaches :: "StreamRule \<Rightarrow> listener \<Rightarrow> bool" for r where
  start: "reaches r (new_listener r)"
| next_step: "reaches r l \<Longrightarrow> step l l' \<Longrightarrow> reaches r l'"

inductive_cases step_cases: "step l l'"

section \<open>Invariant\<close>

text \<open>Whom the loop is about to hand over, and whom it holds but has not counted.\<close>

definition held :: "listener \<Rightarrow> conn set" where
  "held l = (case ln_loop l of Accepted c \<Rightarrow> {c} | Counted c \<Rightarrow> {c} | _ \<Rightarrow> {})"

definition counted :: "listener \<Rightarrow> nat" where
  "counted l = (case ln_loop l of Counted c \<Rightarrow> 1 | _ \<Rightarrow> 0)"

definition well :: "listener \<Rightarrow> bool" where
  "well l \<longleftrightarrow>
     finite (ln_seen l) \<and> ln_watchers l \<subseteq> ln_seen l \<and> ln_count l = card (dom (ln_handlers l)) + counted l \<and>
     ln_active l = {c. \<exists>st. ln_handlers l c = Some st \<and> st \<noteq> Leaving} \<and>
     {c. \<exists>st. ln_handlers l c = Some st \<and> st \<in> {Closing, Leaving}} \<subseteq> ln_shut l \<and> ln_shut l \<subseteq> ln_seen l \<and>
     dom (ln_handlers l) \<union> held l \<subseteq> ln_seen l \<and> dom (ln_handlers l) \<inter> held l = {} \<and> ln_shut l \<inter> held l = {} \<and>
     (ln_cancelled l \<longleftrightarrow> ln_stop l \<noteq> NoStop) \<and> (ln_open l \<longleftrightarrow> ln_stop l \<in> {NoStop, Cancelled}) \<and>
     (ln_loop l = LoopDone \<longrightarrow> ln_stop l \<noteq> NoStop)"

lemma well_new: "well (new_listener r)"
  by (simp add: well_def new_listener_def held_def counted_def)

lemma well_finite: "well l \<Longrightarrow> finite (dom (ln_handlers l))"
  unfolding well_def by (meson finite_subset le_sup_iff)

lemma well_accept:
  assumes "acceptLoop l l'" "well l"
  shows "well l'"
  using assms(1)
proof cases
  case (accept c)
  then show ?thesis using assms(2) by (auto simp: well_def held_def counted_def)
next
  case leave
  then show ?thesis using assms(2) by (auto simp: well_def held_def counted_def)
next
  case (add c)
  then show ?thesis using assms(2) by (auto simp: well_def held_def counted_def)
next
  case (register c)
  then show ?thesis
    using assms(2) well_finite [OF assms(2)] by (auto simp: well_def held_def counted_def)
qed

lemma well_move:
  assumes "well l" "ln_handlers l c = Some st" "st \<noteq> Leaving"
    and "ln_handlers l' = (ln_handlers l)(c \<mapsto> st')"
    and "ln_active l' = (if st' = Leaving then ln_active l - {c} else ln_active l)"
    and "ln_shut l' = ln_shut l \<or> ln_shut l' = insert c (ln_shut l)"
    and "st' \<in> {Closing, Leaving} \<Longrightarrow> c \<in> ln_shut l'"
    and "ln_watchers l' \<subseteq> insert c (ln_watchers l)"
    and "ln_seen l' = ln_seen l" "ln_loop l' = ln_loop l" "ln_count l' = ln_count l"
      "ln_cancelled l' = ln_cancelled l" "ln_open l' = ln_open l" "ln_stop l' = ln_stop l"
  shows "well l'"
proof -
  note w = assms(1) [unfolded well_def]
  have c: "c \<in> ln_seen l" "c \<notin> held l" "insert c (dom (ln_handlers l)) = dom (ln_handlers l)"
    using w assms(2) by auto
  have act: "ln_active l = {c. \<exists>st. ln_handlers l c = Some st \<and> st \<noteq> Leaving}" using w by blast
  have shut: "x \<in> ln_shut l" if "ln_handlers l x = Some Closing \<or> ln_handlers l x = Some Leaving" for x
    using w that by blast
  have "ln_active l' = {x. \<exists>y. ((ln_handlers l)(c \<mapsto> st')) x = Some y \<and> y \<noteq> Leaving}"
    using assms(2,3,5) by (auto simp: act)
  moreover have "{x. \<exists>y. ((ln_handlers l)(c \<mapsto> st')) x = Some y \<and> y \<in> {Closing, Leaving}} \<subseteq> ln_shut l'"
    using assms(6,7) shut by auto
  moreover have "ln_shut l' \<subseteq> ln_seen l" "ln_shut l' \<inter> held l = {}" "ln_watchers l' \<subseteq> ln_seen l"
    using w c assms(6,8) by auto
  ultimately show ?thesis
    using w c(3) assms(4,9-) by (simp add: well_def held_def counted_def)
qed

lemma well_handler:
  assumes "handler c l l'" "well l"
  shows "well l'"
  using assms(1)
proof cases
  case leaves
  have "card (dom (ln_handlers l)) = Suc (card (dom (ln_handlers l) - {c}))"
    using leaves(2) well_finite [OF assms(2)] by (metis card.remove domI)
  then show ?thesis
    using leaves assms(2) by (auto simp: well_def held_def counted_def split: loop.splits)
next
  case shaken
  show ?thesis by (rule well_move [OF assms(2) shaken(2), of l' Dialing]) (use shaken in auto)
next
  case unshaken
  show ?thesis by (rule well_move [OF assms(2) unshaken(2), of l' Ending]) (use unshaken in auto)
next
  case dialed
  show ?thesis by (rule well_move [OF assms(2) dialed(2), of l' Relaying]) (use dialed in auto)
next
  case undialed
  show ?thesis by (rule well_move [OF assms(2) undialed(2), of l' Ending]) (use undialed in auto)
next
  case relayed
  show ?thesis by (rule well_move [OF assms(2) relayed(2), of l' Ending]) (use relayed in auto)
next
  case closes
  show ?thesis by (rule well_move [OF assms(2) closes(2), of l' Closing]) (use closes in auto)
next
  case forgets
  have "c \<in> ln_shut l" using forgets(2) assms(2) unfolding well_def by blast
  then show ?thesis using forgets by (intro well_move [OF assms(2) forgets(2), of l' Leaving]) auto
qed

lemma well_stop:
  assumes "stop l l'" "well l"
  shows "well l'"
  using assms by cases (auto simp: well_def held_def counted_def split: loop.splits)

lemma well_watch: "watchIdle l l' \<Longrightarrow> well l \<Longrightarrow> well l'"
  by (erule watchIdle.cases) (auto simp: well_def held_def counted_def)

lemma well_step: "step l l' \<Longrightarrow> well l \<Longrightarrow> well l'"
  by (elim step_cases) (blast intro: well_accept well_handler well_watch well_stop)+

lemma reaches_well: "reaches r l \<Longrightarrow> well l"
  by (induction rule: reaches.induct) (simp_all add: well_new well_step)

section \<open>After a stop\<close>

text \<open>
  What a stop may leave: a connection that was accepted just before the port was closed, and not yet
  in \<open>active\<close> when the others were closed.
\<close>

definition spared :: "listener \<Rightarrow> conn set" where
  "spared l = (dom (ln_handlers l) - ln_shut l) \<union> held l"

definition late :: "listener \<Rightarrow> bool" where
  "late l \<longleftrightarrow>
     (ln_stop l \<in> {Swept, Returned} \<longrightarrow> finite (spared l) \<and> card (spared l) \<le> 1) \<and>
     (ln_stop l = Returned \<longrightarrow> card (dom (ln_handlers l) \<union> held l) \<le> 1)"

lemma card_held: "finite (held l) \<and> card (held l) \<le> 1"
  by (simp add: held_def split: loop.split)

lemma card_le_one: "finite B \<Longrightarrow> card B \<le> 1 \<Longrightarrow> A \<subseteq> B \<Longrightarrow> finite A \<and> card A \<le> 1"
  by (meson card_mono finite_subset le_trans)

text \<open>Once the port is closed the loop and the handlers only let go.\<close>

lemma lets_go:
  assumes "well l" "\<not> ln_open l"
    and "acceptLoop l l' \<or> handler c l l' \<or> watchIdle l l'"
  shows "spared l' \<subseteq> spared l \<and> dom (ln_handlers l') \<union> held l' \<subseteq> dom (ln_handlers l) \<union> held l \<and> ln_stop l' = ln_stop l"
  using assms(3,2)
  by (elim disjE acceptLoop.cases handler.cases watchIdle.cases)
    (auto simp: spared_def held_def split: if_splits)

lemma late_step:
  assumes "step l l'" "well l" "late l"
  shows "late l'"
proof (cases "stop l l'")
  case True
  then show ?thesis
  proof cases
    case sweeps
    have "x \<in> ln_shut l \<union> ln_active l" if "ln_handlers l x = Some st" for x st
      using assms(2) that unfolding well_def by (cases "st = Leaving") blast+
    then have "dom (ln_handlers l) - (ln_shut l \<union> ln_active l) = {}" by auto
    then have "spared l' = held l" using sweeps(1) by (auto simp: spared_def held_def)
    then show ?thesis using sweeps(1) card_held [of l] by (simp add: late_def)
  next
    case returns
    have "dom (ln_handlers l) = {}"
      using returns(3) assms(2) well_finite [OF assms(2)] by (auto simp: well_def)
    then show ?thesis
      using returns(1,2) assms(3) card_held [of l] by (simp add: late_def spared_def held_def)
  qed (simp_all add: late_def)
next
  case False
  then obtain c where s: "acceptLoop l l' \<or> handler c l l' \<or> watchIdle l l'"
    using assms(1) by (auto elim: step_cases)
  show ?thesis
  proof (cases "ln_open l")
    case True
    then have "ln_stop l \<in> {NoStop, Cancelled}" using assms(2) by (simp add: well_def)
    moreover have "ln_stop l' = ln_stop l"
      using s by (auto elim!: acceptLoop.cases handler.cases watchIdle.cases)
    ultimately show ?thesis by (auto simp: late_def)
  next
    case closed: False
    note go = lets_go [OF assms(2) closed s]
    have "finite (dom (ln_handlers l) \<union> held l)" using well_finite [OF assms(2)] card_held by blast
    then show ?thesis
      using assms(3) go card_le_one [of "spared l" "spared l'"]
        card_le_one [of "dom (ln_handlers l) \<union> held l" "dom (ln_handlers l') \<union> held l'"]
      by (auto simp: late_def)
  qed
qed

lemma reaches_late: "reaches r l \<Longrightarrow> late l"
proof (induction rule: reaches.induct)
  case start
  then show ?case by (simp add: late_def new_listener_def)
next
  case (next_step l l')
  then show ?case using late_step reaches_well by blast
qed

section \<open>How long a stop takes\<close>

definition stage_effort :: "stage \<Rightarrow> nat" where
  "stage_effort st =
     (case st of Shaking \<Rightarrow> 7 | Dialing \<Rightarrow> 6 | Relaying \<Rightarrow> 4 | Ending \<Rightarrow> 3 | Closing \<Rightarrow> 2 | Leaving \<Rightarrow> 1)"

definition handler_effort :: "listener \<Rightarrow> nat" where
  "handler_effort l = (\<Sum>c \<in> dom (ln_handlers l). stage_effort (the (ln_handlers l c)))"

definition loop_effort :: "loop \<Rightarrow> nat" where
  "loop_effort p = (case p of Accepted c \<Rightarrow> 10 | Counted c \<Rightarrow> 9 | Accepting \<Rightarrow> 1 | LoopDone \<Rightarrow> 0)"

definition stop_effort :: "stopping \<Rightarrow> nat" where
  "stop_effort p = (case p of NoStop \<Rightarrow> 4 | Cancelled \<Rightarrow> 3 | Unlistened \<Rightarrow> 2 | Swept \<Rightarrow> 1 | Returned \<Rightarrow> 0)"

definition effort :: "listener \<Rightarrow> nat" where
  "effort l = handler_effort l + card (ln_watchers l) + loop_effort (ln_loop l) + stop_effort (ln_stop l)"

lemma handler_effort_gone:
  assumes "finite (dom (ln_handlers l))" "ln_handlers l c = Some st" "ln_handlers l' = (ln_handlers l)(c := None)"
  shows "handler_effort l' + stage_effort st = handler_effort l"
proof -
  have "handler_effort l = stage_effort st + (\<Sum>x \<in> dom (ln_handlers l) - {c}. stage_effort (the (ln_handlers l x)))"
    using assms(1,2) by (simp add: handler_effort_def sum.remove [of _ c] domI)
  moreover have "handler_effort l' = (\<Sum>x \<in> dom (ln_handlers l) - {c}. stage_effort (the (ln_handlers l x)))"
    unfolding handler_effort_def using assms(3) by (intro sum.cong) auto
  ultimately show ?thesis by simp
qed

lemma handler_effort_new:
  assumes "finite (dom (ln_handlers l))" "ln_handlers l c = None" "ln_handlers l' = (ln_handlers l)(c \<mapsto> st)"
  shows "handler_effort l' = handler_effort l + stage_effort st"
proof -
  have "handler_effort l' = stage_effort st + (\<Sum>x \<in> dom (ln_handlers l). stage_effort (the (ln_handlers l' x)))"
    unfolding handler_effort_def using assms by (simp add: domIff)
  moreover have "(\<Sum>x \<in> dom (ln_handlers l). stage_effort (the (ln_handlers l' x))) = handler_effort l"
    unfolding handler_effort_def using assms(2,3) by (intro sum.cong) auto
  ultimately show ?thesis by simp
qed

lemma handler_effort_move:
  assumes "finite (dom (ln_handlers l))" "ln_handlers l c = Some st" "ln_handlers l' = (ln_handlers l)(c \<mapsto> st')"
  shows "handler_effort l' + stage_effort st = handler_effort l + stage_effort st'"
proof -
  let ?m = "l\<lparr>ln_handlers := (ln_handlers l)(c := None)\<rparr>"
  have "handler_effort ?m + stage_effort st = handler_effort l"
    by (rule handler_effort_gone [OF assms(1,2)]) simp
  moreover have "handler_effort l' = handler_effort ?m + stage_effort st'"
    using assms(1,3) by (intro handler_effort_new [where c = c]) simp_all
  ultimately show ?thesis by simp
qed

lemma handler_effort_same: "ln_handlers l' = ln_handlers l \<Longrightarrow> handler_effort l' = handler_effort l"
  by (simp add: handler_effort_def)

lemma effort_loop:
  assumes "acceptLoop l l'" "well l" "\<not> ln_open l"
  shows "effort l' < effort l"
  using assms(1)
proof cases
  case (register c)
  have "ln_handlers l c = None" using register(2) assms(2) by (auto simp: well_def held_def)
  then show ?thesis
    using handler_effort_new [OF well_finite [OF assms(2)], of c l' Shaking] register
    by (simp add: effort_def loop_effort_def stage_effort_def)
qed (use assms(3) in \<open>simp_all add: effort_def loop_effort_def handler_effort_def\<close>)

lemma effort_handler:
  assumes "handler c l l'" "well l"
  shows "effort l' < effort l"
proof -
  note fin = well_finite [OF assms(2)]
  have less: ?thesis if "ln_handlers l c = Some st" "ln_handlers l' = (ln_handlers l)(c \<mapsto> st')"
      "stage_effort st' < stage_effort st" "ln_watchers l' = ln_watchers l" "ln_loop l' = ln_loop l" "ln_stop l' = ln_stop l"
    for st st'
    using handler_effort_move [OF fin that(1,2)] that(3-) by (simp add: effort_def)
  show ?thesis
    using assms(1)
  proof cases
    case dialed
    have "card (ln_watchers l') \<le> card (ln_watchers l) + 1"
      using dialed(1) by (simp add: card_insert_le_m1 card_insert_if)
    then show ?thesis
      using handler_effort_move [OF fin dialed(2), of l' Relaying] dialed
      by (simp add: effort_def stage_effort_def)
  next
    case leaves
    then show ?thesis
      using handler_effort_gone [OF fin leaves(2), of l'] by (simp add: effort_def stage_effort_def)
  next
    case shaken
    show ?thesis by (rule less [OF shaken(2), of Dialing]) (use shaken in \<open>simp_all add: stage_effort_def\<close>)
  next
    case unshaken
    show ?thesis by (rule less [OF unshaken(2), of Ending]) (use unshaken in \<open>simp_all add: stage_effort_def\<close>)
  next
    case undialed
    show ?thesis by (rule less [OF undialed(2), of Ending]) (use undialed in \<open>simp_all add: stage_effort_def\<close>)
  next
    case relayed
    show ?thesis by (rule less [OF relayed(2), of Ending]) (use relayed in \<open>simp_all add: stage_effort_def\<close>)
  next
    case closes
    show ?thesis by (rule less [OF closes(2), of Closing]) (use closes in \<open>simp_all add: stage_effort_def\<close>)
  next
    case forgets
    show ?thesis by (rule less [OF forgets(2), of Leaving]) (use forgets in \<open>simp_all add: stage_effort_def\<close>)
  qed
qed

lemma effort_step:
  assumes "step l l'" "well l" "\<not> ln_open l"
  shows "effort l' < effort l \<and> \<not> ln_open l'"
proof
  have fin: "finite (ln_watchers l)" using assms(2) unfolding well_def by (meson finite_subset)
  have "effort l' < effort l" if w: "watchIdle l l'"
    using w
  proof cases
    case (1 c)
    have "card (ln_watchers l - {c}) < card (ln_watchers l)" by (rule card_Diff1_less [OF fin 1(2)])
    then show ?thesis unfolding 1(1) by (simp add: effort_def handler_effort_def del: card_Diff_insert)
  qed
  moreover have "effort l' < effort l" if "stop l l'"
    using that assms(2,3) by cases (auto simp: effort_def handler_effort_def stop_effort_def well_def)
  ultimately show "effort l' < effort l"
    using assms by (auto elim: step_cases intro: effort_loop effort_handler)
  show "\<not> ln_open l'"
    using assms(1,3) by (auto elim!: step_cases acceptLoop.cases handler.cases watchIdle.cases stop.cases)
qed

lemma effort_steps:
  assumes "(step ^^ n) l l'" "well l" "\<not> ln_open l"
  shows "n + effort l' \<le> effort l \<and> well l' \<and> \<not> ln_open l'"
  using assms
proof (induction n arbitrary: l')
  case (Suc n)
  then obtain m where "(step ^^ n) l m" "step m l'" by auto
  moreover from this(1) have "n + effort m \<le> effort l" "well m" "\<not> ln_open m"
    using Suc.IH [of m] Suc.prems(2,3) by auto
  ultimately show ?case using effort_step [of m l'] well_step [of m l'] by simp
qed simp

lemma stuck_done:
  assumes "well l" "\<not> ln_open l" "\<nexists>l'. step l l'"
  shows "ln_stop l = Returned \<and> ln_handlers l = Map.empty \<and> ln_loop l = LoopDone \<and> ln_watchers l = {}"
proof (intro conjI)
  have cancelled: "ln_cancelled l" "ln_stop l \<notin> {NoStop, Cancelled}" using assms(1,2) by (auto simp: well_def)
  have no: "\<not> acceptLoop l m" "\<not> handler c l m" "\<not> watchIdle l m" "\<not> stop l m" for c m
    using assms(3) step.intros by blast+
  show loop: "ln_loop l = LoopDone"
  proof (cases "ln_loop l")
    case Accepting
    then show ?thesis using no(1) acceptLoop.leave [of l] cancelled by blast
  next
    case (Accepted c)
    then show ?thesis using no(1) acceptLoop.add by blast
  next
    case (Counted c)
    then show ?thesis using no(1) acceptLoop.register by blast
  qed
  have "ln_handlers l c = None" for c
  proof (cases "ln_handlers l c")
    case (Some st)
    then have False
    proof (cases st)
      case Shaking
      then show ?thesis using Some no(2) handler.shaken [of l c] handler.unshaken [of l c] by blast
    next
      case Dialing
      then show ?thesis using Some no(2) handler.undialed [of l c] by blast
    next
      case Relaying
      then show ?thesis using Some no(2) handler.relayed [of l c] by blast
    next
      case Ending
      then show ?thesis using Some no(2) handler.closes [of l c] by blast
    next
      case Closing
      then show ?thesis using Some no(2) handler.forgets [of l c] by blast
    next
      case Leaving
      then show ?thesis using Some no(2) handler.leaves [of l c] by blast
    qed
    then show ?thesis ..
  qed
  then show h: "ln_handlers l = Map.empty" by auto
  show "ln_watchers l = {}" using no(3) watchIdle.intros cancelled(1) by blast
  have "ln_count l = 0" using assms(1) h loop by (simp add: well_def counted_def)
  then show "ln_stop l = Returned"
    using cancelled(2) no(4) stop.sweeps [of l] stop.returns [of l] by (cases "ln_stop l") blast+
qed

section \<open>What a stop promises\<close>


definition plain_stream :: StreamRule where
  "plain_stream = \<lparr>sr_Listen = '':9000'', sr_Target = ''10.0.0.1:5432'', sr_TLS = False, sr_SNIHost = [],
     sr_TimeoutSec = 30, sr_Enabled = True\<rparr>"

definition closed_listener :: listener where
  "closed_listener = (new_listener plain_stream)\<lparr>ln_stop := Unlistened, ln_cancelled := True, ln_open := False\<rparr>"

lemma reaches_closed: "reaches plain_stream closed_listener"
proof -
  let ?l = "new_listener plain_stream"
  have "stop ?l (?l\<lparr>ln_stop := Cancelled, ln_cancelled := True\<rparr>)"
    by (rule stop.cancels) (simp add: new_listener_def)
  then have "reaches plain_stream (?l\<lparr>ln_stop := Cancelled, ln_cancelled := True\<rparr>)"
    by (meson reaches.intros step.intros)
  moreover have "stop (?l\<lparr>ln_stop := Cancelled, ln_cancelled := True\<rparr>) closed_listener"
    using stop.unlistens [of "?l\<lparr>ln_stop := Cancelled, ln_cancelled := True\<rparr>"]
    by (simp add: closed_listener_def new_listener_def)
  ultimately show ?thesis by (meson reaches.intros step.intros)
qed


text \<open>
  The one connection is possible. A connection accepted just before the port is closed, and counted
  only afterwards, is relayed on by a listener whose \<open>stop\<close> has returned, with nothing left that would
  close it; or, if it is counted in time, \<open>stop\<close> waits for it as long as its ends keep it.
\<close>

lemma connection_outlives_stop:
  "(\<exists>l. reaches r l \<and> ln_stop l = Returned \<and> ln_handlers l = [c \<mapsto> Relaying] \<and> c \<notin> ln_shut l) \<and>
   (\<exists>l. reaches r l \<and> ln_stop l = Swept \<and> ln_count l = 1 \<and> ln_handlers l = [c \<mapsto> Relaying] \<and> c \<notin> ln_shut l)"
proof -
  let ?l0 = "new_listener r"
  let ?l1 = "?l0\<lparr>ln_loop := Accepted c, ln_seen := {c}\<rparr>"
  let ?l2 = "?l1\<lparr>ln_stop := Cancelled, ln_cancelled := True\<rparr>"
  let ?l3 = "?l2\<lparr>ln_stop := Unlistened, ln_open := False\<rparr>"
  let ?l4 = "?l3\<lparr>ln_stop := Swept\<rparr>"
  let ?l5 = "?l4\<lparr>ln_stop := Returned\<rparr>"
  have go: "reaches r l'" if "reaches r l" "acceptLoop l l' \<or> handler c l l' \<or> stop l l'" for l l'
    using that by (meson reaches.intros step.intros)
  have l1: "reaches r ?l1"
    using go [OF reaches.start] acceptLoop.accept [of ?l0 c] by (simp add: new_listener_def)
  have l2: "reaches r ?l2" using go [OF l1] stop.cancels [of ?l1] by (simp add: new_listener_def)
  have l3: "reaches r ?l3" using go [OF l2] stop.unlistens [of ?l2] by (simp add: new_listener_def)
  have l4: "reaches r ?l4" using go [OF l3] stop.sweeps [of ?l3] by (simp add: new_listener_def)
  have l5: "reaches r ?l5" using go [OF l4] stop.returns [of ?l4] by (simp add: new_listener_def)
  have on: "\<exists>l'. reaches r l' \<and> ln_stop l' = ln_stop l \<and> ln_count l' = 1 \<and> ln_handlers l' = [c \<mapsto> Relaying] \<and> c \<notin> ln_shut l'"
    if l: "reaches r l" "ln_loop l = Accepted c" "ln_handlers l = Map.empty" "c \<notin> ln_shut l" "ln_count l = 0" for l
  proof -
    let ?a = "l\<lparr>ln_loop := Counted c, ln_count := 1\<rparr>"
    let ?b = "?a\<lparr>ln_loop := Accepting, ln_active := insert c (ln_active l), ln_handlers := [c \<mapsto> Shaking]\<rparr>"
    let ?d = "?b\<lparr>ln_handlers := [c \<mapsto> Dialing]\<rparr>"
    have a: "reaches r ?a" using go [OF l(1)] acceptLoop.add [of l c] l by simp
    have b: "reaches r ?b" using go [OF a] acceptLoop.register [of ?a c] l by simp
    have d: "reaches r ?d" using go [OF b] handler.shaken [of ?b c] l by simp
    let ?e = "?d\<lparr>ln_handlers := (ln_handlers ?d)(c \<mapsto> Relaying), ln_watchers :=
      (if sr_TimeoutSec (ln_rule ?d) > 0 then insert c (ln_watchers ?d) else ln_watchers ?d)\<rparr>"
    have "handler c ?d ?e" by (rule handler.dialed) simp
    with d have "reaches r ?e" using go by blast
    then show ?thesis by (rule exI [of _ ?e, OF conjI]) (use l in simp)
  qed
  show ?thesis
    using on [OF l4] on [OF l5] by (simp add: new_listener_def) blast
qed

text \<open>
  C39: A stop spares at most one connection, and may spare one. Once the connections in \<open>active\<close> have been
  closed, at most one is open that the listener still relays or is about to, and once it has returned at
  most one is left at all. But one is possible: accepted just before the port was closed and counted only
  afterwards, it is relayed on by a listener whose \<open>stop\<close> has returned.
\<close>

theorem stop_spares_one:
  assumes "reaches r l" "ln_stop l = Swept \<or> ln_stop l = Returned"
  shows "finite (spared l) \<and> card (spared l) \<le> 1 \<and>
    (ln_stop l = Swept \<or> card (dom (ln_handlers l) \<union> held l) \<le> 1) \<and>
    (\<exists>l'. reaches r l' \<and> ln_stop l' = Returned \<and> ln_handlers l' = [c \<mapsto> Relaying] \<and> c \<notin> ln_shut l')"
  using reaches_late [OF assms(1)] assms(2) connection_outlives_stop [of r c] by (auto simp: late_def)

lemma stop_spares_one_witness: "card (spared (closed_listener\<lparr>ln_stop := Swept\<rparr>)) \<le> 1"
proof -
  have "stop closed_listener (closed_listener\<lparr>ln_stop := Swept\<rparr>)"
    using stop.sweeps [of closed_listener] by (simp add: closed_listener_def new_listener_def)
  then have "reaches plain_stream (closed_listener\<lparr>ln_stop := Swept\<rparr>)"
    using reaches_closed by (meson reaches.intros step.intros)
  from stop_spares_one [OF this, of 0] show ?thesis by simp
qed

section \<open>The time limit\<close>

text \<open>
  \<open>handle\<close> sets the deadline of both ends, and \<open>watchIdle\<close> sets it anew at every tick, each half the
  limit after the one before: \<open>k\<close> ticks have gone by.
\<close>

fun deadline_after :: "duration \<Rightarrow> time \<Rightarrow> nat \<Rightarrow> time" where
  "deadline_after idle begun 0 = begun + idle"
| "deadline_after idle begun (Suc k) = (begun + int (Suc k) * (idle div 2)) + idle"

definition deadline_at :: "StreamRule \<Rightarrow> time \<Rightarrow> time \<Rightarrow> time" where
  "deadline_at r begun t =
     (let idle = sr_TimeoutSec r * Second
      in deadline_after idle begun (nat ((t - begun) div (idle div 2))))"

lemma deadline_after_ticks: "deadline_after idle begun k = begun + int k * (idle div 2) + idle"
  by (cases k) simp_all

text \<open>
  The time limit of a stream has no effect: whatever passes or does not pass over the connection,
  at every moment its deadline is more than half the limit away.
\<close>

theorem limit_never_reached:
  assumes "sr_TimeoutSec r > 0" "begun \<le> t"
  shows "t + sr_TimeoutSec r * Second div 2 < deadline_at r begun t"
proof -
  let ?h = "sr_TimeoutSec r * Second div 2" and ?k = "(t - begun) div (sr_TimeoutSec r * Second div 2)"
  have h: "0 < ?h" and two: "sr_TimeoutSec r * Second = ?h + ?h" using assms(1) by (simp_all add: Second_def)
  have k: "0 \<le> ?k" using h assms(2) by (simp add: pos_imp_zdiv_nonneg_iff)
  have "t - begun < (?k + 1) * ?h"
    using h by (metis add.commute add_strict_left_mono distrib_right div_mult_mod_eq mult_1 pos_mod_bound mult.commute)
  then have "t < begun + ?k * ?h + ?h" by (simp add: distrib_right)
  moreover have "deadline_at r begun t = begun + ?k * ?h + (?h + ?h)"
    using k two by (simp add: deadline_at_def Let_def deadline_after_ticks)
  ultimately show ?thesis by simp
qed

lemma limit_never_reached_witness: "3600 * Second + 15 * Second < deadline_at plain_stream 0 (3600 * Second)"
  using limit_never_reached [of plain_stream 0 "3600 * Second"] by (simp add: plain_stream_def Second_def)

end
