(* ===== verification/AuditFile.thy ===== *)
theory AuditFile
  imports Http "HOL-Library.AList" "HOL-Library.Char_ord" "HOL-Library.List_Lexorder"
    "HOL-Library.Multiset"
begin

text \<open>
  The audit log: \<open>AuditEntry\<close> and \<open>AuditLog\<close> of \<open>internal/security/security.go\<close>.

  The directory of the log is the list of its plain files, names and contents; the handle the log holds
  is open on the file of its own name. What the operating system does, and how package \<open>time\<close> writes the
  instant, is an argument of every operation.
\<close>

section \<open>Operations\<close>

record AuditEntry =
  ae_Time :: string
  ae_Event :: string
  ae_IP :: string
  ae_User :: string
  ae_Detail :: string

record AuditLog =
  al_open :: bool
  al_base :: string
  al_max :: int
  al_sink :: bool

type_synonym dir = "(string \<times> string) list"

text \<open>
  \<open>ai_stamp\<close> is the instant to the second as the name of a file has it; \<open>ai_kept\<close> is \<open>None\<close> when a line
  is written whole, else how much of it.
\<close>

record audit_io =
  ai_time :: string
  ai_stamp :: string
  ai_stat :: bool
  ai_rename :: bool
  ai_list :: bool
  ai_remove :: "string \<Rightarrow> bool"
  ai_open :: bool
  ai_kept :: "nat option"

definition auditKeepRotated :: nat where "auditKeepRotated = 5"

definition content :: "dir \<Rightarrow> string \<Rightarrow> string" where
  "content d n = (case map_of d n of None \<Rightarrow> [] | Some c \<Rightarrow> c)"

definition open_append :: "string \<Rightarrow> dir \<Rightarrow> dir" where
  "open_append n d = AList.update n (content d n) d"

definition OpenAudit :: "audit_io \<Rightarrow> string \<Rightarrow> int \<Rightarrow> dir \<Rightarrow> AuditLog option \<times> dir" where
  "OpenAudit x base maxBytes d =
     (if \<not> ai_open x then (None, d)
      else (Some \<lparr>al_open = True, al_base = base, al_max = (if maxBytes \<le> 0 then 10 * 2 ^ 20 else maxBytes),
              al_sink = False\<rparr>, open_append base d))"

definition stem :: "AuditLog \<Rightarrow> string" where
  "stem a = TrimSuffix (al_base a) ''.log''"

definition stamped :: "AuditLog \<Rightarrow> string \<Rightarrow> string" where
  "stamped a s = stem a @ ''-'' @ s @ ''.log''"

definition rotated_files :: "AuditLog \<Rightarrow> dir \<Rightarrow> string list" where
  "rotated_files a d =
     sort (filter (\<lambda>n. HasPrefix n (stem a @ ''-'') \<and> HasSuffix n ''.log'' \<and> n \<noteq> al_base a) (map fst d))"

definition rename_current :: "audit_io \<Rightarrow> AuditLog \<Rightarrow> dir \<Rightarrow> dir" where
  "rename_current x a d =
     (case map_of d (al_base a) of
        None \<Rightarrow> d
      | Some c \<Rightarrow>
          if ai_rename x then AList.update (stamped a (ai_stamp x)) c (AList.delete (al_base a) d) else d)"

definition rotateLocked :: "audit_io \<Rightarrow> AuditLog \<Rightarrow> dir \<Rightarrow> AuditLog \<times> dir" where
  "rotateLocked x a d =
     (let d1 = rename_current x a d;
          rotated = (if ai_list x then rotated_files a d1 else []);
          d2 = fold (\<lambda>n d. if ai_remove x n then AList.delete n d else d)
                 (take (length rotated - auditKeepRotated) rotated) d1
      in if ai_open x then (a\<lparr>al_open := True\<rparr>, open_append (al_base a) d2) else (a\<lparr>al_open := False\<rparr>, d2))"

definition SetSink :: "AuditLog \<Rightarrow> AuditLog" where
  "SetSink a = a\<lparr>al_sink := True\<rparr>"

definition entry_json :: "AuditEntry \<Rightarrow> json" where
  "entry_json e = JObj
     ([(''time'', JStr (ae_Time e)), (''event'', JStr (ae_Event e))] @
      (if ae_IP e = [] then [] else [(''ip'', JStr (ae_IP e))]) @
      (if ae_User e = [] then [] else [(''user'', JStr (ae_User e))]) @
      (if ae_Detail e = [] then [] else [(''detail'', JStr (ae_Detail e))]))"

definition audit_line :: "AuditEntry \<Rightarrow> string" where
  "audit_line e = print_json (entry_json e) @ [CHR 0x0A]"

text \<open>What goes to the sink is the third component of the answer.\<close>

definition Log ::
  "audit_io \<Rightarrow> string \<Rightarrow> string \<Rightarrow> string \<Rightarrow> string \<Rightarrow> AuditLog \<times> dir \<Rightarrow> (AuditLog \<times> dir) \<times> AuditEntry list" where
  "Log x event ip user detail s =
     (let e = \<lparr>ae_Time = ai_time x, ae_Event = event, ae_IP = ip, ae_User = user, ae_Detail = detail\<rparr>;
          data = audit_line e; a = fst s; d = snd s
      in if \<not> al_open a then (s, [])
         else (case (if ai_stat x \<and> int (length (content d (al_base a))) + int (length data) > al_max a
                     then rotateLocked x a d else (a, d)) of
                 (a, d) \<Rightarrow>
                   if \<not> al_open a then ((a, d), [])
                   else ((a, AList.update (al_base a)
                           (content d (al_base a) @ (case ai_kept x of None \<Rightarrow> data | Some n \<Rightarrow> take n data)) d),
                         if al_sink a then [e] else [])))"

section \<open>Rotation\<close>

definition works :: "audit_io \<Rightarrow> bool" where
  "works x \<longleftrightarrow> ai_stat x \<and> ai_rename x \<and> ai_list x \<and> (\<forall>n. ai_remove x n) \<and> ai_open x \<and> ai_kept x = None"

text \<open>All that the log still has, oldest first.\<close>

definition trail :: "AuditLog \<Rightarrow> dir \<Rightarrow> string" where
  "trail a d = concat (map (content d) (rotated_files a d)) @ content d (al_base a)"

definition rotated_name :: "AuditLog \<Rightarrow> string \<Rightarrow> bool" where
  "rotated_name a n \<longleftrightarrow> HasPrefix n (stem a @ ''-'') \<and> HasSuffix n ''.log'' \<and> n \<noteq> al_base a"

lemma rotated_files_eq: "rotated_files a d = sort (filter (rotated_name a) (map fst d))"
  by (simp add: rotated_files_def rotated_name_def [abs_def])

lemma stamped_rotated: "rotated_name a (stamped a s)"
proof -
  have "length (stamped a s) > length (al_base a)"
    by (auto simp: stamped_def stem_def TrimSuffix_def HasSuffix_def)
  then have "stamped a s \<noteq> al_base a" by auto
  moreover have "HasPrefix (stamped a s) (stem a @ ''-'')" "HasSuffix (stamped a s) ''.log''"
    by (auto simp: stamped_def HasPrefix_def HasSuffix_def)
  ultimately show ?thesis by (simp add: rotated_name_def)
qed

lemma base_not_rotated: "\<not> rotated_name a (al_base a)"
  by (simp add: rotated_name_def)

lemma content_update: "content (AList.update k v d) n = (if n = k then v else content d n)"
  by (simp add: content_def update_conv')

lemma content_delete: "content (AList.delete k d) n = (if n = k then [] else content d n)"
  by (simp add: content_def delete_conv')

lemma delete_named: "AList.delete k d = filter (\<lambda>e. fst e \<noteq> k) d"
  by (induction d) auto

lemma fold_delete: "fold AList.delete ns d = filter (\<lambda>e. fst e \<notin> set ns) d"
proof (induction ns arbitrary: d)
  case (Cons n ns)
  have "filter (\<lambda>e. fst e \<notin> set ns) (filter (\<lambda>e. fst e \<noteq> n) d) = filter (\<lambda>e. fst e \<notin> set (n # ns)) d"
    unfolding filter_filter by (rule filter_cong) auto
  then show ?case using Cons by (simp add: delete_named)
qed simp

lemma content_filter: "content (filter (\<lambda>e. fst e \<notin> S) d) n = (if n \<in> S then [] else content d n)"
  by (induction d) (auto simp: content_def)

lemma sort_last:
  assumes "\<forall>y \<in> set ys. y \<le> (x :: 'a :: linorder)"
  shows "sort (ys @ [x]) = sort ys @ [x]"
  using assms by (intro properties_for_sort) (auto simp: sorted_append)

lemma keep_dropped: "distinct R \<Longrightarrow> filter (\<lambda>n. n \<notin> set (take k R)) R = drop k R"
proof -
  assume "distinct R"
  then have "set (take k R) \<inter> set (drop k R) = {}" by (simp add: set_take_disj_set_drop_if_distinct)
  then have "filter (\<lambda>n. n \<notin> set (take k R)) (take k R @ drop k R) = drop k R"
    unfolding filter_append by (auto simp: filter_id_conv filter_empty_conv)
  then show ?thesis by simp
qed

text \<open>A log in order: its own file is there; and a stamp that no rotated file has, or is after.\<close>

definition sound :: "AuditLog \<Rightarrow> dir \<Rightarrow> bool" where
  "sound a d \<longleftrightarrow> al_open a \<and> distinct (map fst d) \<and> al_base a \<in> fst ` set d"

definition fresh_stamp :: "AuditLog \<Rightarrow> dir \<Rightarrow> string \<Rightarrow> bool" where
  "fresh_stamp a d s \<longleftrightarrow> (\<forall>n \<in> set (rotated_files a d). n < stamped a s)"

lemma rename_files:
  assumes "works x" "sound a d" "fresh_stamp a d (ai_stamp x)" "d1 = rename_current x a d"
  shows "rotated_files a d1 = rotated_files a d @ [stamped a (ai_stamp x)] \<and> distinct (map fst d1) \<and>
    al_base a \<notin> fst ` set d1 \<and>
    content d1 = (content d)(al_base a := [], stamped a (ai_stamp x) := content d (al_base a))"
proof -
  let ?b = "al_base a" and ?s = "stamped a (ai_stamp x)"
  have o: "distinct (map fst d)" "?b \<in> fst ` set d" "\<forall>n \<in> set (rotated_files a d). n < ?s"
    using assms(2,3) by (auto simp: sound_def fresh_stamp_def)
  have new: "?s \<notin> fst ` set d" "?s \<noteq> ?b"
    using o(3) stamped_rotated [of a "ai_stamp x"] base_not_rotated [of a] by (auto simp: rotated_files_eq)
  have "map_of d ?b = Some (content d ?b)"
    using o(2) by (cases "map_of d ?b") (simp_all add: content_def map_of_eq_None_iff)
  then have d1: "d1 = AList.update ?s (content d ?b) (AList.delete ?b d)"
    using assms(1,4) by (simp add: rename_current_def works_def)
  have names: "map fst d1 = removeAll ?b (map fst d) @ [?s]"
    using new by (simp add: d1 update_keys delete_keys)
  have "filter (rotated_name a) (map fst d1) = filter (rotated_name a) (map fst d) @ [?s]"
    using names base_not_rotated [of a] stamped_rotated [of a "ai_stamp x"]
    by (simp add: removeAll_filter_not_eq conj_commute) (metis base_not_rotated)
  moreover have "\<forall>n \<in> set (filter (rotated_name a) (map fst d)). n \<le> ?s"
    using o(3) by (auto simp: rotated_files_eq)
  ultimately have "rotated_files a d1 = rotated_files a d @ [?s]"
    unfolding rotated_files_eq using sort_last by metis
  moreover have "distinct (map fst d1)" unfolding names using o(1) new by (auto simp: distinct_removeAll)
  moreover have "?b \<notin> set (map fst d1)" unfolding names using new by auto
  moreover have "content d1 = (content d)(?b := [], ?s := content d ?b)"
    by (auto simp: d1 content_update content_delete)
  ultimately show ?thesis by simp
qed

lemma rotated_distinct: "distinct (map fst d) \<Longrightarrow> distinct (rotated_files a d)"
  by (simp add: rotated_files_eq)

lemma map_fst_filter: "map fst (filter (\<lambda>e. fst e \<notin> S) d) = filter (\<lambda>n. n \<notin> S) (map fst d)"
  by (induction d) auto

lemma rotated_append:
  "\<not> rotated_name a n \<Longrightarrow> map fst d' = filter (\<lambda>n. n \<notin> S) (map fst d) @ [n] \<Longrightarrow>
   rotated_files a d' = filter (\<lambda>n. n \<notin> S) (rotated_files a d)"
  by (simp add: rotated_files_eq filter_sort conj_commute)

lemma rotateLocked_works:
  assumes "works x" "sound a d" "d1 = rename_current x a d"
  shows "rotateLocked x a d = (a, open_append (al_base a)
     (filter (\<lambda>e. fst e \<notin> set (take (length (rotated_files a d1) - auditKeepRotated) (rotated_files a d1))) d1))"
proof -
  have "(\<lambda>n (d :: dir). if ai_remove x n then AList.delete n d else d) = AList.delete"
    using assms(1) by (auto simp: works_def fun_eq_iff)
  moreover have "ai_list x" "ai_open x" "a\<lparr>al_open := True\<rparr> = a"
    using assms(1,2) by (simp_all add: works_def sound_def)
  ultimately show ?thesis
    unfolding rotateLocked_def assms(3) by (simp only: Let_def if_True fold_delete)
qed

lemma rotate_files:
  assumes "works x" "sound a d" "fresh_stamp a d (ai_stamp x)" "rotateLocked x a d = (a', d')"
  shows "a' = a \<and> sound a d' \<and> content d' (al_base a) = [] \<and> length (rotated_files a d') \<le> auditKeepRotated \<and>
    (\<exists>dropped. trail a d = dropped @ trail a d')"
proof -
  let ?b = "al_base a" and ?s = "stamped a (ai_stamp x)"
  define R where "R = rotated_files a d @ [?s]"
  define d1 where "d1 = rename_current x a d"
  define S where "S = set (take (length R - auditKeepRotated) R)"
  note d1 = rename_files [OF assms(1-3) d1_def]
  have R: "rotated_files a d1 = R" "distinct R" using d1 rotated_distinct [of d1 a] by (auto simp: R_def)
  have d': "a' = a" "d' = open_append ?b (filter (\<lambda>e. fst e \<notin> S) d1)"
    using rotateLocked_works [OF assms(1,2) d1_def] assms(4) by (simp_all add: R(1) S_def)
  have b: "?b \<notin> set (map fst (filter (\<lambda>e. fst e \<notin> S) d1))" using d1 by auto
  have names: "map fst d' = filter (\<lambda>n. n \<notin> S) (map fst d1) @ [?b]"
    unfolding d'(2) open_append_def update_keys using b by (simp only: if_False map_fst_filter)
  have rot: "rotated_files a d' = drop (length R - auditKeepRotated) R"
    using rotated_append [OF base_not_rotated names] keep_dropped [OF R(2)] by (simp add: R(1) S_def)
  have sb: "?s \<noteq> ?b" using stamped_rotated [of a] base_not_rotated [of a] by metis
  have cont: "content d' n = (if n \<in> S \<or> n = ?b then [] else content d1 n)" for n
    using d1 sb by (auto simp: d'(2) open_append_def content_update content_filter)
  have old: "content d1 n = content d n" if "n \<in> set (rotated_files a d)" for n
    using that assms(3) base_not_rotated [of a] d1 by (auto simp: fresh_stamp_def rotated_files_eq)
  have "trail a d = concat (map (content d1) R)"
    using d1 old sb by (simp add: trail_def R_def cong: map_cong)
  also have "\<dots> = concat (map (content d1) (take (length R - auditKeepRotated) R)) @
      concat (map (content d1) (drop (length R - auditKeepRotated) R))"
    by (simp only: append_take_drop_id flip: concat_append map_append)
  also have "map (content d1) (drop (length R - auditKeepRotated) R) = map (content d') (rotated_files a d')"
    unfolding rot
  proof (rule map_cong [OF refl])
    fix n assume n: "n \<in> set (drop (length R - auditKeepRotated) R)"
    then have "n \<notin> S" using set_take_disj_set_drop_if_distinct [OF R(2) le_refl] by (auto simp: S_def)
    moreover have "n \<in> set (rotated_files a d')" using n by (simp add: rot)
    then have "n \<noteq> ?b" using base_not_rotated [of a] by (auto simp: rotated_files_eq)
    ultimately show "content d1 n = content d' n" by (simp add: cont)
  qed
  finally have "trail a d = concat (map (content d1) (take (length R - auditKeepRotated) R)) @ trail a d'"
    by (simp add: trail_def cont)
  moreover have "sound a d'"
  proof -
    have "?b \<in> set (map fst d')" unfolding names by simp
    moreover have "distinct (map fst d')" unfolding names using d1 by auto
    ultimately show ?thesis using assms(2) by (simp add: sound_def)
  qed
  ultimately show ?thesis using d'(1) cont rot by auto
qed

section \<open>Runs\<close>

text \<open>A call of \<open>Log\<close> and what the system does for it.\<close>

record logged =
  lg_io :: audit_io
  lg_event :: string
  lg_ip :: string
  lg_user :: string
  lg_detail :: string

definition log_step :: "logged \<Rightarrow> AuditLog \<times> dir \<Rightarrow> AuditLog \<times> dir" where
  "log_step w s = fst (Log (lg_io w) (lg_event w) (lg_ip w) (lg_user w) (lg_detail w) s)"

definition line_of :: "logged \<Rightarrow> string" where
  "line_of w = audit_line \<lparr>ae_Time = ai_time (lg_io w), ae_Event = lg_event w, ae_IP = lg_ip w,
     ae_User = lg_user w, ae_Detail = lg_detail w\<rparr>"

definition rotates :: "logged \<Rightarrow> AuditLog \<times> dir \<Rightarrow> bool" where
  "rotates w s \<longleftrightarrow> int (length (content (snd s) (al_base (fst s)))) + int (length (line_of w)) > al_max (fst s)"

text \<open>Every rotation has a stamp after those of the files rotated before.\<close>

fun paced :: "logged list \<Rightarrow> AuditLog \<times> dir \<Rightarrow> bool" where
  "paced [] s = True"
| "paced (w # ws) s \<longleftrightarrow>
     (rotates w s \<longrightarrow> fresh_stamp (fst s) (snd s) (ai_stamp (lg_io w))) \<and> paced ws (log_step w s)"

lemma append_line:
  assumes "sound a d"
  shows "sound a (AList.update (al_base a) v d) \<and>
    rotated_files a (AList.update (al_base a) v d) = rotated_files a d \<and>
    content (AList.update (al_base a) v d) (al_base a) = v \<and>
    (v = content d (al_base a) @ l \<longrightarrow> trail a (AList.update (al_base a) v d) = trail a d @ l)"
proof -
  have names: "map fst (AList.update (al_base a) v d) = map fst d"
    using assms by (simp add: update_keys sound_def)
  then have "fst ` set (AList.update (al_base a) v d) = fst ` set d" by (metis list.set_map)
  moreover have rot: "rotated_files a (AList.update (al_base a) v d) = rotated_files a d"
    by (simp only: rotated_files_eq names)
  moreover have "map (content (AList.update (al_base a) v d)) (rotated_files a d) = map (content d) (rotated_files a d)"
    using base_not_rotated [of a] by (auto simp: rotated_files_eq content_update)
  then have "trail a (AList.update (al_base a) v d) = concat (map (content d) (rotated_files a d)) @ v"
    unfolding trail_def rot by (simp add: content_update del: map_eq_conv)
  ultimately show ?thesis
    using assms names by (auto simp: sound_def content_update trail_def [of a d])
qed

lemma log_once:
  assumes "works (lg_io w)" "sound a d" "rotates w (a, d) \<longrightarrow> fresh_stamp a d (ai_stamp (lg_io w))"
    and "length (rotated_files a d) \<le> auditKeepRotated"
  shows "\<exists>d' dropped. log_step w (a, d) = (a, d') \<and> sound a d' \<and> length (rotated_files a d') \<le> auditKeepRotated \<and>
    trail a d @ line_of w = dropped @ trail a d' \<and>
    (content d' (al_base a) = line_of w \<or>
     content d' (al_base a) = content d (al_base a) @ line_of w \<and> int (length (content d' (al_base a))) \<le> al_max a)"
proof (cases "rotates w (a, d)")
  case True
  obtain a1 d1 where r: "rotateLocked (lg_io w) a d = (a1, d1)" by force
  then obtain dropped where d1: "a1 = a" "sound a d1" "content d1 (al_base a) = []"
      "length (rotated_files a d1) \<le> auditKeepRotated" "trail a d = dropped @ trail a d1"
    using rotate_files [OF assms(1,2) _ r] assms(3) True by blast
  have "log_step w (a, d) = (a, AList.update (al_base a) (line_of w) d1)"
    using r True assms(1,2) d1
    by (simp add: log_step_def Log_def Let_def rotates_def line_of_def works_def sound_def)
  then show ?thesis
    using append_line [OF d1(2), of "line_of w" "line_of w"] d1
    by (intro exI [of _ "AList.update (al_base a) (line_of w) d1"] exI [of _ dropped]) simp
next
  case False
  let ?v = "content d (al_base a) @ line_of w"
  have "log_step w (a, d) = (a, AList.update (al_base a) ?v d)"
    using False assms(1,2)
    by (simp add: log_step_def Log_def Let_def rotates_def line_of_def works_def sound_def)
  then show ?thesis
    using append_line [OF assms(2), of ?v "line_of w"] assms(4) False
    by (intro exI [of _ "AList.update (al_base a) ?v d"] exI [of _ "[]"]) (simp add: rotates_def)
qed

lemma log_all:
  assumes "list_all (\<lambda>w. works (lg_io w)) ws" "sound a d" "paced ws (a, d)"
    and "length (rotated_files a d) \<le> auditKeepRotated"
  shows "\<exists>d' dropped. fold log_step ws (a, d) = (a, d') \<and> sound a d' \<and>
    length (rotated_files a d') \<le> auditKeepRotated \<and>
    trail a d @ concat (map line_of ws) = dropped @ trail a d' \<and>
    (ws = [] \<and> d' = d \<or> ws \<noteq> [] \<and> (\<exists>l. content d' (al_base a) = l @ line_of (last ws) \<and>
       (l = [] \<or> int (length (content d' (al_base a))) \<le> al_max a)))"
  using assms
proof (induction ws arbitrary: d)
  case (Cons w ws)
  obtain d1 dr where d1: "log_step w (a, d) = (a, d1)" "sound a d1" "length (rotated_files a d1) \<le> auditKeepRotated"
      "trail a d @ line_of w = dr @ trail a d1"
      "content d1 (al_base a) = line_of w \<or>
       content d1 (al_base a) = content d (al_base a) @ line_of w \<and> int (length (content d1 (al_base a))) \<le> al_max a"
    using log_once [of w a d] Cons.prems by auto
  obtain d' dr' where d': "fold log_step ws (a, d1) = (a, d')" "sound a d'"
      "length (rotated_files a d') \<le> auditKeepRotated"
      "trail a d1 @ concat (map line_of ws) = dr' @ trail a d'"
      "ws = [] \<and> d' = d1 \<or> ws \<noteq> [] \<and> (\<exists>l. content d' (al_base a) = l @ line_of (last ws) \<and>
       (l = [] \<or> int (length (content d' (al_base a))) \<le> al_max a))"
    using Cons.IH [of d1] Cons.prems d1 by auto
  have "trail a d @ concat (map line_of (w # ws)) = (dr @ dr') @ trail a d'"
    using d1(4) d'(4) by (metis append.assoc concat.simps(2) list.simps(9))
  moreover have "\<exists>l. content d' (al_base a) = l @ line_of (last (w # ws)) \<and>
       (l = [] \<or> int (length (content d' (al_base a))) \<le> al_max a)"
    using d1(5) d'(5) by (cases "ws = []") auto
  ultimately show ?case using d1(1) d'(1-3) by (intro exI [of _ d'] exI [of _ "dr @ dr'"]) simp
qed simp


definition good_io :: "string \<Rightarrow> audit_io" where
  "good_io s = \<lparr>ai_time = s, ai_stamp = s, ai_stat = True, ai_rename = True, ai_list = True,
     ai_remove = (\<lambda>n. True), ai_open = True, ai_kept = None\<rparr>"

definition two_logins :: "logged list" where
  "two_logins =
     [\<lparr>lg_io = good_io ''20250101-000000'', lg_event = ''login_failed'', lg_ip = ''10.0.0.7'', lg_user = ''eve'', lg_detail = []\<rparr>,
      \<lparr>lg_io = good_io ''20250101-000003'', lg_event = ''login'', lg_ip = ''10.0.0.7'', lg_user = ''alice'', lg_detail = []\<rparr>]"

definition small_log :: AuditLog where
  "small_log = \<lparr>al_open = True, al_base = ''audit.log'', al_max = 100, al_sink = False\<rparr>"


end
