(* ===== verification/Startup.thy ===== *)
theory Startup
  imports Cluster Gateway Locks BackupFiles
begin

text \<open>
  The start of the program: \<open>main\<close> of \<open>main.go\<close>, from the flags to the servers it runs.

  What the start finds, the files, the database, the certificates, what the network does, is the argument
  \<open>w\<close>. The result is the exit code, or the running process: its node, its ports and how they are served.
  The log and the shutdown are not modelled, nor is a port that cannot be opened, which ends the process a
  moment later; the goroutines started here are the steps of \<open>System\<close>.
\<close>

section \<open>What the start is given\<close>

record flags =
  fl_adminPort :: int
  fl_httpPort :: int
  fl_httpsPort :: int
  fl_backupBD :: string
  fl_restoreBD :: string
  fl_updateCheck :: bool
  fl_updateApply :: bool

text \<open>
  \<open>wd_update\<close> and \<open>wd_check\<close> say whether an update is made and a check answered, \<open>wd_copyOut\<close> and \<open>wd_copyIn\<close>
  what becomes of the file of a copy, \<open>wd_queries\<close> and \<open>wd_online\<close> what becomes of the queries for it.
\<close>

record world =
  wd_env :: env
  wd_readable :: bool
  wd_file :: "string option"
  wd_backups :: "(string \<times> string) list"
  wd_key :: keyfile
  wd_attempts :: "attempt \<times> attempt \<times> attempt"
  wd_update :: bool
  wd_check :: bool
  wd_codec :: codec
  wd_db :: pgdb
  wd_queries :: queries
  wd_online :: bool
  wd_copyOut :: bool
  wd_copyIn :: "string option"
  wd_audit :: bool
  wd_certs :: "nat option"
  wd_locks :: "bool \<times> lock_table \<times> lock_file"
  wd_listen :: "string \<Rightarrow> string option"

section \<open>What runs\<close>

datatype https = NoHTTPS | ManagedHTTPS | FileHTTPS string string

record process =
  ps_node :: node
  ps_adminPort :: int
  ps_httpPort :: int
  ps_httpsPort :: int
  ps_panelTLS :: "(string \<times> string) option"
  ps_https :: https
  ps_acme :: bool
  ps_storageOps :: bool
  ps_copies :: "int option"

text \<open>\<open>Stopped\<close>: the exit code, the database and the file of a copy, if one was written.\<close>

datatype outcome = Stopped int pgdb "string option" | Running process

section \<open>The start\<close>

definition update_mode :: "flags \<Rightarrow> world \<Rightarrow> outcome" where
  "update_mode fl w =
     (if fl_updateApply fl then Stopped (if wd_update w then 0 else 1) (wd_db w) None
      else Stopped (if wd_check w then 0 else 1) (wd_db w) None)"

definition copy_mode :: "flags \<Rightarrow> world \<Rightarrow> bool \<Rightarrow> outcome" where
  "copy_mode fl w attached =
     (let now = e_now (wd_env w); q = wd_queries w
      in if \<not> attached then Stopped 1 (wd_db w) None
         else if fl_backupBD fl \<noteq> [] then
           (case SnapshotToJSON (wd_codec w) now (fst q) (fst (snd q)) (snd (snd q)) of
              None \<Rightarrow> Stopped 1 (wd_db w) None
            | Some data \<Rightarrow> if wd_copyOut w then Stopped 0 (wd_db w) (Some data) else Stopped 1 (wd_db w) None)
         else (case wd_copyIn w of
                 None \<Rightarrow> Stopped 1 (wd_db w) None
               | Some data \<Rightarrow>
                   (case RestoreFromJSON (wd_codec w) (wd_online w) now data (wd_db w) of
                      (Inl e, db) \<Rightarrow> Stopped 1 db None
                    | (Inr done, db) \<Rightarrow> Stopped 0 db None)))"

definition start_health :: "HealthCheckConfig \<Rightarrow> Engine \<Rightarrow> Engine" where
  "start_health hk e =
     (if hk_Enabled hk \<or> hk_IntervalSec hk > 0 \<or> hk_Failures hk > 0
      then SetHealthChecker (New (hk_IntervalSec hk * Second) (hk_TimeoutSec hk * Second) (hk_Failures hk)) e
      else e)"

definition start_limiters :: "world \<Rightarrow> bool \<Rightarrow> Config \<Rightarrow> limiterPersist" where
  "start_limiters w attached cfg =
     (let lim = NewLimiter (cf_LoginMaxFails cfg) (15 * Minute) (cf_LockoutMinutes cfg * Minute)
      in load_limiters (e_now (wd_env w)) (fst (wd_locks w)) (fst (snd (wd_locks w))) (snd (snd (wd_locks w)))
           \<lparr>lp_limiters = [(''ip'', lim), (''user'', lim), (''totp'', NewLimiter 6 (10 * Minute) (10 * Minute))],
            lp_pg = attached\<rparr>)"

definition limiter_named :: "limiterPersist \<Rightarrow> string \<Rightarrow> limiter" where
  "limiter_named p n = (case map_of (lp_limiters p) n of Some l \<Rightarrow> l | None \<Rightarrow> NewLimiter 0 0 0)"

text \<open>A flag that is given overrides the port of the configuration, for this process only.\<close>

definition port :: "int \<Rightarrow> int \<Rightarrow> int" where
  "port flag configured = (if flag > 0 then flag else configured)"

definition https_mode :: "nat \<Rightarrow> Config \<Rightarrow> https" where
  "https_mode customs cfg =
     (if ac_Enabled (cf_ACME cfg) \<or> customs > 0 then ManagedHTTPS
      else if cf_TLSCertFile cfg \<noteq> [] \<and> cf_TLSKeyFile cfg \<noteq> []
        then FileHTTPS (cf_TLSCertFile cfg) (cf_TLSKeyFile cfg)
      else NoHTTPS)"

text \<open>
  The running program. \<open>hk\<close> is the part of the configuration that was current when the health checker
  was made, before the identity providers, the limiters and the routes.
\<close>

definition start_process :: "flags \<Rightarrow> world \<Rightarrow> bool \<Rightarrow> HealthCheckConfig \<Rightarrow> nat \<Rightarrow> Store \<Rightarrow> process" where
  "start_process fl w attached hk customs st =
     (let e = wd_env w; cfg = s_cfg st; lims = start_limiters w attached cfg;
          panel = snd (Reload e \<lparr>pn_store = st, pn_oauth = False, pn_limIP = limiter_named lims ''ip'',
            pn_limUser = limiter_named lims ''user'', pn_limTOTP = limiter_named lims ''totp'', pn_audit = []\<rparr>);
          engine = Rebuild (e_url e) (cf_Rules cfg) (SetTLSLax (cf_InsecureUpstream cfg) (start_health hk NewEngine));
          streams = Apply (wd_listen w) (cf_StreamRules cfg) (NewManager True);
          interval = sc_BackupIntervalMinutes (cf_Storage cfg)
      in \<lparr>ps_node = \<lparr>nd_admin = \<lparr>ad_panel = panel, ad_engine = engine, ad_streams = Some (Some streams)\<rparr>,
            nd_metrics = NewMetrics\<rparr>,
          ps_adminPort = port (fl_adminPort fl) (cf_AdminPort cfg),
          ps_httpPort = port (fl_httpPort fl) (cf_ProxyHTTPPort cfg),
          ps_httpsPort = port (fl_httpsPort fl) (cf_ProxyHTTPSPort cfg),
          ps_panelTLS = (if cf_PanelTLSCertFile cfg \<noteq> [] \<and> cf_PanelTLSKeyFile cfg \<noteq> []
            then Some (cf_PanelTLSCertFile cfg, cf_PanelTLSKeyFile cfg) else None),
          ps_https = https_mode customs cfg, ps_acme = ac_Enabled (cf_ACME cfg), ps_storageOps = attached,
          ps_copies = (if attached \<and> interval > 0 then Some interval else None)\<rparr>)"

definition boot :: "flags \<Rightarrow> world \<Rightarrow> outcome" where
  "boot fl w =
     (if fl_updateCheck fl \<or> fl_updateApply fl then update_mode fl w
      else (case Load (e_draws (wd_env w)) (e_io (wd_env w)) (wd_readable w) (wd_file w) (wd_backups w) (wd_key w) of
              Inl err \<Rightarrow> Stopped 1 (wd_db w) None
            | Inr st \<Rightarrow>
                (case start_storage (wd_attempts w) st of
                   Some Fatal \<Rightarrow> Stopped 1 (wd_db w) None
                 | s \<Rightarrow>
                     (let attached = (case s of Some (Attached st') \<Rightarrow> True | _ \<Rightarrow> False);
                          st' = (case s of Some (Attached st') \<Rightarrow> st' | Some (Degraded st') \<Rightarrow> st' | _ \<Rightarrow> st);
                          hk = cf_HealthCheck (s_cfg (if attached then st' else st))
                      in if fl_backupBD fl \<noteq> [] \<or> fl_restoreBD fl \<noteq> [] then copy_mode fl w attached
                         else if \<not> wd_audit w then Stopped 1 (wd_db w) None
                         else (case wd_certs w of
                                 None \<Rightarrow> Stopped 1 (wd_db w) None
                               | Some customs \<Rightarrow> Running (start_process fl w attached hk customs st'))))))"

section \<open>What a start gives\<close>

text \<open>A configuration that has been through \<open>normalize\<close>, as far as the start depends on it.\<close>

definition settled :: "Config \<Rightarrow> bool" where
  "settled c \<longleftrightarrow> cf_LoginMaxFails c > 0 \<and> cf_LockoutMinutes c > 0 \<and> hk_IntervalSec (cf_HealthCheck c) > 0 \<and>
     hk_TimeoutSec (cf_HealthCheck c) > 0 \<and> hk_Failures (cf_HealthCheck c) > 0"

lemma normalize_settled: "normalize d c = Some c' \<Longrightarrow> settled c'"
  by (auto simp: normalize_def with_defaults_def settled_def default_pos_def split: option.splits)

lemma settled_open: "settled (fst (openSensitive d c kf)) = settled c"
  by (simp add: openSensitive_def put_sensitive_def settled_def split: prod.split)

lemma Load_settled:
  assumes "Load d x rd file backups kf = Inr st"
  shows "settled (s_cfg st)"
proof -
  have "\<exists>c st0. settled c \<and> s_cfg st0 = fst (openSensitive d c kf) \<and> Save d x st0 = (None, st)"
    using assms
    by (auto simp: Load_def dest!: normalize_settled split: option.splits sum.splits if_splits prod.splits)
      (metis Store.select_convs(1) fst_conv)+
  then show ?thesis using settled_open Save_cfg by (metis snd_conv)
qed

lemma decode_settled: "decodeConfig d data kf = (Inr c, kf') \<Longrightarrow> settled c"
  using settled_open
  by (auto simp: decodeConfig_def dest!: normalize_settled split: option.splits prod.splits if_splits) (metis fst_conv)

lemma SetBackend_settled: "settled (s_cfg st) \<Longrightarrow> settled (s_cfg (snd (SetBackend d x r st)))"
  by (auto simp: SetBackend_def pushToBackend_def persistLocal_def Let_def dest: decode_settled
      split: prod.splits sum.splits if_splits)

lemma attach_settled:
  "settled (s_cfg st) \<Longrightarrow> attach_attempts ts st = Attached st' \<or> attach_attempts ts st = Degraded st' \<Longrightarrow>
   settled (s_cfg st')"
proof (induction ts arbitrary: st)
  case (Cons t ts)
  obtain e st1 where a: "attachPostgres t st = (e, st1)" by force
  then have "settled (s_cfg st1)"
    using Cons.prems(1) SetBackend_settled [of st] unfolding attachPostgres_def
    by (auto split: if_splits prod.splits option.splits) (metis snd_conv)+
  then show ?case using Cons a by (auto split: option.splits if_splits)
qed auto

lemma start_storage_settled:
  assumes "settled (s_cfg st)" "start_storage ts st = Some (Attached st') \<or> start_storage ts st = Some (Degraded st')"
  shows "settled (s_cfg st')"
  using assms(2) attach_settled [OF assms(1)]
  by (auto simp: start_storage_def Let_def simp del: attach_attempts.simps split: if_splits)

lemma restore_limits: "l_max (Limiter.Restore now s l) = l_max l \<and> l_window (Limiter.Restore now s l) = l_window l \<and> l_lockout (Limiter.Restore now s l) = l_lockout l"
  by (simp add: Limiter.Restore_def split: option.split)

definition limits :: "limiter \<Rightarrow> int \<times> duration \<times> duration" where
  "limits l = (l_max l, l_window l, l_lockout l)"

lemma restored_limits:
  "map (\<lambda>(n, l). (n, limits l)) (lp_limiters (restore_states now s p)) = map (\<lambda>(n, l). (n, limits l)) (lp_limiters p)"
  by (simp add: restore_states_def restore_limits limits_def case_prod_beta split: option.split)

lemma loaded_limits:
  "map (\<lambda>(n, l). (n, limits l)) (lp_limiters (load_limiters now ok t f p)) = map (\<lambda>(n, l). (n, limits l)) (lp_limiters p)"
  by (simp add: load_limiters_def load_cluster_def restored_limits split: option.split)

lemma limiter_limits:
  assumes "map (\<lambda>(n, l). (n, limits l)) (lp_limiters p) = kvs" "map_of kvs n = Some v"
  shows "limits (limiter_named p n) = v"
proof -
  have "map_option limits (map_of (lp_limiters p) n) = Some v"
    using assms(2) by (simp add: map_of_map flip: assms(1))
  then show ?thesis by (auto simp: limiter_named_def)
qed

lemma boot_running:
  assumes "boot fl w = Running p"
  obtains attached hk customs st where "p = start_process fl w attached hk customs st" "settled (s_cfg st)"
    "hk_IntervalSec hk > 0"
proof -
  have no: "update_mode fl w \<noteq> Running p" "copy_mode fl w b \<noteq> Running p" for b
    by (auto simp: update_mode_def copy_mode_def Let_def split: option.split prod.split sum.split)
  obtain st where st: "Load (e_draws (wd_env w)) (e_io (wd_env w)) (wd_readable w) (wd_file w) (wd_backups w) (wd_key w) = Inr st"
    using assms no by (auto simp: boot_def split: if_splits sum.splits)
  note s = Load_settled [OF st]
  have hk: "hk_IntervalSec (cf_HealthCheck (s_cfg x)) > 0" if "settled (s_cfg x)" for x
    using that by (simp add: settled_def)
  show thesis
  proof (cases "start_storage (wd_attempts w) st")
    case None
    then obtain customs where "p = start_process fl w False (cf_HealthCheck (s_cfg st)) customs st"
      using assms no by (auto simp: boot_def st Let_def split: if_splits option.splits)
    then show thesis using that s hk by blast
  next
    case (Some b)
    note b = start_storage_settled [OF s, of "wd_attempts w", unfolded Some]
    show thesis
    proof (cases b)
      case (Attached st')
      then obtain customs where "p = start_process fl w True (cf_HealthCheck (s_cfg st')) customs st'"
        using assms no Some by (auto simp: boot_def st Let_def split: if_splits option.splits)
      then show thesis using that hk b Attached by blast
    next
      case (Degraded st')
      then obtain customs where "p = start_process fl w False (cf_HealthCheck (s_cfg st)) customs st'"
        using assms no Some by (auto simp: boot_def st Let_def split: if_splits option.splits)
      then show thesis using that hk s b Degraded by blast
    next
      case Fatal
      then show thesis using assms no Some by (auto simp: boot_def st split: if_splits)
    qed
  qed
qed

text \<open>The state of the panel and the engine that the start makes.\<close>

lemma start_process_sel:
  "s_cfg (pn_store (ad_panel (nd_admin (ps_node (start_process fl w attached hk customs st))))) = s_cfg st"
  "ad_engine (nd_admin (ps_node (start_process fl w attached hk customs st))) = Rebuild (e_url (wd_env w))
     (cf_Rules (s_cfg st)) (SetTLSLax (cf_InsecureUpstream (s_cfg st)) (start_health hk NewEngine))"
  "pn_limIP (ad_panel (nd_admin (ps_node (start_process fl w attached hk customs st)))) =
     limiter_named (start_limiters w attached (s_cfg st)) ''ip''"
  "pn_limUser (ad_panel (nd_admin (ps_node (start_process fl w attached hk customs st)))) =
     limiter_named (start_limiters w attached (s_cfg st)) ''user''"
  "pn_limTOTP (ad_panel (nd_admin (ps_node (start_process fl w attached hk customs st)))) =
     limiter_named (start_limiters w attached (s_cfg st)) ''totp''"
  by (simp_all add: start_process_def Reload_def Let_def)

lemma start_in_sync:
  "in_sync (e_url (wd_env w)) (nd_admin (ps_node (start_process fl w attached hk customs st)))"
  using in_sync_rebuild [of "wd_env w" "(nd_admin (ps_node (start_process fl w attached hk customs st)))
    \<lparr>ad_engine := start_health hk NewEngine\<rparr>"]
  by (simp add: in_sync_def rebuild_def start_process_sel)

lemma startLocked_first: "startLocked listen (NewManager True) r = listen (sr_Listen r)"
  by (simp add: startLocked_def NewManager_def split: option.split)

lemma NewManager_idle: "sm_running (NewManager c) k = None"
  by (simp add: NewManager_def)


definition first_start :: world where
  "first_start = \<lparr>wd_env = sample_env 0, wd_readable = True, wd_file = None, wd_backups = [],
     wd_key = sample_key CHR ''k'', wd_attempts = (late_failure, late_failure, late_failure), wd_update = True, wd_check = True,
     wd_codec = plain_codec, wd_db = blank_db, wd_queries = (None, None, None), wd_online = True, wd_copyOut = True,
     wd_copyIn = None, wd_audit = True, wd_certs = Some 0, wd_locks = (True, Map.empty, None),
     wd_listen = (\<lambda>a. None)\<rparr>"

definition no_flags :: flags where
  "no_flags = \<lparr>fl_adminPort = 9000, fl_httpPort = 0, fl_httpsPort = 0, fl_backupBD = [], fl_restoreBD = [],
     fl_updateCheck = False, fl_updateApply = False\<rparr>"

lemma first_start_loads:
  "\<exists>st. Load sample_draws sample_io True None [] (sample_key CHR ''k'') = Inr st \<and>
     sc_Backend (cf_Storage (s_cfg st)) = [] \<and> cf_Rules (s_cfg st) = []"
proof -
  let ?c = "with_defaults sample_draws ''h'' load_base"
  let ?c' = "map_sensitive (\<lambda>l. open_text (ctx sample_draws (sample_key CHR ''k''))) ?c"
  have n: "normalize sample_draws load_base = Some ?c"
    by (simp add: normalize_def load_base_def no_config_def sample_draws_def)
  let ?st = "\<lparr>s_cfg = ?c', s_local = None, s_backups = [], s_key = sample_key CHR ''k'', s_backend = None,
      s_backendOK = False, s_lastVer = []\<rparr>"
  obtain st where st: "Save sample_draws sample_io ?st = (None, st)"
    using Save_saved [of sample_io sample_draws ?st] by (cases "Save sample_draws sample_io ?st") (simp add: sample_io_def)
  then have "s_cfg st = ?c'" using Save_cfg [of sample_draws sample_io ?st] by simp
  then have "sc_Backend (cf_Storage (s_cfg st)) = []" "cf_Rules (s_cfg st) = []"
    by (simp_all add: map_sensitive_def put_sensitive_def with_defaults_def load_base_def no_config_def)
  moreover have "Load sample_draws sample_io True None [] (sample_key CHR ''k'') = Inr st"
    using st by (simp add: Load_def n openSensitive_text)
  ultimately show ?thesis by blast
qed

lemma boot_on_file:
  assumes "Load sample_draws sample_io True file [] (sample_key CHR ''k'') = Inr st" "sc_Backend (cf_Storage (s_cfg st)) = []"
  shows "boot no_flags (first_start\<lparr>wd_file := file\<rparr>) =
    Running (start_process no_flags (first_start\<lparr>wd_file := file\<rparr>) False (cf_HealthCheck (s_cfg st)) 0 st)"
proof -
  have "start_storage (late_failure, late_failure, late_failure) st = None"
    using assms(2) by (simp add: start_storage_def Let_def TrimSpace_def EqualFold_def ToLower_def)
  then show ?thesis
    using assms(1) by (simp add: boot_def no_flags_def first_start_def sample_env_def Let_def)
qed

lemma first_boot: "\<exists>p. boot no_flags first_start = Running p"
proof -
  obtain st where "Load sample_draws sample_io True None [] (sample_key CHR ''k'') = Inr st"
      "sc_Backend (cf_Storage (s_cfg st)) = []"
    using first_start_loads by blast
  moreover have "first_start\<lparr>wd_file := None\<rparr> = first_start" by (simp add: first_start_def)
  ultimately show ?thesis using boot_on_file by metis
qed


end
