(* ===== verification/System.thy ===== *)
theory System
  imports Startup
begin

text \<open>
  The running program: what its servers, its clients and its goroutines do to a node, one step at a time, in
  any order. The steps are those of the other theories; here they run together, from \<open>boot\<close> on.

  Each step is atomic. In the program the store, the engine, the balancer and the limiters each have a lock
  of their own; that two of their critical sections overlap is not modelled.
\<close>

section \<open>Steps\<close>

text \<open>
  A request to the panel; one to a port of the proxy (with ACME or not, the certificates of the operator
  and of the client, by host); the end of a request at its backend; the database watched; a probe of the health
  checker. The counters of the metrics are left to themselves.
\<close>

datatype action =
    Panel env request
  | Visit bool "string \<Rightarrow> bool" "string \<Rightarrow> bool" env request
  | Finished nat
  | Watched watch
  | Probed hc_event
  | Counted Metrics

text \<open>The state: the node, and the requests that are at a backend, by its identity.\<close>

type_synonym system = "node \<times> nat multiset"

definition handed_over :: "reply \<Rightarrow> nat multiset" where
  "handed_over w = (case w of Routed (Proxied b) \<Rightarrow> {#b#} | _ \<Rightarrow> {#})"

fun act :: "action \<Rightarrow> system \<Rightarrow> system" where
  "act (Panel e r) (n, q) = (n\<lparr>nd_admin := snd (serve e r (nd_admin n))\<rparr>, q)"
| "act (Visit useACME custom cached e r) (n, q) =
     (case serve_http useACME custom cached e r (nd_admin n) of (w, a) \<Rightarrow> (n\<lparr>nd_admin := a\<rparr>, q + handed_over w))"
| "act (Finished b) (n, q) =
     (n\<lparr>nd_admin := (nd_admin n)\<lparr>ad_engine := request_done b (ad_engine (nd_admin n))\<rparr>\<rparr>, q - {#b#})"
| "act (Watched w) (n, q) = (watch_step w n, q)"
| "act (Probed ev) (n, q) = (n\<lparr>nd_admin := (nd_admin n)\<lparr>ad_engine := (ad_engine (nd_admin n))
     \<lparr>e_health := map_option (hc_step ev) (e_health (ad_engine (nd_admin n)))\<rparr>\<rparr>\<rparr>, q)"
| "act (Counted m) (n, q) = (n\<lparr>nd_metrics := m\<rparr>, q)"

text \<open>
  \<open>possible\<close>: the addresses are parsed by the same \<open>net/url\<close> throughout, and a request ends that has begun.
  \<open>recorded\<close>: the configuration can be saved, to the file and to the database.
\<close>

fun possible :: "url_parser \<Rightarrow> nat multiset \<Rightarrow> action \<Rightarrow> bool" where
  "possible up q (Panel e r) \<longleftrightarrow> e_url e = up"
| "possible up q (Visit useACME custom cached e r) \<longleftrightarrow> e_url e = up"
| "possible up q (Watched w) \<longleftrightarrow> e_url (lk_env (look_of w)) = up"
| "possible up q (Finished b) \<longleftrightarrow> b \<in># q"
| "possible up q _ \<longleftrightarrow> True"

fun recorded :: "action \<Rightarrow> bool" where
  "recorded (Panel e r) \<longleftrightarrow> saves_ok e"
| "recorded (Watched w) \<longleftrightarrow> io_local (e_io (lk_env (look_of w)))"
| "recorded _ \<longleftrightarrow> True"

text \<open>What the program may have come to from \<open>s\<close> by actions that are \<open>good\<close>.\<close>

inductive runs :: "url_parser \<Rightarrow> (action \<Rightarrow> bool) \<Rightarrow> system \<Rightarrow> system \<Rightarrow> bool" for up good s where
  start: "runs up good s s"
| step: "runs up good s t \<Longrightarrow> possible up (snd t) x \<Longrightarrow> good x \<Longrightarrow> runs up good s (act x t)"

section \<open>The routing table through all of them\<close>

definition same_views :: "Engine \<Rightarrow> Engine \<Rightarrow> bool" where
  "same_views e e' \<longleftrightarrow> map fst (e_routes e') = map fst (e_routes e) \<and>
     (\<forall>k. map_option rt_view (map_of (e_routes e') k) = map_option rt_view (map_of (e_routes e) k))"

lemma same_views_follow: "same_views e e' \<Longrightarrow> follows_rules up lax rls e \<Longrightarrow> follows_rules up lax rls e'"
  by (simp add: same_views_def follows_rules_def)

lemma in_sync_views:
  "same_views (ad_engine a) e' \<Longrightarrow> in_sync up a \<Longrightarrow> in_sync up (a\<lparr>ad_engine := e'\<rparr>)"
  using same_views_follow by (auto simp: in_sync_def)

lemma same_views_done: "same_views e (request_done b e)"
proof -
  have "rt_view (rt\<lparr>rt_backends := map (dec_backend b) (rt_backends rt)\<rparr>) = rt_view rt" for rt
    by (simp add: rt_view_def be_view_def dec_backend_def)
  then show ?thesis
    by (simp add: same_views_def request_done_def map_of_map option.map_comp comp_def case_prod_beta)
qed

lemma same_views_set:
  assumes "map_of (e_routes e) k = Some rt" "rt_view rt' = rt_view rt"
  shows "same_views e (set_route k rt' e)"
proof -
  have "k \<in> fst ` set (e_routes e)" using assms(1) by (metis map_of_eq_None_iff option.distinct(1))
  then show ?thesis
    using assms by (simp add: same_views_def set_route_def update_keys update_conv')
qed

lemma same_views_handle:
  assumes "distinct (map fst (e_routes e))"
  shows "same_views e (snd (handle auth host e))"
proof -
  have refl: "same_views e e" by (simp add: same_views_def)
  obtain ans e' where h: "handle auth host e = (ans, e')" by fastforce
  have "same_views e e'"
  proof (cases "\<exists>b. ans = Proxied b")
    case True
    then obtain b k rt lb i where l: "lookup e host = Some (k, rt)" and i: "i < length (rt_backends rt)"
      and lb: "map_option lb_strategy lb = map_option lb_strategy (rt_lb rt)"
      and e': "e' = set_route k (rt\<lparr>rt_lb := lb, rt_backends := inc_conns i (rt_backends rt)\<rparr>) e"
      using h handle_proxied [of auth host e _ e'] by metis
    have "rt_view (rt\<lparr>rt_lb := lb, rt_backends := inc_conns i (rt_backends rt)\<rparr>) = rt_view rt"
      using i lb by (simp add: rt_view_def map_inc_conns be_view_def)
    then show ?thesis unfolding e' by (rule same_views_set [OF lookup_routes [OF assms l]])
  next
    case False
    then show ?thesis
      using handle_refused [OF h] refl same_views_set [OF lookup_routes [OF assms]]
      by (auto simp: same_shape_def)
  qed
  then show ?thesis by (simp add: h)
qed

lemma visit_sync:
  assumes "in_sync up a"
  shows "in_sync up (snd (serve_http useACME custom cached e r a))"
proof -
  have "same_views (ad_engine a) (snd (handle auth host (ad_engine a)))" for auth host
    using assms by (intro same_views_handle) (simp add: in_sync_def follows_rules_def)
  then have "in_sync up (a\<lparr>ad_engine := en\<rparr>)" if "handle auth host (ad_engine a) = (ans, en)" for auth host ans en
    using that in_sync_views [OF _ assms] by (metis snd_conv)
  then have "in_sync up (snd (serve_proxy e r a))" using assms by (simp add: serve_proxy_def Let_def split: prod.split)
  then show ?thesis using assms by (simp add: serve_http_def Let_def)
qed

lemma act_sync:
  assumes "possible up (snd s) x" "recorded x" "in_sync up (nd_admin (fst s))"
  shows "in_sync up (nd_admin (fst (act x s)))"
proof -
  obtain n q where s: "s = (n, q)" by fastforce
  show ?thesis
  proof (cases x)
    case (Visit useACME custom cached e r)
    then show ?thesis using assms(3) visit_sync by (simp add: s split: prod.split) (metis snd_conv)
  next
    case (Probed ev)
    then show ?thesis using assms(3) by (simp add: s in_sync_def follows_rules_def)
  qed (use assms serve_sync watch_sync in \<open>auto simp: s intro: in_sync_views same_views_done\<close>)
qed

lemma runs_sync: "runs up recorded s t \<Longrightarrow> in_sync up (nd_admin (fst s)) \<Longrightarrow> in_sync up (nd_admin (fst t))"
  by (induction rule: runs.induct) (simp_all add: act_sync)

lemma boot_sync: "boot fl w = Running p \<Longrightarrow> in_sync (e_url (wd_env w)) (nd_admin (ps_node p))"
  by (auto simp: start_in_sync elim!: boot_running)


section \<open>The engine of the program\<close>

text \<open>Between two requests an engine is left alone or rebuilt.\<close>

definition rebuilt :: "url_parser \<Rightarrow> Engine \<Rightarrow> Engine \<Rightarrow> bool" where
  "rebuilt up e e' \<longleftrightarrow> e' = e \<or> (\<exists>rls lax. e' = Rebuild up rls (SetTLSLax lax e))"

lemma rebuiltI [intro]: "rebuilt up e e" "ad_engine a = e \<Longrightarrow> rebuilt (e_url v) e (ad_engine (rebuild v a))"
  by (auto simp: rebuilt_def rebuild_def)

lemma same_routing_rebuilt: "same_routing a a' \<Longrightarrow> rebuilt up (ad_engine a) (ad_engine a')"
  by (simp add: same_routing_def rebuilt_def)

lemma update_rebuilt:
  assumes "\<And>a'. ad_engine a' = ad_engine a \<Longrightarrow> rebuilt up (ad_engine a) (ad_engine (snd (ok a')))"
  shows "rebuilt up (ad_engine a) (ad_engine (snd (case admin_update e f a of (None, a') \<Rightarrow> ok a' | (Some err, a') \<Rightarrow> (w, a'))))"
proof -
  obtain err a' where u: "admin_update e f a = (err, a')" by fastforce
  then have "ad_engine a' = ad_engine a" by (metis admin_update_engine snd_conv)
  then show ?thesis using assms by (cases err) (auto simp: u)
qed

lemma rules_rebuilt:
  "rebuilt (e_url e) (ad_engine a) (ad_engine (snd (handleRulesPost e user r a)))"
  "rebuilt (e_url e) (ad_engine a) (ad_engine (snd (handleRulesDelete e user r a)))"
  unfolding handleRulesPost_def handleRulesDelete_def Let_def
  by (auto split: sum.split intro!: update_rebuilt)

lemma config_rebuilt: "rebuilt (e_url e) (ad_engine a) (ad_engine (snd (handleConfigPost e user r a)))"
proof (cases "decodeJSON r config_field no_config")
  case (Inr req)
  obtain err a1 where u: "admin_update e (apply_config (body_gives r ''allowed_emails'') (body_gives r ''allowed_groups'') req) a =
      (err, a1)" by fastforce
  obtain ok a2 where l: "admin_reload e a1 = (ok, a2)" by fastforce
  have "ad_engine a1 = ad_engine a" "ad_engine a2 = ad_engine a1"
    using admin_update_engine admin_steps_engine(2) u l by (metis snd_conv)+
  then show ?thesis by (cases err) (auto simp: handleConfigPost_def Inr u l Let_def)
qed (auto simp: handleConfigPost_def)

lemma serve_rebuilt: "rebuilt (e_url e) (ad_engine a) (ad_engine (snd (serve e r a)))"
proof -
  have api: "rebuilt (e_url e) (ad_engine a) (ad_engine (snd (serve_api e user r ep a)))" for user ep
    using rebuiltI(1) rules_rebuilt config_rebuilt
      same_routing_rebuilt [OF rules_unchanged(1)] same_routing_rebuilt [OF rules_unchanged(2)]
      same_routing_rebuilt [OF rules_unchanged(3)] same_routing_rebuilt [OF rules_unchanged(4)]
      same_routing_rebuilt [OF rules_unchanged(5)] same_routing_rebuilt [OF handleLocalPassword_same]
      same_routing_rebuilt [OF cert_handlers_same(1)] same_routing_rebuilt [OF cert_handlers_same(2)]
      same_routing_rebuilt [OF cert_handlers_same(3)] same_routing_rebuilt [OF other_handler_same]
    by (cases ep; simp only: serve_api.simps snd_conv)
  show ?thesis
    using api same_routing_rebuilt [OF open_same]
    by (auto simp: serve_def CheckOrigin_def ipAllowlistMW_def requireAPI_def Let_def split: option.split)
qed

lemma watch_rebuilt: "rebuilt (e_url (lk_env (look_of w))) (ad_engine (nd_admin n)) (ad_engine (nd_admin (watch_step w n)))"
proof -
  have reload: "rebuilt (e_url (lk_env k)) (ad_engine (nd_admin n)) (ad_engine (nd_admin (reload_node k n)))" for k
    by (auto simp: reload_node_def Let_def split: option.split prod.split)
  show ?thesis
    by (cases w) (auto simp: reload tick_node_def split: option.split prod.split)
qed

lemma visit_cases:
  assumes "serve_http useACME custom cached e r a = (w, a')"
  shows "ad_engine a' = ad_engine a \<and> handed_over w = {#} \<or>
     (\<exists>auth host ans. handle auth host (ad_engine a) = (ans, ad_engine a') \<and>
        handed_over w = (case ans of Proxied b \<Rightarrow> {#b#} | _ \<Rightarrow> {#}))"
proof -
  obtain ans en where h: "handle (authCheck e a r) (rq_Host r) (ad_engine a) = (ans, en)" by fastforce
  have login: "handed_over (gateway_login up c r) = {#}" for up c
    by (simp add: gateway_login_def handed_over_def Let_def)
  have o: "handed_over (if ans = Unauthorized then Reply (unauthorizedHandler r) else Routed ans) =
      (case ans of Proxied b \<Rightarrow> {#b#} | _ \<Rightarrow> {#})" by (simp add: handed_over_def split: answer.split)
  have "ad_engine (snd (serve_proxy e r a)) = ad_engine a \<and> handed_over (fst (serve_proxy e r a)) = {#} \<or>
      en = ad_engine (snd (serve_proxy e r a)) \<and> handed_over (fst (serve_proxy e r a)) = (case ans of Proxied b \<Rightarrow> {#b#} | _ \<Rightarrow> {#})"
    using login o by (simp add: serve_proxy_def h Let_def) (simp add: handed_over_def)
  moreover have "(w, a') = serve_proxy e r a \<or> a' = a \<and> handed_over w = {#}"
    using assms by (simp add: serve_http_def Let_def handed_over_def split: if_splits) auto
  ultimately show ?thesis using h by (metis fst_conv snd_conv)
qed

text \<open>A state of the program and one of \<open>Engine\<close> that have the same engine and the same requests.\<close>

definition drives :: "system \<Rightarrow> Engine.world \<Rightarrow> bool" where
  "drives s w \<longleftrightarrow> w_engine w = ad_engine (nd_admin (fst s)) \<and> w_inflight w = snd s"

lemma reachable_step: "reachable up w \<Longrightarrow> world_step up w w' \<Longrightarrow> reachable up w'"
  by (simp add: reachable_def)

lemma reachable_rebuilt:
  assumes "reachable up w" "rebuilt up (w_engine w) e'"
  shows "\<exists>w'. reachable up w' \<and> w_engine w' = e' \<and> w_inflight w' = w_inflight w"
proof (cases "e' = w_engine w")
  case False
  then obtain rls lax where e': "e' = Rebuild up rls (SetTLSLax lax (w_engine w))"
    using assms(2) by (auto simp: rebuilt_def)
  let ?v = "w\<lparr>w_engine := SetTLSLax lax (w_engine w)\<rparr>"
  have "reachable up ?v" by (rule reachable_step [OF assms(1) world_step.lax])
  from reachable_step [OF this world_step.rebuild [of up ?v rls]] show ?thesis
    by (intro exI conjI, assumption) (simp_all add: e')
qed (use assms in blast)

lemma act_drives:
  assumes "reachable up w" "drives s w" "possible up (snd s) x"
  shows "\<exists>w'. reachable up w' \<and> drives (act x s) w'"
proof -
  obtain n q where s: "s = (n, q)" by fastforce
  have w: "w_engine w = ad_engine (nd_admin n)" "w_inflight w = q" using assms(2) by (simp_all add: drives_def s)
  have again: "\<exists>w'. reachable up w' \<and> w_engine w' = e' \<and> w_inflight w' = q" if "rebuilt up (ad_engine (nd_admin n)) e'" for e'
    using reachable_rebuilt [OF assms(1)] that by (simp add: w)
  show ?thesis
  proof (cases x)
    case (Panel e r)
    then show ?thesis using again serve_rebuilt [of e "nd_admin n" r] assms(3) by (simp add: drives_def s)
  next
    case (Watched v)
    then show ?thesis using again watch_rebuilt [of v n] assms(3) by (simp add: drives_def s)
  next
    case (Counted m)
    then show ?thesis using assms(1,2) by (auto simp: drives_def s)
  next
    case (Probed ev)
    from reachable_step [OF assms(1) world_step.health [of up w ev]] show ?thesis
      by (intro exI conjI, assumption) (auto simp: drives_def s w Probed)
  next
    case (Finished b)
    then have "b \<in># w_inflight w" using assms(3) by (simp add: s w)
    from reachable_step [OF assms(1) world_step.finished [OF this]] show ?thesis
      by (intro exI conjI, assumption) (auto simp: drives_def s w Finished)
  next
    case (Visit useACME custom cached e r)
    obtain v a where v: "serve_http useACME custom cached e r (nd_admin n) = (v, a)" by fastforce
    from visit_cases [OF v] show ?thesis
    proof (elim disjE exE conjE)
      assume "ad_engine a = ad_engine (nd_admin n)" "handed_over v = {#}"
      then show ?thesis using assms(1) w by (intro exI [of _ w]) (auto simp: drives_def s Visit v)
    next
      fix auth host ans
      assume h: "handle auth host (ad_engine (nd_admin n)) = (ans, ad_engine a)"
        and o: "handed_over v = (case ans of Proxied b \<Rightarrow> {#b#} | _ \<Rightarrow> {#})"
      show ?thesis
      proof (cases "\<exists>b. ans = Proxied b")
        case True
        then obtain b where b: "ans = Proxied b" by blast
        from reachable_step [OF assms(1) world_step.proxied [OF h [folded w(1), unfolded b]]] show ?thesis
          by (intro exI conjI, assumption) (auto simp: drives_def s Visit v w o b)
      next
        case False
        then have "handed_over v = {#}" using o by (cases ans) auto
        with reachable_step [OF assms(1) world_step.refused [OF h [folded w(1)] False]] show ?thesis
          by (intro exI [of _ "w\<lparr>w_engine := ad_engine a\<rparr>"]) (simp add: drives_def s Visit v w)
      qed
    qed
  qed
qed

lemma start_drives:
  "\<exists>w'. reachable (e_url (wd_env w)) w' \<and> drives (ps_node (start_process fl w attached hk customs st), {#}) w'"
proof -
  let ?up = "e_url (wd_env w)"
  have "\<exists>v. reachable ?up v \<and> w_engine v = start_health hk NewEngine \<and> w_inflight v = {#}"
  proof -
    have r: "reachable ?up Engine.start" by (simp add: reachable_def)
    from reachable_step [OF r world_step.checker [OF hc_inv_New]] r show ?thesis
      by (auto simp: start_health_def Engine.start_def)
        (metis Engine.world.select_convs(1,2))+
  qed
  then obtain v where v: "reachable ?up v" "w_engine v = start_health hk NewEngine" "w_inflight v = {#}" by blast
  have "rebuilt ?up (w_engine v) (Rebuild ?up (cf_Rules (s_cfg st)) (SetTLSLax (cf_InsecureUpstream (s_cfg st)) (w_engine v)))"
    by (auto simp: rebuilt_def)
  from reachable_rebuilt [OF v(1) this] show ?thesis
    by (simp add: drives_def start_process_sel v)
qed


section \<open>Concrete instances\<close>

text \<open>A start that finds the file of a panel with one rule, which asks for a session.\<close>

definition guarded_config :: Config where
  "guarded_config = (panel_cfg sample_panel)\<lparr>cf_Rules := [guarded_rule]\<rparr>"

definition guarded_start :: world where
  "guarded_start = first_start\<lparr>wd_file :=
     Some (marshal_config (map_sensitive (seal_text (ctx sample_draws (sample_key CHR ''k''))) guarded_config))\<rparr>"

lemma guarded_config_ok:
  "config_ok guarded_config" "is_normal guarded_config" "\<not> stillSealed guarded_config"
  "sorted_secrets guarded_config = guarded_config" "sc_Backend (cf_Storage guarded_config) = []"
  by code_simp+

lemma guarded_config_sel: "cf_Rules guarded_config = [guarded_rule]" "\<not> cf_InsecureUpstream guarded_config"
  by (simp_all add: guarded_config_def sample_panel_def sample_config_def with_defaults_def no_config_def)

lemma guarded_loads:
  "\<exists>st. Load sample_draws sample_io True (wd_file guarded_start) [] (sample_key CHR ''k'') = Inr st \<and>
     s_cfg st = guarded_config"
proof -
  have "nil_map (to_Secrets (cf_TOTP load_base)) = []" by (simp add: load_base_def)
  note O = open_written [OF sample_draws_ok sample_draws_ok refl refl guarded_config_ok(1-3) this refl]
  show ?thesis
    using O sealSensitive_text [OF sample_draws_ok]
    by (simp add: Load_def Save_def Let_def guarded_start_def guarded_config_ok(4))
qed

lemma guarded_boot:
  "\<exists>p. boot no_flags guarded_start = Running p \<and> admin_cfg (nd_admin (ps_node p)) = guarded_config \<and>
   ad_engine (nd_admin (ps_node p)) = Rebuild sample_url [guarded_rule]
     (SetTLSLax False (start_health (cf_HealthCheck guarded_config) NewEngine))"
proof -
  obtain st where st: "Load sample_draws sample_io True (wd_file guarded_start) [] (sample_key CHR ''k'') = Inr st"
    "s_cfg st = guarded_config" using guarded_loads by blast
  have w: "first_start\<lparr>wd_file := wd_file guarded_start\<rparr> = guarded_start" "e_url (wd_env guarded_start) = sample_url"
    by (simp_all add: guarded_start_def first_start_def sample_env_def)
  show ?thesis
    using boot_on_file [OF st(1)] st(2) guarded_config_ok(5) by (simp add: start_process_sel w guarded_config_sel)
qed

text \<open>Somebody without a session is turned away; then \<open>alice\<close>, who has one, is served.\<close>

lemma guarded_requests:
  "fst (handle True ''app.test'' (snd (handle False ''app.test'' (Rebuild sample_url [guarded_rule]
     (SetTLSLax False (start_health (cf_HealthCheck guarded_config) NewEngine)))))) = Proxied 0"
  by code_simp

lemma guarded_session: "SessionFromRequest (sample_env 0) guarded_config (page_request (Some alice_token)) = Some alice"
  using alice_session by (simp add: guarded_cfg guarded_config_def)

definition turned_away :: action where
  "turned_away = Visit False (\<lambda>h. False) (\<lambda>h. False) (sample_env 0) (page_request None)"


text \<open>After \<open>alice\<close>'s request her backend counts one.\<close>

definition alice_visits :: action where
  "alice_visits = Visit False (\<lambda>h. False) (\<lambda>h. False) (sample_env 0) (page_request (Some alice_token))"

lemma guarded_counted:
  "(let e = snd (handle True ''app.test'' (Rebuild sample_url [guarded_rule]
     (SetTLSLax False (start_health (cf_HealthCheck guarded_config) NewEngine))))
    in map_option (\<lambda>rt. map be_id (rt_backends rt)) (map_of (e_routes e) ''app.test'')) = Some [0]"
  "fst (handle True ''app.test'' (Rebuild sample_url [guarded_rule]
     (SetTLSLax False (start_health (cf_HealthCheck guarded_config) NewEngine)))) = Proxied 0"
  by code_simp+


end
