(* ===== verification/Backends.thy ===== *)
theory Backends
  imports BackupFiles
begin

text \<open>
  The two homes of the configuration behind the interface \<open>ConfigBackend\<close> of \<open>internal/store/store.go\<close>:
  \<open>PgBackend\<close> of \<open>internal/store/pg.go\<close>, on the tables of \<open>Backup\<close>, and \<open>FileBackend\<close>, with the copies of
  the file. The contract of the interface is the locale \<open>config_backend\<close>.

  Arguments stand for what PostgreSQL does: whether it is reached, how a transaction ends, its clock, the text
  it gives for a stored value (\<open>render\<close>) and for an instant (\<open>stamp\<close>). For the files they say what the
  operating system does.
\<close>

datatype backend_error = ErrBackendUnavailable | ErrCommit | ErrFile

section \<open>PostgreSQL\<close>

datatype connect_error = ErrBadDSN | ErrPool | ErrMigrate

definition Connect :: "bool \<Rightarrow> bool \<Rightarrow> bool \<Rightarrow> connect_error option" where
  "Connect dsn pool migrated =
     (if \<not> dsn then Some ErrBadDSN else if \<not> pool then Some ErrPool else if \<not> migrated then Some ErrMigrate else None)"

definition PgLoad :: "(json \<Rightarrow> string) \<Rightarrow> bool \<Rightarrow> pgdb \<Rightarrow> backend_error + string" where
  "PgLoad render reached db =
     (if \<not> reached then Inl ErrBackendUnavailable
      else (case db_config db of None \<Rightarrow> Inr [] | Some (j, t) \<Rightarrow> Inr (render j)))"

text \<open>
  How a transaction ends: a statement fails, the commit is answered by an error and made or not, or it is
  made. The last component: whether the other nodes are notified.
\<close>

datatype tx = StatementFails | CommitFails bool | Commits

definition PgSave :: "codec \<Rightarrow> tx \<Rightarrow> time \<Rightarrow> string \<Rightarrow> pgdb \<Rightarrow> backend_error option \<times> pgdb \<times> bool" where
  "PgSave tc x now data db =
     (case Option.bind (Unmarshal data) (tc_jsonb tc) of
        None \<Rightarrow> (Some ErrBackendUnavailable, db, False)
      | Some j \<Rightarrow>
          (let db' = db\<lparr>db_config := Some (j, now)\<rparr>
           in case x of
                StatementFails \<Rightarrow> (Some ErrBackendUnavailable, db, False)
              | CommitFails made \<Rightarrow> (Some ErrCommit, if made then db' else db, made)
              | Commits \<Rightarrow> (None, db', True)))"

text \<open>Without a row the query finds nothing to scan, which is an error like any other.\<close>

definition PgVersion :: "(time \<Rightarrow> string) \<Rightarrow> bool \<Rightarrow> pgdb \<Rightarrow> backend_error + string" where
  "PgVersion stamp reached db =
     (if \<not> reached then Inl ErrBackendUnavailable
      else (case db_config db of None \<Rightarrow> Inl ErrBackendUnavailable | Some (j, t) \<Rightarrow> Inr (''db:'' @ stamp t)))"

definition versionSafe :: "backend_error + string \<Rightarrow> string" where
  "versionSafe v = (case v of Inl e \<Rightarrow> [] | Inr s \<Rightarrow> s)"

text \<open>\<open>NULLIF\<close> of an empty text is \<open>NULL\<close>.\<close>

definition nullif :: "string \<Rightarrow> string option" where
  "nullif s = (if s = [] then None else Some s)"

definition AppendAudit ::
  "bool \<Rightarrow> time \<Rightarrow> string \<Rightarrow> string \<Rightarrow> string \<Rightarrow> string \<Rightarrow> pgdb \<Rightarrow> backend_error option \<times> pgdb" where
  "AppendAudit done now event ip user detail db =
     (if \<not> done then (Some ErrBackendUnavailable, db)
      else (None, db\<lparr>db_audit := db_audit db @ [\<lparr>au_ID = db_next db, au_TS = now, au_Event = event, au_IP = ip,
              au_User = nullif user, au_Detail = nullif detail\<rparr>], db_next := db_next db + 1\<rparr>))"

text \<open>
  The goroutine of \<open>WatchChanges\<close>: what it waits for, what happens, and what it does then: how long it sleeps,
  and whether it calls \<open>onChange\<close>.
\<close>

datatype watcher = Acquiring | Listening | Ended

datatype watcher_event = NoConnection | ListenFails | Listens | Notification | Broken | Cancelled

fun watch_next :: "watcher \<Rightarrow> watcher_event \<Rightarrow> watcher \<times> duration \<times> bool" where
  "watch_next Acquiring NoConnection = (Acquiring, 5 * Second, False)"
| "watch_next Acquiring ListenFails = (Acquiring, 5 * Second, False)"
| "watch_next Acquiring Listens = (Listening, 0, False)"
| "watch_next Listening Notification = (Listening, 0, True)"
| "watch_next Listening Broken = (Acquiring, Second, False)"
| "watch_next w Cancelled = (Ended, 0, False)"
| "watch_next w _ = (w, 0, False)"

section \<open>A file\<close>

text \<open>The file, with the time it was written, and the temporary file beside it.\<close>

record cfgfile =
  cf_file :: "(string \<times> time) option"
  cf_tmp :: "string option"

definition FileLoad :: "bool \<Rightarrow> cfgfile \<Rightarrow> backend_error + string" where
  "FileLoad ok f = (case cf_file f of None \<Rightarrow> Inl ErrFile | Some (data, t) \<Rightarrow> if ok then Inr data else Inl ErrFile)"

definition FileSave :: "write_result \<Rightarrow> bool \<Rightarrow> time \<Rightarrow> string \<Rightarrow> cfgfile \<Rightarrow> backend_error option \<times> cfgfile" where
  "FileSave wr renamed now data f =
     (case wr of
        WriteFailed None \<Rightarrow> (Some ErrFile, f)
      | WriteFailed (Some part) \<Rightarrow> (Some ErrFile, f\<lparr>cf_tmp := Some part\<rparr>)
      | Written \<Rightarrow> if renamed then (None, f\<lparr>cf_file := Some (data, now), cf_tmp := None\<rparr>)
                  else (Some ErrFile, f\<lparr>cf_tmp := Some data\<rparr>))"

definition mtime :: "time \<Rightarrow> string" where
  "mtime t = ''mtime:'' @ Itoa t"

definition FileVersion :: "cfgfile \<Rightarrow> backend_error + string" where
  "FileVersion f = (case cf_file f of None \<Rightarrow> Inl ErrFile | Some (data, t) \<Rightarrow> Inr (mtime t))"

text \<open>\<open>BackupFile\<close> copies the file into the directory \<open>d\<close>, \<open>pruneBackups\<close> keeps the last of its names.\<close>

definition prune_json :: "fsio \<Rightarrow> int \<Rightarrow> bdir \<Rightarrow> bdir" where
  "prune_json x keep d =
     (if keep \<le> 0 \<or> \<not> fs_readdir x then d
      else (let names = sort (map fst (filter (\<lambda>e. snd e \<noteq> SubDir \<and> Ext (fst e) = ''.json'') (entries d)))
            in fold (\<lambda>n d. snd (remove_file x n d)) (take (nat (int (length names) - keep)) names) d))"

definition BackupFile :: "fsio \<Rightarrow> string option \<Rightarrow> int \<Rightarrow> bdir \<Rightarrow> bdir" where
  "BackupFile x file keep d =
     (case file of
        None \<Rightarrow> d
      | Some data \<Rightarrow>
          if data = [] \<or> \<not> fs_mkdir x then d
          else (let name = ''config-'' @ fs_stamp x @ ''.json''
                in prune_json x keep (Some (case fs_write x of
                     WriteFailed None \<Rightarrow> entries d
                   | WriteFailed (Some part) \<Rightarrow> AList.update name (PlainFile part (fs_now x)) (entries d)
                   | Written \<Rightarrow> AList.update name (PlainFile data (fs_now x)) (entries d)))))"

section \<open>The contract\<close>

text \<open>
  What a save leaves: \<open>saved t data s\<close> is the state after one at the time \<open>t\<close>, if it was made. It is
  what is loaded, up to \<open>kept\<close>, and its version is known and belongs to no other time.
\<close>

locale config_backend =
  fixes load :: "'s \<Rightarrow> string option" and version :: "'s \<Rightarrow> string option"
    and saved :: "time \<Rightarrow> string \<Rightarrow> 's \<Rightarrow> 's option" and kept :: "string \<Rightarrow> string"
  assumes load_saved: "saved t data s = Some s' \<Longrightarrow> load s' = Some (kept data)"
    and version_saved: "saved t data s = Some s' \<Longrightarrow> version s' \<noteq> None"
    and version_time: "saved t data s = Some s' \<Longrightarrow> saved u d r = Some r' \<Longrightarrow> version s' = version r' \<Longrightarrow> t = u"
begin

fun save_all :: "(time \<times> string) list \<Rightarrow> 's \<Rightarrow> 's option" where
  "save_all [] s = Some s"
| "save_all ((t, data) # ws) s = Option.bind (saved t data s) (save_all ws)"

lemma save_all_append: "save_all (ws @ vs) s = Option.bind (save_all ws s) (save_all vs)"
  by (induction ws arbitrary: s) (auto split: Option.bind_split)

text \<open>Whoever knows the version of a save and finds it again has missed nothing.\<close>

lemma version_tells:
  assumes "saved t data s = Some s'" "save_all ws s' = Some r" "\<forall>(u, d) \<in> set ws. t < u" "version r = version s'"
  shows "ws = [] \<and> load r = Some (kept data)"
proof (cases ws rule: rev_cases)
  case (snoc vs w)
  obtain u d where w: "w = (u, d)" by fastforce
  then obtain q where "saved u d q = Some r"
    using assms(2) snoc by (auto simp: save_all_append split: Option.bind_splits)
  then have "t = u" using version_time [OF assms(1)] assms(4) by simp
  then show ?thesis using assms(3) snoc w by auto
qed (use assms load_saved in auto)

end

text \<open>Instants written as texts, each its own.\<close>

locale stamps =
  fixes stamp :: "time \<Rightarrow> string"
  assumes stamp_inj: "stamp t = stamp u \<Longrightarrow> t = u"

definition to_option :: "'e + 'a \<Rightarrow> 'a option" where
  "to_option x = (case x of Inl e \<Rightarrow> None | Inr v \<Rightarrow> Some v)"

definition pg_saved :: "codec \<Rightarrow> time \<Rightarrow> string \<Rightarrow> pgdb \<Rightarrow> pgdb option" where
  "pg_saved tc t data db =
     (case PgSave tc Commits t data db of (None, db', n) \<Rightarrow> Some db' | (Some e, db', n) \<Rightarrow> None)"

definition pg_kept :: "codec \<Rightarrow> (json \<Rightarrow> string) \<Rightarrow> string \<Rightarrow> string" where
  "pg_kept tc render data = (case Option.bind (Unmarshal data) (tc_jsonb tc) of None \<Rightarrow> data | Some j \<Rightarrow> render j)"

lemma pg_saved_row:
  "pg_saved tc t data db = Some db' \<Longrightarrow>
   \<exists>j. Option.bind (Unmarshal data) (tc_jsonb tc) = Some j \<and> db' = db\<lparr>db_config := Some (j, t)\<rparr>"
  by (auto simp: pg_saved_def PgSave_def Let_def split: option.splits)

sublocale stamps \<subseteq> pg: config_backend "\<lambda>db. to_option (PgLoad render True db)" "\<lambda>db. to_option (PgVersion stamp True db)"
  "pg_saved tc" "pg_kept tc render" for tc render
  by unfold_locales
    (auto simp: PgLoad_def PgVersion_def pg_kept_def to_option_def dest!: pg_saved_row intro: stamp_inj)

definition file_saved :: "time \<Rightarrow> string \<Rightarrow> cfgfile \<Rightarrow> cfgfile option" where
  "file_saved t data f = (case FileSave Written True t data f of (None, f') \<Rightarrow> Some f' | (Some e, f') \<Rightarrow> None)"

lemma nat_str_no_sign: "nat_str n \<noteq> CHR ''-'' # s"
proof
  assume "nat_str n = CHR ''-'' # s"
  then have "is_digit CHR ''-''" using nat_str_digits [of n] by simp
  then show False by (simp add: is_digit_def)
qed

lemma Itoa_inject: "Itoa i = Itoa j \<longleftrightarrow> i = j"
  using nat_str_no_sign nat_str_no_sign [THEN not_sym] by (auto simp: Itoa_def nat_str_inject eq_nat_nat_iff)

interpretation mtimes: stamps mtime
  by unfold_locales (simp add: mtime_def Itoa_inject)

interpretation disk: config_backend "\<lambda>f. to_option (FileLoad True f)" "\<lambda>f. to_option (FileVersion f)" file_saved "\<lambda>data. data"
  by unfold_locales
    (auto simp: file_saved_def FileSave_def FileLoad_def FileVersion_def to_option_def dest: mtimes.stamp_inj)

section \<open>Properties\<close>

text \<open>A save that fails leaves what is loaded as it was, unless only the answer to the commit was lost.\<close>

lemma PgSave_failed:
  "PgSave tc x t data db = (Some e, db', n) \<Longrightarrow> db' = db \<or> x = CommitFails True \<and> n"
  by (auto simp: PgSave_def Let_def split: option.splits tx.splits)

lemma FileSave_failed: "FileSave wr ren t data f = (Some e, f') \<Longrightarrow> cf_file f' = cf_file f"
  by (auto simp: FileSave_def split: write_result.splits option.splits if_splits)

text \<open>
  A watcher calls \<open>onChange\<close> for a notification exactly when it listens: one that comes while the
  connection is lost, or before it listens for the first time, is not called for later.
\<close>

fun watch_calls :: "watcher \<Rightarrow> watcher_event list \<Rightarrow> nat" where
  "watch_calls w [] = 0"
| "watch_calls w (ev # evs) = (case watch_next w ev of (w', d, c) \<Rightarrow> (if c then 1 else 0) + watch_calls w' evs)"

fun while_listening :: "bool \<Rightarrow> watcher_event list \<Rightarrow> nat" where
  "while_listening l [] = 0"
| "while_listening l (Cancelled # evs) = 0"
| "while_listening l (Notification # evs) = (if l then 1 else 0) + while_listening l evs"
| "while_listening l (ev # evs) = while_listening (ev = Listens \<or> l \<and> ev \<noteq> Broken) evs"

lemma watch_ended: "watch_calls Ended evs = 0"
proof (induction evs)
  case (Cons ev evs)
  then show ?case by (cases ev) simp_all
qed simp

lemma notified_while_listening:
  "w \<noteq> Ended \<Longrightarrow> watch_calls w evs = while_listening (w = Listening) evs"
proof (induction evs arbitrary: w)
  case (Cons ev evs)
  then show ?case by (cases w; cases ev) (simp_all add: watch_ended)
qed simp

end
