(* ===== verification/Fleet.thy ===== *)
theory Fleet
  imports Cluster Backends
begin

text \<open>
  The nodes of a cluster and the database they share. A node saves its configuration into the database
  (\<open>Config.Update\<close> and \<open>Backends.PgSave\<close>); every node looks at it (\<open>Cluster.watch_step\<close>), by its ticker or when
  it is notified, and finds what \<open>PgVersion\<close> and \<open>PgLoad\<close> give.
\<close>

section \<open>The cluster\<close>

record fleet =
  fl_nodes :: "node list"
  fl_db :: pgdb

text \<open>
  A look of one node: by the ticker or after a notification, and whether the query of the version, the
  one of the configuration, and the one of the version after it are answered.
\<close>

record sight =
  sg_node :: nat
  sg_tick :: bool
  sg_env :: env
  sg_listen :: "string \<Rightarrow> string option"
  sg_reached :: "bool \<times> bool \<times> bool"

definition look_at :: "(json \<Rightarrow> string) \<Rightarrow> (time \<Rightarrow> string) \<Rightarrow> sight \<Rightarrow> pgdb \<Rightarrow> look" where
  "look_at render stamp g db =
     (case sg_reached g of (r1, r2, r3) \<Rightarrow>
        \<lparr>lk_env = sg_env g, lk_listen = sg_listen g, lk_version = to_option (PgVersion stamp r1 db),
         lk_load = to_option (PgLoad render r2 db), lk_current = versionSafe (PgVersion stamp r3 db)\<rparr>)"

definition sight_step :: "(json \<Rightarrow> string) \<Rightarrow> (time \<Rightarrow> string) \<Rightarrow> pgdb \<Rightarrow> sight \<Rightarrow> watch" where
  "sight_step render stamp db g =
     (if sg_tick g then Tick (look_at render stamp g db) else Notified (look_at render stamp g db))"

definition see :: "(json \<Rightarrow> string) \<Rightarrow> (time \<Rightarrow> string) \<Rightarrow> sight \<Rightarrow> fleet \<Rightarrow> fleet" where
  "see render stamp g fl =
     fl\<lparr>fl_nodes := (fl_nodes fl)[sg_node g := watch_step (sight_step render stamp (fl_db fl) g) (fl_nodes fl ! sg_node g)]\<rparr>"

text \<open>Node \<open>i\<close> has saved: its store is \<open>st\<close> now, and the database \<open>db\<close>.\<close>

definition saved_by :: "nat \<Rightarrow> Store \<Rightarrow> pgdb \<Rightarrow> fleet \<Rightarrow> fleet" where
  "saved_by i st db fl = fl\<lparr>fl_nodes := (fl_nodes fl)[i := put_store st (fl_nodes fl ! i)], fl_db := db\<rparr>"

abbreviation store_of :: "fleet \<Rightarrow> nat \<Rightarrow> Store" where
  "store_of fl i \<equiv> node_store (fl_nodes fl ! i)"

text \<open>
  What is relied on of PostgreSQL: the text it gives for a stored document is another text of the same
  document. Only its order of members and its white space are PostgreSQL's own.
\<close>

definition gives_back :: "codec \<Rightarrow> (json \<Rightarrow> string) \<Rightarrow> string \<Rightarrow> bool" where
  "gives_back tc render data \<longleftrightarrow>
     (case Option.bind (Unmarshal data) (tc_jsonb tc) of
        None \<Rightarrow> True
      | Some j \<Rightarrow> render j \<noteq> [] \<and>
          unmarshal_config (TrimPrefix (render j) bom) no_config = unmarshal_config (TrimPrefix data bom) no_config)"

text \<open>A look of node \<open>j\<close> that can read what was sealed with \<open>d\<close>, and one that is answered in full.\<close>

definition able :: "nat \<Rightarrow> url_parser \<Rightarrow> draws \<Rightarrow> keyfile \<Rightarrow> sight \<Rightarrow> bool" where
  "able j up d kf g \<longleftrightarrow> sg_node g = j \<longrightarrow>
     draws_ok (e_draws (sg_env g)) kf \<and> dr_crypto (e_draws (sg_env g)) = dr_crypto d \<and> e_url (sg_env g) = up"

definition answered :: "nat \<Rightarrow> sight \<Rightarrow> bool" where
  "answered j g \<longleftrightarrow> sg_node g = j \<and> sg_reached g = (True, True, True) \<and> io_local (e_io (sg_env g))"

section \<open>What a save puts into the database\<close>

lemma Save_pushes:
  assumes "Save d x s = (None, s')" "s_backend s' = Some r" "draws_ok d (s_key s)"
  shows "rm_data r = marshal_config (map_sensitive (seal_text (ctx (with_tag ''remote|'' d) (s_key s))) (s_cfg s))"
proof -
  have t: "draws_ok (with_tag ''remote|'' d) (s_key s)" using assms(3) by simp
  show ?thesis
    using assms(1,2) sealSensitive_text [OF assms(3)] sealSensitive_text [OF t]
    by (auto simp: Save_def pushToBackend_def Let_def split: if_splits option.splits)
qed

lemma saved_data:
  assumes "Update d x f s = (None, s')" "s_backend s' = Some r" "draws_ok d (s_key s)" "c = f (s_cfg s)"
    and "config_ok c" "is_normal c" "\<not> stillSealed c"
    and "draws_ok d' kf" "dr_crypto d' = dr_crypto d" "kf_data kf = kf_data (s_key s)"
  shows "decodeConfig d' (rm_data r) kf = (Inr (sorted_secrets c), kf)"
proof -
  have "rm_data r = marshal_config (map_sensitive (seal_text (ctx (with_tag ''remote|'' d) (s_key s))) c)"
    using Save_pushes [of d x "s\<lparr>s_cfg := f (s_cfg s)\<rparr>" s' r] assms(1-4) by (simp add: Update_def)
  moreover have "draws_ok (with_tag ''remote|'' d) (s_key s)" using assms(3) by simp
  moreover have "dr_crypto d' = dr_crypto (with_tag ''remote|'' d)" using assms(9) by (simp add: with_tag_def)
  ultimately show ?thesis using decodeConfig_written [of "with_tag ''remote|'' d" "s_key s" d' kf c] assms(5-8,10) by simp
qed

lemma PgSave_row:
  assumes "PgSave tc w t data db = (None, db', b)"
  obtains j where "Option.bind (Unmarshal data) (tc_jsonb tc) = Some j" "db_config db' = Some (j, t)"
  using assms by (auto simp: PgSave_def Let_def split: option.splits tx.splits)

section \<open>What the nodes see\<close>

lemma see_other [simp]: "sg_node g \<noteq> j \<Longrightarrow> fl_nodes (see render stamp g fl) ! j = fl_nodes fl ! j"
  by (simp add: see_def)

lemma see_db [simp]: "fl_db (see render stamp g fl) = fl_db fl" "length (fl_nodes (see render stamp g fl)) = length (fl_nodes fl)"
  by (simp_all add: see_def)

text \<open>What the cluster does to a node is what the looks of this node do.\<close>

lemma fold_see:
  "j < length (fl_nodes fl) \<Longrightarrow> fl_nodes (fold (see render stamp) gs fl) ! j =
     fold watch_step (map (sight_step render stamp (fl_db fl)) (filter (\<lambda>g. sg_node g = j) gs)) (fl_nodes fl ! j)"
  by (induction gs arbitrary: fl) (simp_all add: see_def)

lemma look_of_sight [simp]: "look_of (sight_step render stamp db g) = look_at render stamp g db"
  by (simp add: sight_step_def)


section \<open>Concrete instances\<close>

text \<open>Two nodes: one makes the sessions shorter, the other looks twice and is answered at the second time.\<close>

definition two_nodes :: fleet where
  "two_nodes = \<lparr>fl_nodes = [sample_node, sample_node], fl_db = sample_db\<rparr>"

definition shorter :: "Config \<Rightarrow> Config" where
  "shorter c = c\<lparr>cf_SessionHours := 8\<rparr>"

definition sample_sight :: "bool \<Rightarrow> sight" where
  "sample_sight ok = \<lparr>sg_node = 1, sg_tick = True, sg_env = sample_env 0, sg_listen = (\<lambda>a. None), sg_reached = (ok, True, True)\<rparr>"

lemma shorter_ok: "config_ok (shorter sample_config)" "is_normal (shorter sample_config)" "\<not> stillSealed (shorter sample_config)"
  "cf_SessionHours (sorted_secrets (shorter sample_config)) = 8"
  by code_simp+

lemma pushed_json: "config_ok c \<Longrightarrow> Unmarshal (marshal_config c) = Some (JObj (config_json c))"
  by (simp add: marshal_config_def Unmarshal_print config_json_ok del: print_json.simps)


end
