(* ===== verification/Logger.thy ===== *)
theory Logger
  imports AuditFile
begin

text \<open>
  The structured logger of \<open>internal/logger/logger.go\<close>, and why a line of it, or of the audit log, is one
  entry, whatever a client puts into the texts. The package is not used by \<open>main.go\<close>, which logs with the
  standard library.

  The writer is the list of what has been written; the loggers made by \<open>WithComponent\<close> share it. Formatting of
  the arguments (\<open>fmt\<close>) and of the instant is done by the caller here. The mutex makes a write one step.
\<close>

section \<open>Levels\<close>

text \<open>\<open>Level\<close> is an integer; any other than these four prints as \<open>info\<close>.\<close>

type_synonym level = int

definition LevelDebug :: level where "LevelDebug = 0"
definition LevelInfo :: level where "LevelInfo = 1"
definition LevelWarn :: level where "LevelWarn = 2"
definition LevelError :: level where "LevelError = 3"

lemmas levels = LevelDebug_def LevelInfo_def LevelWarn_def LevelError_def

definition ParseLevel :: "string \<Rightarrow> level" where
  "ParseLevel s =
     (let t = ToLower (TrimSpace s)
      in if t = ''debug'' then LevelDebug
         else if t = ''warn'' \<or> t = ''warning'' then LevelWarn
         else if t = ''error'' \<or> t = ''err'' then LevelError
         else LevelInfo)"

definition level_String :: "level \<Rightarrow> string" where
  "level_String l =
     (if l = LevelDebug then ''debug''
      else if l = LevelInfo then ''info''
      else if l = LevelWarn then ''warn''
      else if l = LevelError then ''error''
      else ''info'')"

section \<open>The logger\<close>

record Entry =
  en_Timestamp :: string
  en_Level :: string
  en_Message :: string
  en_Component :: string
  en_RequestID :: string

record Logger =
  lo_level :: level
  lo_component :: string

type_synonym writer = "string list"

definition Entry_json :: "Entry \<Rightarrow> json" where
  "Entry_json e = JObj
     ([(''ts'', JStr (en_Timestamp e)), (''level'', JStr (en_Level e)), (''msg'', JStr (en_Message e))] @
      (if en_Component e = [] then [] else [(''component'', JStr (en_Component e))]) @
      (if en_RequestID e = [] then [] else [(''request_id'', JStr (en_RequestID e))]))"

definition log_entry :: "string \<Rightarrow> level \<Rightarrow> string \<Rightarrow> string \<Rightarrow> string \<Rightarrow> Logger \<Rightarrow> writer \<Rightarrow> writer" where
  "log_entry now lvl component requestID msg l w =
     (if lvl < lo_level l then w
      else w @ [print_json (Entry_json \<lparr>en_Timestamp = now, en_Level = level_String lvl, en_Message = msg,
                  en_Component = component, en_RequestID = requestID\<rparr>), [CHR 0x0A]])"

definition Debugf :: "string \<Rightarrow> string \<Rightarrow> string \<Rightarrow> string \<Rightarrow> Logger \<Rightarrow> writer \<Rightarrow> writer" where
  "Debugf now component requestID msg = log_entry now LevelDebug component requestID msg"

definition Infof :: "string \<Rightarrow> string \<Rightarrow> string \<Rightarrow> string \<Rightarrow> Logger \<Rightarrow> writer \<Rightarrow> writer" where
  "Infof now component requestID msg = log_entry now LevelInfo component requestID msg"

definition Warnf :: "string \<Rightarrow> string \<Rightarrow> string \<Rightarrow> string \<Rightarrow> Logger \<Rightarrow> writer \<Rightarrow> writer" where
  "Warnf now component requestID msg = log_entry now LevelWarn component requestID msg"

definition Errorf :: "string \<Rightarrow> string \<Rightarrow> string \<Rightarrow> string \<Rightarrow> Logger \<Rightarrow> writer \<Rightarrow> writer" where
  "Errorf now component requestID msg = log_entry now LevelError component requestID msg"

definition Printf :: "string \<Rightarrow> string \<Rightarrow> Logger \<Rightarrow> writer \<Rightarrow> writer" where
  "Printf now msg l w = log_entry now LevelInfo (lo_component l) [] msg l w"

text \<open>The process ends with the exit code of the first component.\<close>

definition Fatalf :: "string \<Rightarrow> string \<Rightarrow> Logger \<Rightarrow> writer \<Rightarrow> int \<times> writer" where
  "Fatalf now msg l w = (1, log_entry now LevelError (lo_component l) [] msg l w)"

definition SetLevel :: "level \<Rightarrow> Logger \<Rightarrow> Logger" where
  "SetLevel lvl l = l\<lparr>lo_level := lvl\<rparr>"

definition WithComponent :: "string \<Rightarrow> Logger \<Rightarrow> Logger" where
  "WithComponent c l = \<lparr>lo_level = lo_level l, lo_component = c\<rparr>"

text \<open>\<open>Write\<close> passes what it is given on, whatever the level.\<close>

definition Write :: "string \<Rightarrow> writer \<Rightarrow> writer" where
  "Write p w = w @ [p]"

section \<open>Properties\<close>

lemma ParseLevel_String: "ParseLevel (level_String l) = (if l \<in> {LevelDebug, LevelWarn, LevelError} then l else LevelInfo)"
proof -
  have p: "ParseLevel ''debug'' = LevelDebug" "ParseLevel ''info'' = LevelInfo" "ParseLevel ''warn'' = LevelWarn"
    "ParseLevel ''error'' = LevelError" by code_simp+
  show ?thesis using p by (simp add: level_String_def)
qed

lemma log_entry_quiet: "log_entry now lvl component requestID msg l w = w \<longleftrightarrow> lvl < lo_level l"
  by (simp add: log_entry_def)

text \<open>A printed text has no line feed, so neither has an entry.\<close>

lemma escape_no_lf: "CHR 0x0A \<notin> set (escape_char c)"
proof -
  have "hex_val CHR 0x0A = None" by code_simp
  then have "letter hex_alphabet i \<noteq> CHR 0x0A" if "i < 16" for i
    using hex_val_letter [OF that] by force
  moreover have "ord c div 16 < 16" using ord_less [of c] by (simp add: div_less_iff_less_mult del: ord_less)
  ultimately have "CHR 0x0A \<noteq> letter hex_alphabet (ord c div 16)" "CHR 0x0A \<noteq> letter hex_alphabet (ord c mod 16)"
    by (metis, metis mod_less_divisor zero_less_numeral)
  moreover have "c \<noteq> CHR 0x0A" if "short_escape c = None"
  proof
    assume "c = CHR 0x0A"
    moreover have "short_escape CHR 0x0A = Some CHR ''n''" by code_simp
    ultimately show False using that by simp
  qed
  moreover have "e \<noteq> CHR 0x0A" if "short_escape c = Some e" for e
    using that by (auto simp: short_escape_def quote_def backslash_def split: if_splits)
  ultimately show ?thesis by (auto simp: escape_char_def backslash_def split: option.splits)
qed

lemma print_str_no_lf [simp]: "CHR 0x0A \<notin> set (print_str s)"
  using escape_no_lf by (auto simp: print_str_def quote_def)

lemma entry_no_lf: "CHR 0x0A \<notin> set (print_json (Entry_json e))" "CHR 0x0A \<notin> set (print_json (entry_json a))"
  by (simp_all add: Entry_json_def entry_json_def)

text \<open>
  Cutting the audit log at its line feeds gives back its entries, and each of them reads as what it was: no
  text from outside makes a line of its own or another field.
\<close>

lemma audit_lines: "Split (concat (map audit_line es)) (CHR 0x0A) = map (\<lambda>e. print_json (entry_json e)) es @ [[]]"
proof (induction es)
  case (Cons e es)
  then show ?case using Split_append_sep [OF entry_no_lf(2)] by (simp add: audit_line_def)
qed simp

lemma audit_entry_reads: "Unmarshal (print_json (entry_json e)) = Some (entry_json e)"
  by (rule Unmarshal_print) (simp add: entry_json_def)

lemma log_entry_line:
  assumes "\<not> lvl < lo_level l"
  shows "concat (log_entry now lvl component requestID msg l w) = concat w @ print_json (Entry_json
     \<lparr>en_Timestamp = now, en_Level = level_String lvl, en_Message = msg, en_Component = component, en_RequestID = requestID\<rparr>) @ [CHR 0x0A]"
  using assms by (simp add: log_entry_def)

end
