(* ===== verification/Spec2Isabelle.thy ===== *)
theory Spec2Isabelle
  imports Limiter Engine Tokens Config Access Totp AdminRoutes Streams PanelSafety PanelForms Locks
    Backup BackupFiles Metrics Cluster Gateway Update Relay AuditFile Startup System Backends Fleet Logger
begin

text \<open>
  PxProxy is a reverse proxy with a panel. One process, started by \<open>main.go\<close>, serves the proxy's ports and
  the panel's, relays TCP connections, probes its backends, and keeps its configuration in a file or, as a
  node of a cluster, in PostgreSQL. This library models the Go code of the repository and proves what it
  is relied on for. Each theory opens with what it models and what it leaves to arguments.

  \<^bold>\<open>The parts and how they meet.\<close> A request to a port of the proxy goes through \<open>proxyHandler\<close> (\<open>Gateway\<close>) to
  the routing engine (\<open>Engine\<close>), which picks a rule by the host and a backend by the balancer (\<open>Balancer\<close>),
  asks the health checker (\<open>Health\<close>) whether it is up and the session check (\<open>Tokens\<close>) whether the visitor may pass.
  A request to the panel goes through the guards of \<open>AdminRoutes\<close> to a handler, which changes the configuration
  by \<open>Config.Update\<close> and then rebuilds the engine, the listeners and the identity providers. Logins
  (\<open>Login\<close>, \<open>LoginHandlers\<close>) ask the policy (\<open>Access\<close>), the second factor (\<open>Totp\<close>) and the limiters (\<open>Limiter\<close>).
  In a cluster the configuration and the lockouts are in the database (\<open>Backends\<close>, \<open>Locks\<close>), which every node
  follows (\<open>Cluster\<close>). \<open>Startup\<close> is the way from the flags to that process and \<open>System\<close> its life.
\<close>

text \<open>
  \<^bold>\<open>Which theory models what.\<close>

  \<^item> \<open>Prelude\<close>, \<open>Decimal\<close>, \<open>Codec\<close>, \<open>Json\<close>, \<open>Http\<close>: the part of Go's standard library the program uses, as
    bytes, instants and values: strings, numerals, base 64, base 32 and hex, JSON, requests and responses.
  \<^item> \<open>Limiter\<close>, \<open>AuditFile\<close>: \<open>Limiter\<close> and \<open>AuditLog\<close> of \<open>internal/security/security.go\<close>; its address lists
    are in \<open>Access\<close>, its middlewares in \<open>AdminRoutes\<close> and \<open>Gateway\<close>.
  \<^item> \<open>Health\<close>, \<open>Metrics\<close>, \<open>Totp\<close>, \<open>Secrets\<close>, \<open>Logger\<close>: the package of that name, \<open>totp.go\<close> for \<open>Totp\<close>.
  \<^item> \<open>Balancer\<close>, \<open>Engine\<close>: \<open>internal/rules/engine.go\<close>. The route table is an association list (\<open>e_routes\<close>);
    a backend shared by pointer has an identity (\<open>be_id\<close>).
  \<^item> \<open>ConfigData\<close>, \<open>ConfigJson\<close>, \<open>Config\<close>: \<open>internal/config/config.go\<close>, its structs, their JSON and the \<open>Store\<close> with
    its copies in memory, in the file and in the backend.
  \<^item> \<open>Tokens\<close>, \<open>Access\<close>, \<open>Login\<close>, \<open>LoginHandlers\<close>: \<open>internal/auth\<close>, with the login handlers of \<open>admin.go\<close>.
  \<^item> \<open>Forms\<close>, \<open>Admin\<close>, \<open>AdminPages\<close>, \<open>AdminRoutes\<close>: \<open>internal/server/admin.go\<close>. \<open>serve\<close> is the handler \<open>Routes\<close>
    returns. Its state is \<open>Admin\<close>: the panel with the store and the limiters, the engine, the listeners.
    \<open>PanelSafety\<close>, \<open>PanelInvariants\<close> and \<open>PanelForms\<close> are what is proved of it.
  \<^item> \<open>Streams\<close>, \<open>Relay\<close>: \<open>internal/stream/stream.go\<close>, the manager of the listeners and the goroutines of one.
  \<^item> \<open>Locks\<close>, \<open>Backends\<close>, \<open>Backup\<close>, \<open>BackupFiles\<close>: \<open>internal/store\<close>, with what \<open>main.go\<close> makes of it. The database
    is its three tables.
  \<^item> \<open>Update\<close>: \<open>internal/update/update.go\<close> and the restart scripts of \<open>admin.go\<close>.
  \<^item> \<open>Cluster\<close>, \<open>Gateway\<close>, \<open>Startup\<close>: \<open>main.go\<close>. \<open>System\<close> and \<open>Fleet\<close> compose the others: one process with
    everything that happens to it, and the nodes of a cluster around their database.
\<close>

text \<open>
  \<^bold>\<open>What the lemmas show.\<close>

  \<^item> Of the whole: what reaches a backend is allowed by the configuration of the moment, from the start on and
    whatever happens, and its engine is driven as \<open>Engine\<close> has it, so that what is shown there of every reachable
    state holds of the running program (\<open>System\<close>); a save of one node reaches the others (\<open>Fleet\<close>); a process that starts is ready
    (\<open>Startup\<close>); a visitor sent to the login comes back (\<open>Gateway\<close>).
  \<^item> Of the engine: hosts are served by the rules, connections are counted, weights are kept and the breaker is
    a count of failures (\<open>Engine\<close>, \<open>Balancer\<close>, \<open>Health\<close>). These are invariants of step relations.
  \<^item> Of the panel: who may change what, that the configuration stays valid and the routes follow it, and that
    forms lose nothing (\<open>PanelSafety\<close>, \<open>PanelInvariants\<close>, \<open>PanelForms\<close>).
  \<^item> Of identity: which tokens, passwords and codes are accepted, and that guessing is bounded (\<open>Tokens\<close>, \<open>Totp\<close>,
    \<open>LoginHandlers\<close>, \<open>Limiter\<close>).
  \<^item> Of what is kept: round trips of the configuration, nothing secret in the clear, copies that restore, lockouts
    and audit lines that are not lost (\<open>Config\<close>, \<open>Backup\<close>, \<open>BackupFiles\<close>, \<open>Locks\<close>, \<open>AuditFile\<close>).
  \<^item> Of operations that can fail halfway: updates and restores are made entirely or not at all (\<open>Update\<close>, \<open>Backup\<close>);
    stopping a listener comes to an end (\<open>Relay\<close>).

  Some theorems state a defect: what the code does where it was meant to do something else. They say so in the
  text before them.

  \<^bold>\<open>Contracts.\<close> The interfaces between the parts are locales, interpreted where they are provided: \<open>text_codec\<close>,
  \<open>vault\<close> (sealing), \<open>signed_payload\<close>, \<open>health_source\<close>, \<open>cyclic_strategy\<close>, \<open>reconciler\<close>, \<open>join_store\<close> (lockouts),
  \<open>keyed_table\<close> and \<open>service\<close> (panel), \<open>config_backend\<close> (\<open>ConfigBackend\<close>) over \<open>stamps\<close>.

  \<^bold>\<open>Bounds.\<close> The JSON reader has fuel, twice the length of the text and two, and \<open>Unmarshal_print\<close> shows it to be
  enough for what the program writes. Words keep their width where it matters: the round-robin counter and the
  metrics at 64 bits, one-time codes at 32. Other numbers of Go's \<open>int\<close> are integers. No other recursion is
  bounded by hand.
\<close>

text \<open>
  \<^bold>\<open>Arguments.\<close> What is not in the repository is an argument, with what is relied on of it as a hypothesis where it
  is needed: cryptography (\<open>crypto_ok\<close>), HMAC and bcrypt, package \<open>certs\<close>, the ACME client, OpenID Connect and LDAP,
  PostgreSQL (\<open>codec\<close>, \<open>gives_back\<close>, how a transaction ends), the operating system (\<open>io\<close>, \<open>fsio\<close>), the clock, random
  bytes, \<open>url.Parse\<close>, the text of IPv6 addresses, and what an HTTP server answers.

  \<^bold>\<open>Not modelled.\<close>

  \<^item> Locks and overlapping critical sections: an operation that holds its mutex throughout is one step. Where
    the order of things matters, steps are split (\<open>Relay\<close>, the requests in flight of \<open>Engine\<close>, the queries of a
    copy in \<open>Backup\<close>).
  \<^item> The reverse proxy itself, the bodies it passes on and the headers it sets; transports and timeouts.
  \<^item> HTML pages and assets, the page for a disabled host, the QR image, lines of the standard logger.
  \<^item> Package \<open>certs\<close>, which the repository imports but does not contain; ACME beyond its checks.
  \<^item> Floating point: the averages of the metrics page. Unicode beyond ASCII in \<open>strings\<close> and \<open>unicode\<close>.
  \<^item> The shutdown, signals, and detaching the restart script from the process: calls of the system only.
\<close>

end
